(* ===== verification/Prelude.thy ===== *)
theory Prelude
  imports Main "HOL-Library.Word" "HOL-Library.Signed_Division"
begin

text \<open>
  Shared vocabulary of the development.

  \<^item> The machine integers of the C sources: \<open>u8\<close>, \<open>u32\<close> are \<open>uint8_t\<close>, \<open>uint32_t\<close>;
    a C \<open>int\<close> is an \<open>int\<close>, read off a \<open>u32\<close> with \<open>sint\<close> where the code casts.
  \<^item> \<open>c_error\<close> and \<open>'a res\<close>: a C operation either returns or runs into one of the faults
    below. Every dereference, index and division that the sources make without a check is a
    branch of the model that may produce a fault.
  \<^item> \<open>bindE\<close> sequences such operations, \<open>iterE\<close> is the \<open>list_iterate\<close> loop over them.
  \<^item> \<open>list_get\<close>: a read of a \<open>t_list\<close> whose result is used at once. The commons library
    answers NULL for an index out of range, so using that answer is a NULL dereference.
\<close>

type_synonym u8 = "8 word"
type_synonym u32 = "32 word"

datatype c_error =
    NullDeref       \<comment> \<open>a NULL pointer is dereferenced\<close>
  | WildDeref       \<comment> \<open>a value that is no address of an object is dereferenced\<close>
  | OutOfBounds     \<comment> \<open>a buffer is accessed outside its bounds\<close>
  | UninitRead      \<comment> \<open>an indeterminate value is used\<close>
  | UseAfterFree    \<comment> \<open>a freed object is accessed\<close>
  | DivByZero       \<comment> \<open>division by zero\<close>
  | StackSmash      \<comment> \<open>more bytes are copied into a local variable than it holds\<close>
  | TypeConfusion   \<comment> \<open>an object is accessed through a pointer of another type\<close>
  | BadCall         \<comment> \<open>a call through a NULL or out of range function pointer\<close>
  | BadConversion   \<comment> \<open>a floating value outside the range of its integer target\<close>
  | SelfDeadlock    \<comment> \<open>a thread locks a non-recursive mutex it already holds\<close>

type_synonym 'a res = "c_error + 'a"

text \<open>The status a process ends with, and the number of the interrupt signal.\<close>

datatype exit_code = EXIT_SUCCESS | EXIT_FAILURE

definition SIGINT :: int where
  "SIGINT = 2"

named_theorems res_simps "evaluation of fallible operations"
named_theorems bytes_simps "byte level encoding facts"

definition bindE :: "'a res \<Rightarrow> ('a \<Rightarrow> 'b res) \<Rightarrow> 'b res" where
  "bindE m f = (case m of Inl e \<Rightarrow> Inl e | Inr x \<Rightarrow> f x)"

lemma bindE_Inl [simp, res_simps]: "bindE (Inl e) f = Inl e"
  by (simp add: bindE_def)

lemma bindE_Inr [simp, res_simps]: "bindE (Inr x) f = f x"
  by (simp add: bindE_def)

lemma bindE_eq_Inr: "bindE m f = Inr y \<longleftrightarrow> (\<exists>x. m = Inr x \<and> f x = Inr y)"
  by (cases m) auto

lemma bindE_eq_Inl: "bindE m f = Inl e \<longleftrightarrow> m = Inl e \<or> (\<exists>x. m = Inr x \<and> f x = Inl e)"
  by (cases m) auto

lemma bindE_assoc: "bindE (bindE m f) g = bindE m (\<lambda>x. bindE (f x) g)"
  by (cases m) auto

lemma bindE_cong [fundef_cong]:
  "m = m' \<Longrightarrow> (\<And>x. m' = Inr x \<Longrightarrow> f x = f' x) \<Longrightarrow> bindE m f = bindE m' f'"
  by (cases m') auto

text \<open>\<open>guardE\<close> turns the condition under which an access is legal into a fault otherwise.\<close>

definition guardE :: "bool \<Rightarrow> c_error \<Rightarrow> unit res" where
  "guardE b e = (if b then Inr () else Inl e)"

lemma guardE_True [simp, res_simps]: "guardE True e = Inr ()"
  by (simp add: guardE_def)

lemma guardE_False [simp, res_simps]: "guardE False e = Inl e"
  by (simp add: guardE_def)

lemma guardE_eq_Inr: "guardE b e = Inr x \<longleftrightarrow> b"
  by (cases b) auto

lemma guardE_eq_Inl: "guardE b e = Inl e' \<longleftrightarrow> \<not> b \<and> e' = e"
  by (cases b) auto

lemmas bindE_iffs = bindE_eq_Inr bindE_eq_Inl guardE_eq_Inr guardE_eq_Inl

text \<open>The loop of \<open>list_iterate\<close>: run the closure on every element, stop at the first fault.\<close>

fun iterE :: "('a \<Rightarrow> 's \<Rightarrow> 's res) \<Rightarrow> 'a list \<Rightarrow> 's \<Rightarrow> 's res" where
  "iterE f [] s = Inr s"
| "iterE f (x # xs) s = bindE (f x s) (iterE f xs)"

lemma iterE_append: "iterE f (xs @ ys) s = bindE (iterE f xs s) (iterE f ys)"
  by (induction xs arbitrary: s) (auto simp: bindE_def split: sum.splits)

lemma iterE_invariant:
  assumes "\<And>x s s'. x \<in> set xs \<Longrightarrow> I s \<Longrightarrow> f x s = Inr s' \<Longrightarrow> I s'"
    and "I s" and "iterE f xs s = Inr s'"
  shows "I s'"
  using assms by (induction xs arbitrary: s) (auto simp: bindE_eq_Inr)

definition list_get :: "'a list \<Rightarrow> int \<Rightarrow> 'a res" where
  "list_get xs i = (if 0 \<le> i \<and> i < int (length xs) then Inr (xs ! nat i) else Inl NullDeref)"

lemma list_get_nat [simp, res_simps]: "i < length xs \<Longrightarrow> list_get xs (int i) = Inr (xs ! i)"
  by (simp add: list_get_def)

lemma list_get_out [res_simps]: "length xs \<le> i \<Longrightarrow> list_get xs (int i) = Inl NullDeref"
  by (simp add: list_get_def)

lemma list_get_eq_Inr: "list_get xs i = Inr x \<longleftrightarrow> 0 \<le> i \<and> i < int (length xs) \<and> x = xs ! nat i"
  by (auto simp: list_get_def)

text \<open>
  \<open>put_at\<close> writes a block into a buffer at a position (the effect of a \<open>memcpy\<close> that stays in
  bounds), \<open>segment\<close> reads one.
\<close>

definition put_at :: "nat \<Rightarrow> 'a list \<Rightarrow> 'a list \<Rightarrow> 'a list" where
  "put_at i src dst = take i dst @ src @ drop (i + length src) dst"

definition segment :: "nat \<Rightarrow> nat \<Rightarrow> 'a list \<Rightarrow> 'a list" where
  "segment i n xs = take n (drop i xs)"

lemma length_put_at [simp]: "i + length src \<le> length dst \<Longrightarrow> length (put_at i src dst) = length dst"
  by (simp add: put_at_def)

lemma take_put_at [simp]:
  "i + length src \<le> length dst \<Longrightarrow> take (i + length src) (put_at i src dst) = take i dst @ src"
  by (simp add: put_at_def)

lemma segment_put_at [simp]:
  "i + length src \<le> length dst \<Longrightarrow> segment i (length src) (put_at i src dst) = src"
  by (simp add: put_at_def segment_def)

lemma segment_put_at_before:
  "i + length src \<le> length dst \<Longrightarrow> j + n \<le> i \<Longrightarrow> segment j n (put_at i src dst) = segment j n dst"
  by (simp add: put_at_def segment_def take_drop min_def)

lemma segment_put_at_after:
  assumes "i + length src \<le> length dst" and "i + length src \<le> j"
  shows "segment j n (put_at i src dst) = segment j n dst"
proof -
  have "drop j (take i dst @ src @ drop (i + length src) dst) = drop j dst"
    using assms by (simp add: min_def)
  then show ?thesis by (simp add: put_at_def segment_def)
qed

lemmas segment_put_at_other = segment_put_at_before segment_put_at_after

lemma length_segment [simp]: "i + n \<le> length xs \<Longrightarrow> length (segment i n xs) = n"
  by (simp add: segment_def)

lemma bounded_unat_add: "unat (a :: u32) + n < 2 ^ 32 \<Longrightarrow> unat (a + of_nat n) = unat a + n"
  by (simp add: unat_word_ariths unat_of_nat mod_add_right_eq)

lemma sint_of_nat: "n < 2 ^ 31 \<Longrightarrow> sint (of_nat n :: u32) = int n"
proof -
  assume "n < 2 ^ 31"
  then have "sint (of_int (int n) :: u32) = int n"
    by (simp add: int_word_sint del: of_int_of_nat_eq)
  then show ?thesis by simp
qed

text \<open>Moving one thread changes a sum over all threads by that thread's weights only.\<close>

lemma sum_fun_upd:
  fixes w :: "'a \<Rightarrow> int" and n t :: nat
  assumes "t < n"
  shows "(\<Sum>i<n. w (if i = t then p else f i)) = (\<Sum>i<n. w (f i)) - w (f t) + w p"
proof -
  have "(\<Sum>i<n. w (if i = t then p else f i))
      = w p + (\<Sum>i\<in>{..<n} - {t}. w (if i = t then p else f i))"
    using assms by (subst sum.remove [of _ t]) auto
  also have "(\<Sum>i\<in>{..<n} - {t}. w (if i = t then p else f i)) = (\<Sum>i\<in>{..<n} - {t}. w (f i))"
    by (rule sum.cong) auto
  also have "(\<Sum>i\<in>{..<n} - {t}. w (f i)) = (\<Sum>i<n. w (f i)) - w (f t)"
    using assms by (subst (2) sum.remove [of _ t]) auto
  finally show ?thesis by simp
qed

end
