(* ===== verification/Serialization.thy ===== *)
theory Serialization
  imports Prelude
begin

text \<open>
  \<^verbatim>\<open>shared/src/serialization.c\<close>: the growing byte buffer every packet payload is, and the
  primitive readers and writers (\<open>uint32_t\<close>, C string, list of elements).

  \<^item> A buffer (\<open>t_stream_buffer\<close>) is a record of the source's three fields; the bytes are
    \<open>u8 option\<close>, \<open>None\<close> for the indeterminate bytes \<open>malloc\<close> and \<open>realloc\<close> leave. Reading one
    is the fault \<open>UninitRead\<close>, reading past the buffer \<open>OutOfBounds\<close>.
  \<^item> \<open>size_t\<close> sizes are naturals (no sum of a 32-bit offset and an object's size wraps in 64
    bits); \<open>offset\<close> is the \<open>uint32_t\<close> of the source and wraps.
  \<^item> \<open>uint32_t\<close> values lie in memory in the byte order of the platform, little-endian.
  \<^item> The laws: a writer appends its encoding to what the buffer holds (\<open>holds\<close>), a reader given
    that encoding ahead of the read position (\<open>ahead\<close>) returns the value and moves past it. The
    locale \<open>codec\<close> is this contract; the list writer and reader are proved in it once.
\<close>

record t_stream_buffer =
  offset :: u32
  malloc_size :: nat
  stream :: "u8 option list"

definition INITIAL_STREAM_SIZE :: nat where
  "INITIAL_STREAM_SIZE = 64"

definition create_stream :: "nat \<Rightarrow> t_stream_buffer" where
  "create_stream sz = \<lparr>offset = 0, malloc_size = sz, stream = replicate sz None\<rparr>"

section \<open>Writing\<close>

definition realloc :: "u8 option list \<Rightarrow> nat \<Rightarrow> u8 option list" where
  "realloc bs n = take n bs @ replicate (n - length bs) None"

text \<open>The loop at the start of \<open>stream_add\<close>: grow until \<open>need\<close> bytes fit.\<close>

function stream_grow :: "nat \<Rightarrow> t_stream_buffer \<Rightarrow> t_stream_buffer" where
  "stream_grow need st =
     (if malloc_size st < need
      then let n = malloc_size st + INITIAL_STREAM_SIZE
           in stream_grow need (st\<lparr>malloc_size := n, stream := realloc (stream st) n\<rparr>)
      else st)"
  by pat_completeness auto
termination
  by (relation "measure (\<lambda>(need, st). need - malloc_size st)")
    (auto simp: INITIAL_STREAM_SIZE_def)

declare stream_grow.simps [simp del]

definition stream_add :: "t_stream_buffer \<Rightarrow> u8 list \<Rightarrow> t_stream_buffer" where
  "stream_add st source =
     (let st' = stream_grow (unat (offset st) + length source) st
      in st'\<lparr>stream := put_at (unat (offset st)) (map Some source) (stream st'),
             offset := offset st + of_nat (length source)\<rparr>)"

definition u32_bytes :: "u32 \<Rightarrow> u8 list" where
  "u32_bytes w = map (\<lambda>i. ucast (drop_bit (8 * i) w)) [0..<4]"

definition bytes_u32 :: "u8 list \<Rightarrow> u32" where
  "bytes_u32 bs = foldr (\<lambda>b w. or (ucast b) (push_bit 8 w)) bs 0"

definition stream_add_UINT32P :: "t_stream_buffer \<Rightarrow> u32 \<Rightarrow> t_stream_buffer" where
  "stream_add_UINT32P st value = stream_add st (u32_bytes value)"

definition stream_add_UINT32 :: "t_stream_buffer \<Rightarrow> u32 \<Rightarrow> t_stream_buffer" where
  "stream_add_UINT32 st value = stream_add_UINT32P st value"

text \<open>A C string is its characters before the terminator; in memory a NUL byte follows.\<close>

definition byte_of_char :: "char \<Rightarrow> u8" where
  "byte_of_char c = word_of_nat (of_char c)"

definition char_of_byte :: "u8 \<Rightarrow> char" where
  "char_of_byte b = char_of (unat b)"

definition c_string :: "string \<Rightarrow> bool" where
  "c_string s \<longleftrightarrow> CHR 0x00 \<notin> set s"

definition string_bytes :: "string \<Rightarrow> u8 list" where
  "string_bytes s = map byte_of_char s @ [0]"

definition stream_add_STRINGP :: "t_stream_buffer \<Rightarrow> string \<Rightarrow> t_stream_buffer" where
  "stream_add_STRINGP st source =
     (let sz = of_nat (length source) + 1
      in stream_add (stream_add_UINT32 st sz) (take (unat (sz :: u32)) (string_bytes source)))"

definition stream_add_STRING :: "t_stream_buffer \<Rightarrow> string \<Rightarrow> t_stream_buffer" where
  "stream_add_STRING st source = stream_add_STRINGP st source"

definition stream_add_LIST ::
  "(t_stream_buffer \<Rightarrow> 'a \<Rightarrow> t_stream_buffer) \<Rightarrow> t_stream_buffer \<Rightarrow> 'a list \<Rightarrow> t_stream_buffer" where
  "stream_add_LIST stream_add_ELEMP st source =
     fold (\<lambda>elem st. stream_add_ELEMP st elem) source
       (stream_add_UINT32 st (of_nat (length source)))"

section \<open>Reading\<close>

definition stream_take :: "t_stream_buffer \<Rightarrow> nat \<Rightarrow> (u8 list \<times> t_stream_buffer) res" where
  "stream_take st sz =
     bindE (guardE (unat (offset st) + sz \<le> length (stream st)) OutOfBounds) (\<lambda>_.
       let bs = segment (unat (offset st)) sz (stream st)
       in bindE (guardE (None \<notin> set bs) UninitRead) (\<lambda>_.
            Inr (map the bs, st\<lparr>offset := offset st + of_nat sz\<rparr>)))"

definition stream_take_UINT32P :: "t_stream_buffer \<Rightarrow> (u32 \<times> t_stream_buffer) res" where
  "stream_take_UINT32P st = bindE (stream_take st 4) (\<lambda>(bs, st'). Inr (bytes_u32 bs, st'))"

definition stream_take_UINT32 :: "t_stream_buffer \<Rightarrow> (u32 \<times> t_stream_buffer) res" where
  "stream_take_UINT32 st = stream_take_UINT32P st"

text \<open>\<open>stream_take_STRINGP\<close> copies a block; \<open>strlen\<close> on the block needs a NUL inside it.\<close>

definition stream_take_STRINGP :: "t_stream_buffer \<Rightarrow> (u8 list \<times> t_stream_buffer) res" where
  "stream_take_STRINGP st =
     bindE (stream_take_UINT32 st) (\<lambda>(sz, st'). stream_take st' (unat sz))"

definition read_c_string :: "u8 list \<Rightarrow> string res" where
  "read_c_string bs =
     bindE (guardE (0 \<in> set bs) OutOfBounds)
       (\<lambda>_. Inr (map char_of_byte (takeWhile (\<lambda>b. b \<noteq> 0) bs)))"

definition stream_take_STRING :: "t_stream_buffer \<Rightarrow> (u8 list \<times> t_stream_buffer) res" where
  "stream_take_STRING st = stream_take_STRINGP st"

fun stream_take_loop ::
  "(t_stream_buffer \<Rightarrow> ('a \<times> t_stream_buffer) res) \<Rightarrow> nat \<Rightarrow> 'a list \<Rightarrow> t_stream_buffer
     \<Rightarrow> ('a list \<times> t_stream_buffer) res" where
  "stream_take_loop take_ELEMP 0 acc st = Inr (acc, st)"
| "stream_take_loop take_ELEMP (Suc n) acc st =
     bindE (take_ELEMP st) (\<lambda>(elem, st'). stream_take_loop take_ELEMP n (acc @ [elem]) st')"

text \<open>\<open>source\<close> is the list the caller passed, or the fresh one made when it passed NULL.\<close>

definition stream_take_LISTP ::
  "(t_stream_buffer \<Rightarrow> ('a \<times> t_stream_buffer) res) \<Rightarrow> 'a list option \<Rightarrow> t_stream_buffer
     \<Rightarrow> ('a list \<times> t_stream_buffer) res" where
  "stream_take_LISTP take_ELEMP source st =
     bindE (stream_take_UINT32 st) (\<lambda>(sz, st').
       stream_take_loop take_ELEMP (unat sz)
         (case source of None \<Rightarrow> [] | Some l \<Rightarrow> l) st')"

definition stream_take_LIST ::
  "(t_stream_buffer \<Rightarrow> ('a \<times> t_stream_buffer) res) \<Rightarrow> t_stream_buffer
     \<Rightarrow> ('a list \<times> t_stream_buffer) res" where
  "stream_take_LIST take_ELEMP st = stream_take_LISTP take_ELEMP None st"

section \<open>Encoding facts\<close>

lemma length_u32_bytes [simp, bytes_simps]: "length (u32_bytes w) = 4"
  by (simp add: u32_bytes_def)

lemma bit_bytes_u32_4:
  "bit (bytes_u32 [a, b, c, d]) n \<longleftrightarrow>
     bit a n \<or> 8 \<le> n \<and> n < 32 \<and> bit b (n - 8) \<or> 16 \<le> n \<and> n < 32 \<and> bit c (n - 16)
       \<or> 24 \<le> n \<and> n < 32 \<and> bit d (n - 24)"
  by (auto simp: bytes_u32_def bit_simps dest: bit_imp_le_length)

lemma u32_bytes_4:
  "u32_bytes w = [ucast w, ucast (drop_bit 8 w), ucast (drop_bit 16 w), ucast (drop_bit 24 w)]"
  by (simp add: u32_bytes_def upt_rec)

lemma bytes_u32_bytes [simp, bytes_simps]: "bytes_u32 (u32_bytes w) = w"
proof (rule bit_word_eqI)
  fix n assume "n < LENGTH(32)"
  then have "n < 8 \<or> 8 \<le> n \<and> n < 16 \<or> 16 \<le> n \<and> n < 24 \<or> 24 \<le> n \<and> n < 32" by auto
  then show "bit (bytes_u32 (u32_bytes w)) n \<longleftrightarrow> bit w n"
    by (elim disjE) (auto simp: u32_bytes_4 bit_bytes_u32_4 bit_simps)
qed

lemma char_of_byte_of_char [simp, bytes_simps]: "char_of_byte (byte_of_char c) = c"
  by (simp add: char_of_byte_def byte_of_char_def unat_of_nat)

lemma byte_of_char_eq_0 [simp, bytes_simps]: "byte_of_char c = 0 \<longleftrightarrow> c = CHR 0x00"
proof
  assume b: "byte_of_char c = 0"
  have "c = char_of_byte (byte_of_char c)" by simp
  also have "\<dots> = CHR 0x00" by (simp only: b) (simp add: char_of_byte_def char_of_def)
  finally show "c = CHR 0x00" .
qed (simp add: byte_of_char_def of_char_def)

lemma length_string_bytes [simp, bytes_simps]: "length (string_bytes s) = Suc (length s)"
  by (simp add: string_bytes_def)

lemma read_string_bytes [simp, bytes_simps]:
  assumes "c_string s" shows "read_c_string (string_bytes s) = Inr s"
proof -
  have "takeWhile (\<lambda>b. b \<noteq> 0) (map byte_of_char s @ [0]) = map byte_of_char s"
    using assms by (induction s) (auto simp: c_string_def)
  then show ?thesis by (simp add: read_c_string_def string_bytes_def comp_def)
qed

section \<open>What a buffer holds and what lies ahead\<close>

definition wf_stream :: "t_stream_buffer \<Rightarrow> bool" where
  "wf_stream st \<longleftrightarrow> length (stream st) = malloc_size st"

definition holds :: "t_stream_buffer \<Rightarrow> u8 list \<Rightarrow> bool" where
  "holds st bs \<longleftrightarrow> wf_stream st \<and> unat (offset st) = length bs
     \<and> length bs \<le> length (stream st) \<and> take (length bs) (stream st) = map Some bs"

definition ahead :: "t_stream_buffer \<Rightarrow> u8 list \<Rightarrow> bool" where
  "ahead st bs \<longleftrightarrow> unat (offset st) + length bs < 2 ^ 32
     \<and> unat (offset st) + length bs \<le> length (stream st)
     \<and> segment (unat (offset st)) (length bs) (stream st) = map Some bs"

definition advance :: "nat \<Rightarrow> t_stream_buffer \<Rightarrow> t_stream_buffer" where
  "advance n st = st\<lparr>offset := offset st + of_nat n\<rparr>"

lemma advance_0 [simp]: "advance 0 st = st"
  by (simp add: advance_def)

lemma advance_advance [simp]: "advance n (advance m st) = advance (m + n) st"
  by (simp add: advance_def)

lemma stream_advance [simp]: "stream (advance n st) = stream st"
  by (simp add: advance_def)

lemma holds_create [simp]: "holds (create_stream n) []"
  by (simp add: holds_def create_stream_def wf_stream_def)

lemma ahead_advance:
  assumes "ahead st (bs @ rest)" shows "ahead (advance (length bs) st) rest"
proof -
  let ?o = "unat (offset st)"
  have o: "unat (offset st + of_nat (length bs)) = ?o + length bs"
    using assms by (intro bounded_unat_add) (simp add: ahead_def)
  have "drop (length bs) (segment ?o (length bs + length rest) (stream st)) = map Some rest"
    using assms by (simp add: ahead_def)
  then have "segment (?o + length bs) (length rest) (stream st) = map Some rest"
    by (simp add: segment_def drop_take add.commute)
  with assms o show ?thesis by (simp add: ahead_def advance_def)
qed

section \<open>The loop of \<open>stream_add\<close>\<close>

lemma stream_grow_offset [simp]: "offset (stream_grow need st) = offset st"
  by (induction need st rule: stream_grow.induct)
    (subst stream_grow.simps, simp add: Let_def)

lemma stream_grow_size:
  "need \<le> malloc_size (stream_grow need st) \<and> malloc_size st \<le> malloc_size (stream_grow need st)"
proof (induction need st rule: stream_grow.induct)
  case (1 need st)
  then show ?case by (subst (1 2) stream_grow.simps) (auto simp: Let_def)
qed

text \<open>The loop stops as soon as the bytes fit: at most one step more than needed.\<close>

lemma stream_grow_tight:
  "malloc_size (stream_grow need st) < max (malloc_size st + 1) (need + INITIAL_STREAM_SIZE)"
proof (induction need st rule: stream_grow.induct)
  case (1 need st)
  then show ?case
    by (subst stream_grow.simps) (auto simp: Let_def INITIAL_STREAM_SIZE_def split: if_splits)
qed

lemma stream_grow_wf: "wf_stream st \<Longrightarrow> wf_stream (stream_grow need st)"
proof (induction need st rule: stream_grow.induct)
  case (1 need st)
  then show ?case by (subst stream_grow.simps) (auto simp: Let_def wf_stream_def realloc_def)
qed

lemma stream_grow_take:
  "wf_stream st \<Longrightarrow> n \<le> malloc_size st \<Longrightarrow> take n (stream (stream_grow need st)) = take n (stream st)"
proof (induction need st rule: stream_grow.induct)
  case (1 need st)
  then show ?case
    by (subst stream_grow.simps)
      (auto simp: Let_def wf_stream_def realloc_def INITIAL_STREAM_SIZE_def min_def)
qed

lemma stream_add_holds:
  assumes h: "holds st bs" and len: "length bs + length src < 2 ^ 32"
  shows "holds (stream_add st src) (bs @ src)"
proof -
  let ?g = "stream_grow (length bs + length src) st"
  have o: "unat (offset st) = length bs" and wf: "wf_stream st"
    and fits: "length bs \<le> malloc_size st" and tk: "take (length bs) (stream st) = map Some bs"
    using h by (auto simp: holds_def wf_stream_def)
  have wfg: "length (stream ?g) = malloc_size ?g"
    using stream_grow_wf [OF wf] by (simp add: wf_stream_def)
  then have room: "length bs + length src \<le> length (stream ?g)"
    by (simp add: stream_grow_size)
  have "take (length bs) (stream ?g) = map Some bs"
    using stream_grow_take [OF wf fits] tk by simp
  moreover have "unat (offset st + of_nat (length src)) = length bs + length src"
    using len o by (simp add: bounded_unat_add)
  moreover have "take (length bs + length (map Some src)) (put_at (length bs) (map Some src) (stream ?g))
      = take (length bs) (stream ?g) @ map Some src"
    using room by (intro take_put_at) simp
  ultimately show ?thesis
    using room wfg by (simp add: stream_add_def holds_def wf_stream_def Let_def o)
qed

lemma stream_take_ahead:
  assumes "ahead st (bs @ rest)" and "n = length bs"
  shows "stream_take st n = Inr (bs, advance n st)"
proof -
  let ?o = "unat (offset st)"
  have b: "?o + length bs \<le> length (stream st)"
    and s: "segment ?o (length bs + length rest) (stream st) = map Some (bs @ rest)"
    using assms by (auto simp: ahead_def)
  from s have "take (length bs) (segment ?o (length bs + length rest) (stream st)) = map Some bs"
    by simp
  then have "segment ?o (length bs) (stream st) = map Some bs"
    by (simp add: segment_def min_def)
  with b assms(2) show ?thesis by (auto simp: stream_take_def advance_def comp_def)
qed

section \<open>The contract of a writer and its reader\<close>

text \<open>
  \<open>put\<close> appends the encoding of a value, \<open>get\<close> reads a value back from its encoding. The list
  functions of the source take an element writer or reader as a function pointer and rely on
  this contract only.
\<close>

definition enc_LIST :: "('a \<Rightarrow> u8 list) \<Rightarrow> 'a list \<Rightarrow> u8 list" where
  "enc_LIST enc xs = u32_bytes (of_nat (length xs)) @ concat (map enc xs)"

locale codec =
  fixes put :: "t_stream_buffer \<Rightarrow> 'a \<Rightarrow> t_stream_buffer"
    and get :: "t_stream_buffer \<Rightarrow> ('a \<times> t_stream_buffer) res"
    and enc :: "'a \<Rightarrow> u8 list"
    and valid :: "'a \<Rightarrow> bool"
  assumes put_holds:
      "valid x \<Longrightarrow> holds st bs \<Longrightarrow> length bs + length (enc x) < 2 ^ 32 \<Longrightarrow> holds (put st x) (bs @ enc x)"
    and get_ahead:
      "valid x \<Longrightarrow> ahead st (enc x @ rest) \<Longrightarrow> get st = Inr (x, advance (length (enc x)) st)"
begin

lemma fold_put_holds:
  assumes "list_all valid xs" and "holds st bs"
    and "length bs + length (concat (map enc xs)) < 2 ^ 32"
  shows "holds (fold (\<lambda>x st. put st x) xs st) (bs @ concat (map enc xs))"
  using assms
proof (induction xs arbitrary: st bs)
  case (Cons x xs)
  then have "holds (put st x) (bs @ enc x)" by (intro put_holds) auto
  with Cons.prems show ?case using Cons.IH [of "put st x" "bs @ enc x"] by simp
qed simp

lemma take_loop_ahead:
  assumes "list_all valid xs" and "ahead st (concat (map enc xs) @ rest)"
  shows "stream_take_loop get (length xs) acc st
    = Inr (acc @ xs, advance (length (concat (map enc xs))) st)"
  using assms
proof (induction xs arbitrary: st acc)
  case (Cons x xs)
  let ?r = "concat (map enc xs) @ rest"
  have a: "ahead st (enc x @ ?r)" using Cons.prems by simp
  then have "get st = Inr (x, advance (length (enc x)) st)"
    using Cons.prems by (intro get_ahead) auto
  moreover have "ahead (advance (length (enc x)) st) ?r" using a by (rule ahead_advance)
  ultimately show ?case using Cons.prems(1) by (simp add: Cons.IH)
qed simp

end

lemma u32_put_holds:
  "holds st bs \<Longrightarrow> length bs + 4 < 2 ^ 32 \<Longrightarrow> holds (stream_add_UINT32P st w) (bs @ u32_bytes w)"
  unfolding stream_add_UINT32P_def by (rule stream_add_holds) auto

lemma u32_get_ahead:
  "ahead st (u32_bytes w @ rest) \<Longrightarrow> stream_take_UINT32P st = Inr (w, advance 4 st)"
  by (simp add: stream_take_UINT32P_def stream_take_ahead)

interpretation u32: codec stream_add_UINT32P stream_take_UINT32P u32_bytes "\<lambda>_. True"
  by unfold_locales (auto intro: u32_put_holds u32_get_ahead)

lemma string_put_holds:
  assumes "holds st bs" and "length bs + (5 + length s) < 2 ^ 32"
  shows "holds (stream_add_STRING st s)
    (bs @ u32_bytes (of_nat (Suc (length s))) @ string_bytes s)"
proof -
  let ?n = "of_nat (length s) + 1 :: u32"
  have n: "unat ?n = Suc (length s)"
    using assms(2) by (simp add: unat_word_ariths unat_of_nat)
  have "holds (stream_add_UINT32 st ?n) (bs @ u32_bytes ?n)"
    unfolding stream_add_UINT32_def using assms by (intro u32_put_holds) auto
  then have "holds (stream_add (stream_add_UINT32 st ?n) (string_bytes s))
      ((bs @ u32_bytes ?n) @ string_bytes s)"
    using assms(2) by (intro stream_add_holds) auto
  then show ?thesis using n
    by (simp add: stream_add_STRING_def stream_add_STRINGP_def Let_def add.commute)
qed

lemma string_get_ahead:
  assumes "Suc (length s) < 2 ^ 32"
    and a: "ahead st (u32_bytes (of_nat (Suc (length s))) @ string_bytes s @ rest)"
  shows "stream_take_STRING st = Inr (string_bytes s, advance (5 + length s) st)"
proof -
  let ?n = "of_nat (Suc (length s)) :: u32"
  have n: "unat ?n = Suc (length s)" using assms(1) by (simp add: unat_of_nat del: of_nat_Suc)
  have "stream_take_UINT32 st = Inr (?n, advance 4 st)"
    unfolding stream_take_UINT32_def using a by (rule u32_get_ahead)
  moreover have "stream_take (advance 4 st) (Suc (length s))
      = Inr (string_bytes s, advance (Suc (length s)) (advance 4 st))"
    using ahead_advance [OF a] by (intro stream_take_ahead) auto
  ultimately show ?thesis
    by (simp add: stream_take_STRING_def stream_take_STRINGP_def n del: of_nat_Suc)
qed

context codec
begin

lemma put_LIST_holds:
  assumes "list_all valid xs" and "holds st bs" and "length bs + length (enc_LIST enc xs) < 2 ^ 32"
  shows "holds (stream_add_LIST put st xs) (bs @ enc_LIST enc xs)"
proof -
  have "holds (stream_add_UINT32 st (of_nat (length xs))) (bs @ u32_bytes (of_nat (length xs)))"
    unfolding stream_add_UINT32_def using assms by (intro u32_put_holds) (auto simp: enc_LIST_def)
  then have "holds (stream_add_LIST put st xs)
      ((bs @ u32_bytes (of_nat (length xs))) @ concat (map enc xs))"
    unfolding stream_add_LIST_def using assms by (intro fold_put_holds) (auto simp: enc_LIST_def)
  then show ?thesis by (simp add: enc_LIST_def)
qed

lemma get_LIST_ahead:
  assumes "list_all valid xs" and "length xs < 2 ^ 32" and a: "ahead st (enc_LIST enc xs @ rest)"
  shows "stream_take_LIST get st = Inr (xs, advance (length (enc_LIST enc xs)) st)"
proof -
  have n: "unat (of_nat (length xs) :: u32) = length xs" using assms(2) by (simp add: unat_of_nat)
  have a': "ahead st (u32_bytes (of_nat (length xs)) @ concat (map enc xs) @ rest)"
    using a by (simp add: enc_LIST_def)
  then have "stream_take_UINT32 st = Inr (of_nat (length xs), advance 4 st)"
    unfolding stream_take_UINT32_def by (rule u32_get_ahead)
  moreover have "ahead (advance 4 st) (concat (map enc xs) @ rest)"
    using ahead_advance [OF a'] by simp
  ultimately show ?thesis using assms(1)
    by (simp add: stream_take_LIST_def stream_take_LISTP_def n enc_LIST_def take_loop_ahead)
qed

end

end
