(* ===== verification/Process_Utils.thy ===== *)
theory Process_Utils
  imports Serialization
begin

text \<open>
  \<^verbatim>\<open>shared/src/process_utils.c\<close> and \<^verbatim>\<open>shared/src/pcb_utils.c\<close>: instructions, processes and
  process control blocks, and their form inside a packet payload.

  \<^item> An instruction is its identifier and its parameters, a process its size and its
    instructions, a pcb the record of \<^verbatim>\<open>pcb_utils.h\<close>, field by field.
  \<^item> The readers of the source fill an object the caller made; as every field is overwritten, the
    model returns the object. \<open>stream_take_instruction\<close> is modelled as its callers use it, with
    a NULL element that it allocates.
  \<^item> Instructions are a \<open>codec\<close> built from the string and \<open>u32\<close> list codecs; the process and
    pcb round trips rest on its list lemmas.
\<close>

record t_instruction =
  ins_id :: string
  params :: "u32 list"

record t_process =
  proc_size :: u32
  proc_instructions :: "t_instruction list"

record t_pcb =
  pid :: u32
  pcb_size :: u32
  client_socket :: u32
  instructions :: "t_instruction list"
  program_counter :: u32
  page_table :: u32
  process_frames_index :: u32
  burst_estimation :: u32
  blocked_time :: u32
  pending_io_time :: u32
  left_burst_estimation :: u32

text \<open>\<open>create_pcb\<close>: \<open>malloc\<close> leaves the fields indeterminate, \<open>junk\<close>, but for the empty list.\<close>

definition create_pcb :: "t_pcb \<Rightarrow> t_pcb" where
  "create_pcb junk = junk\<lparr>instructions := []\<rparr>"

section \<open>Writers and readers\<close>

definition stream_add_instruction :: "t_stream_buffer \<Rightarrow> t_instruction \<Rightarrow> t_stream_buffer" where
  "stream_add_instruction st instruction =
     stream_add_LIST stream_add_UINT32P
       (stream_add_STRING st (ins_id instruction)) (params instruction)"

definition stream_take_instruction :: "t_stream_buffer \<Rightarrow> (t_instruction \<times> t_stream_buffer) res" where
  "stream_take_instruction st =
     bindE (stream_take_STRING st) (\<lambda>(raw, st1).
     bindE (read_c_string raw) (\<lambda>name.
     bindE (stream_take_LIST stream_take_UINT32P st1) (\<lambda>(ps, st2).
       Inr (\<lparr>ins_id = name, params = ps\<rparr>, st2))))"

definition stream_add_process :: "t_stream_buffer \<Rightarrow> t_process \<Rightarrow> t_stream_buffer" where
  "stream_add_process st process =
     stream_add_LIST stream_add_instruction
       (stream_add_UINT32 st (proc_size process)) (proc_instructions process)"

definition stream_take_process :: "t_stream_buffer \<Rightarrow> (t_process \<times> t_stream_buffer) res" where
  "stream_take_process st =
     bindE (stream_take_UINT32P st) (\<lambda>(sz, st1).
     bindE (stream_take_LIST stream_take_instruction st1) (\<lambda>(is, st2).
       Inr (\<lparr>proc_size = sz, proc_instructions = is\<rparr>, st2)))"

definition stream_add_pcb :: "t_stream_buffer \<Rightarrow> t_pcb \<Rightarrow> t_stream_buffer" where
  "stream_add_pcb st pcb =
    (let st = stream_add_UINT32 st (pid pcb);
         st = stream_add_UINT32 st (pcb_size pcb);
         st = stream_add_UINT32 st (client_socket pcb);
         st = stream_add_LIST stream_add_instruction st (instructions pcb);
         st = stream_add_UINT32 st (program_counter pcb);
         st = stream_add_UINT32 st (page_table pcb);
         st = stream_add_UINT32 st (process_frames_index pcb);
         st = stream_add_UINT32 st (burst_estimation pcb);
         st = stream_add_UINT32 st (left_burst_estimation pcb);
         st = stream_add_UINT32 st (blocked_time pcb);
         st = stream_add_UINT32 st (pending_io_time pcb)
     in st)"

definition stream_take_pcb :: "t_stream_buffer \<Rightarrow> (t_pcb \<times> t_stream_buffer) res" where
  "stream_take_pcb st =
     bindE (stream_take_UINT32P st) (\<lambda>(p, st).
     bindE (stream_take_UINT32P st) (\<lambda>(sz, st).
     bindE (stream_take_UINT32P st) (\<lambda>(sock, st).
     bindE (stream_take_LIST stream_take_instruction st) (\<lambda>(is, st).
     bindE (stream_take_UINT32P st) (\<lambda>(pc, st).
     bindE (stream_take_UINT32P st) (\<lambda>(pt, st).
     bindE (stream_take_UINT32P st) (\<lambda>(fi, st).
     bindE (stream_take_UINT32P st) (\<lambda>(be, st).
     bindE (stream_take_UINT32P st) (\<lambda>(lbe, st).
     bindE (stream_take_UINT32P st) (\<lambda>(bt, st).
     bindE (stream_take_UINT32P st) (\<lambda>(io, st).
       Inr (\<lparr>pid = p, pcb_size = sz, client_socket = sock, instructions = is,
             program_counter = pc, page_table = pt, process_frames_index = fi,
             burst_estimation = be, blocked_time = bt, pending_io_time = io,
             left_burst_estimation = lbe\<rparr>, st))))))))))))"

section \<open>Instructions are a codec\<close>

definition wf_instruction :: "t_instruction \<Rightarrow> bool" where
  "wf_instruction i \<longleftrightarrow> c_string (ins_id i)"

definition instruction_bytes :: "t_instruction \<Rightarrow> u8 list" where
  "instruction_bytes i =
     u32_bytes (of_nat (Suc (length (ins_id i)))) @ string_bytes (ins_id i)
       @ enc_LIST u32_bytes (params i)"

lemma length_enc_LIST_u32 [simp]: "length (enc_LIST u32_bytes ws) = 4 + 4 * length ws"
  by (induction ws) (auto simp: enc_LIST_def)

lemma length_instruction_bytes [simp]:
  "length (instruction_bytes i) = 9 + length (ins_id i) + 4 * length (params i)"
  by (simp add: instruction_bytes_def)

lemma instruction_put_holds:
  assumes "holds st bs" and "length bs + length (instruction_bytes i) < 2 ^ 32"
  shows "holds (stream_add_instruction st i) (bs @ instruction_bytes i)"
proof -
  let ?s = "bs @ u32_bytes (of_nat (Suc (length (ins_id i)))) @ string_bytes (ins_id i)"
  have "holds (stream_add_STRING st (ins_id i)) ?s"
    using assms by (intro string_put_holds) auto
  then have "holds (stream_add_instruction st i) (?s @ enc_LIST u32_bytes (params i))"
    unfolding stream_add_instruction_def using assms
    by (intro u32.put_LIST_holds) (auto simp: list_all_iff)
  then show ?thesis by (simp add: instruction_bytes_def)
qed

lemma instruction_get_ahead:
  assumes wf: "wf_instruction i" and a: "ahead st (instruction_bytes i @ rest)"
  shows "stream_take_instruction st = Inr (i, advance (length (instruction_bytes i)) st)"
proof -
  let ?n = "length (ins_id i)"
  have len: "9 + ?n + 4 * length (params i) < 2 ^ 32" using a by (simp add: ahead_def)
  have a1: "ahead st ((u32_bytes (of_nat (Suc ?n)) @ string_bytes (ins_id i))
      @ enc_LIST u32_bytes (params i) @ rest)"
    using a by (simp add: instruction_bytes_def del: of_nat_Suc)
  have "stream_take_STRING st = Inr (string_bytes (ins_id i), advance (5 + ?n) st)"
    using a1 len by (intro string_get_ahead) auto
  moreover have "ahead (advance (5 + ?n) st) (enc_LIST u32_bytes (params i) @ rest)"
    using ahead_advance [OF a1] by (simp add: add.commute)
  then have "stream_take_LIST stream_take_UINT32P (advance (5 + ?n) st)
      = Inr (params i, advance (length (enc_LIST u32_bytes (params i))) (advance (5 + ?n) st))"
    using len by (intro u32.get_LIST_ahead) (auto simp: list_all_iff)
  ultimately show ?thesis using wf
    by (simp add: stream_take_instruction_def wf_instruction_def add_ac)
qed

interpretation instr: codec stream_add_instruction stream_take_instruction
    instruction_bytes wf_instruction
  by unfold_locales (auto intro: instruction_put_holds instruction_get_ahead
      simp del: length_instruction_bytes)

section \<open>Processes and pcbs\<close>

definition wf_process :: "t_process \<Rightarrow> bool" where
  "wf_process p \<longleftrightarrow> list_all wf_instruction (proc_instructions p)"

definition process_bytes :: "t_process \<Rightarrow> u8 list" where
  "process_bytes p = u32_bytes (proc_size p) @ enc_LIST instruction_bytes (proc_instructions p)"

definition wf_pcb :: "t_pcb \<Rightarrow> bool" where
  "wf_pcb pcb \<longleftrightarrow> list_all wf_instruction (instructions pcb)"

definition pcb_bytes :: "t_pcb \<Rightarrow> u8 list" where
  "pcb_bytes pcb = u32_bytes (pid pcb) @ u32_bytes (pcb_size pcb) @ u32_bytes (client_socket pcb)
     @ enc_LIST instruction_bytes (instructions pcb)
     @ u32_bytes (program_counter pcb) @ u32_bytes (page_table pcb)
     @ u32_bytes (process_frames_index pcb) @ u32_bytes (burst_estimation pcb)
     @ u32_bytes (left_burst_estimation pcb) @ u32_bytes (blocked_time pcb)
     @ u32_bytes (pending_io_time pcb)"

lemma length_le_enc_LIST_instr: "length xs \<le> length (enc_LIST instruction_bytes xs)"
  by (induction xs) (auto simp: enc_LIST_def)

lemma UINT32_put_holds:
  "holds st bs \<Longrightarrow> length bs + 4 < 2 ^ 32 \<Longrightarrow> holds (stream_add_UINT32 st w) (bs @ u32_bytes w)"
  by (simp add: stream_add_UINT32_def u32_put_holds)

lemma instr_list_get_ahead:
  assumes "list_all wf_instruction is" and "ahead st (enc_LIST instruction_bytes is @ rest)"
  shows "stream_take_LIST stream_take_instruction st
    = Inr (is, advance (length (enc_LIST instruction_bytes is)) st)"
  using assms length_le_enc_LIST_instr [of "is"]
  by (intro instr.get_LIST_ahead) (auto simp: ahead_def)

lemma process_put_holds:
  assumes "wf_process p" and "holds st bs" and "length bs + length (process_bytes p) < 2 ^ 32"
  shows "holds (stream_add_process st p) (bs @ process_bytes p)"
  unfolding stream_add_process_def process_bytes_def append_assoc [symmetric]
  using assms
  by (intro instr.put_LIST_holds UINT32_put_holds) (auto simp: wf_process_def process_bytes_def)

lemma process_get_ahead:
  assumes "wf_process p" and a: "ahead st (process_bytes p @ rest)"
  shows "stream_take_process st = Inr (p, advance (length (process_bytes p)) st)"
proof -
  have a': "ahead st (u32_bytes (proc_size p)
      @ enc_LIST instruction_bytes (proc_instructions p) @ rest)"
    using a by (simp add: process_bytes_def)
  have "stream_take_LIST stream_take_instruction (advance 4 st)
      = Inr (proc_instructions p,
          advance (length (enc_LIST instruction_bytes (proc_instructions p))) (advance 4 st))"
    using assms(1) ahead_advance [OF a']
    by (intro instr_list_get_ahead) (auto simp: wf_process_def)
  then show ?thesis
    using u32_get_ahead [OF a'] by (simp add: stream_take_process_def process_bytes_def)
qed

interpretation process: codec stream_add_process stream_take_process process_bytes wf_process
  by unfold_locales (auto intro: process_put_holds process_get_ahead)

lemma length_pcb_bytes:
  "length (pcb_bytes pcb) = 40 + length (enc_LIST instruction_bytes (instructions pcb))"
  by (simp add: pcb_bytes_def)

lemma pcb_put_holds:
  assumes "wf_pcb pcb" and "holds st bs" and "length bs + length (pcb_bytes pcb) < 2 ^ 32"
  shows "holds (stream_add_pcb st pcb) (bs @ pcb_bytes pcb)"
  unfolding stream_add_pcb_def pcb_bytes_def append_assoc [symmetric] Let_def
  using assms
  by (intro instr.put_LIST_holds UINT32_put_holds) (auto simp: wf_pcb_def length_pcb_bytes)

text \<open>Reading one \<open>u32\<close> off the front and moving on: the step of the pcb reader.\<close>

lemma u32_step:
  assumes "ahead st (u32_bytes w @ rest)"
  shows "stream_take_UINT32P st = Inr (w, advance 4 st) \<and> ahead (advance 4 st) rest"
  using u32_get_ahead [OF assms] ahead_advance [OF assms] by simp

lemma instr_list_step:
  assumes "list_all wf_instruction is" and "ahead st (enc_LIST instruction_bytes is @ rest)"
    and "n = length (enc_LIST instruction_bytes is)"
  shows "stream_take_LIST stream_take_instruction st = Inr (is, advance n st)
    \<and> ahead (advance n st) rest"
  using instr_list_get_ahead [OF assms(1,2)] ahead_advance [OF assms(2)] assms(3) by simp

lemma pcb_get_ahead:
  assumes wf: "wf_pcb pcb" and a: "ahead st (pcb_bytes pcb @ rest)"
  shows "stream_take_pcb st = Inr (pcb, advance (length (pcb_bytes pcb)) st)"
proof -
  let ?n = "length (enc_LIST instruction_bytes (instructions pcb))"
  have w: "list_all wf_instruction (instructions pcb)" using wf by (simp add: wf_pcb_def)
  note t1 = u32_step [OF a [unfolded pcb_bytes_def append_assoc]]
  note t2 = u32_step [OF t1 [THEN conjunct2]]
  note t3 = u32_step [OF t2 [THEN conjunct2]]
  note t4 = instr_list_step [OF w t3 [THEN conjunct2] refl]
  note t5 = u32_step [OF t4 [THEN conjunct2]]
  note t6 = u32_step [OF t5 [THEN conjunct2]]
  note t7 = u32_step [OF t6 [THEN conjunct2]]
  note t8 = u32_step [OF t7 [THEN conjunct2]]
  note t9 = u32_step [OF t8 [THEN conjunct2]]
  note t10 = u32_step [OF t9 [THEN conjunct2]]
  note t11 = u32_step [OF t10 [THEN conjunct2]]
  show ?thesis
    unfolding stream_take_pcb_def length_pcb_bytes
    by (simp only: t1 [THEN conjunct1] t2 [THEN conjunct1] t3 [THEN conjunct1]
        t4 [THEN conjunct1] t5 [THEN conjunct1] t6 [THEN conjunct1] t7 [THEN conjunct1]
        t8 [THEN conjunct1] t9 [THEN conjunct1] t10 [THEN conjunct1] t11 [THEN conjunct1]
        bindE_Inr prod.case) (simp add: add.commute)
qed

interpretation pcb: codec stream_add_pcb stream_take_pcb pcb_bytes wf_pcb
  by unfold_locales (auto intro: pcb_put_holds pcb_get_ahead)

end
