(* ===== verification/Networking.thy ===== *)
theory Networking
  imports Serialization "HOL-Library.Monad_Syntax"
begin

text \<open>
  \<^verbatim>\<open>shared/src/networking.c\<close>: packets and their transfer over a stream socket.

  \<^item> The operating system's side of a socket is explicit. What \<open>recv\<close> finds is a list of events
    (\<open>Data\<close> a block that arrived, \<open>Closed\<close> the peer shut down, \<open>Failed\<close> an error return); what
    \<open>send\<close> answers is a list of results. Blocks may cut the byte stream anywhere.
  \<^item> \<open>None\<close> is a call that has not returned: the events are used up and \<open>recv\<close> or \<open>send\<close> waits.
  \<^item> A local variable the code reads although the receive that fills it failed has the
    indeterminate value \<open>junk\<close>, a parameter: what is proved holds for every such value.
  \<^item> The transfer is exact: any fragmentation of the sent bytes is received as the packet that was
    sent (\<open>socket_packet_roundtrip\<close>), and a server loop runs its handlers on the packets of the
    stream in order (\<open>packet_handler_serves\<close>).
  Opening, binding and accepting sockets is left out: those are calls of the operating system only.
\<close>

record t_packet =
  header :: u8
  payload :: t_stream_buffer

definition create_packet :: "u8 \<Rightarrow> nat \<Rightarrow> t_packet" where
  "create_packet h sz = \<lparr>header = h, payload = create_stream sz\<rparr>"

text \<open>\<open>stream_add_UINT32\<close> and \<open>stream_take_UINT32\<close> on the payload of a packet.\<close>

definition add_u32 :: "t_packet \<Rightarrow> u32 \<Rightarrow> t_packet" where
  "add_u32 packet v = packet\<lparr>payload := stream_add_UINT32 (payload packet) v\<rparr>"

definition take_u32 :: "t_packet \<Rightarrow> (u32 \<times> t_packet) res" where
  "take_u32 packet =
     bindE (stream_take_UINT32 (payload packet)) (\<lambda>(v, st). Inr (v, packet\<lparr>payload := st\<rparr>))"

section \<open>Receiving\<close>

datatype recv_event = Data "u8 list" | Closed | Failed

text \<open>
  The loop of \<open>receive_wrapper\<close>: the return code, the bytes stored at \<open>dest\<close>, and the events left.
\<close>

fun receive_wrapper :: "recv_event list \<Rightarrow> nat \<Rightarrow> (int \<times> u8 list \<times> recv_event list) option" where
  "receive_wrapper es 0 = Some (1, [], es)"
| "receive_wrapper [] (Suc n) = None"
| "receive_wrapper (Closed # es) (Suc n) = Some (0, [], Closed # es)"
| "receive_wrapper (Failed # es) (Suc n) = Some (-1, [], es)"
| "receive_wrapper (Data c # es) (Suc n) =
     (if Suc n < length c then Some (1, take (Suc n) c, Data (drop (Suc n) c) # es)
      else do {
        (r, bs, es') \<leftarrow> receive_wrapper es (Suc n - length c);
        Some (r, c @ bs, es') })"

definition socket_receive :: "recv_event list \<Rightarrow> nat \<Rightarrow> (bool \<times> u8 list \<times> recv_event list) option" where
  "socket_receive es sz =
     (if sz \<noteq> 0 then do {
        (rcv, bs, es') \<leftarrow> receive_wrapper es sz;
        Some (\<not> rcv < 1, bs, es') }
      else Some (True, [], es))"

definition socket_receive_header :: "u8 \<Rightarrow> recv_event list \<Rightarrow> (u8 \<times> recv_event list) option" where
  "socket_receive_header junk es = do {
     (ok, bs, es') \<leftarrow> socket_receive es 1;
     Some (if ok then hd bs else junk, es') }"

definition socket_receive_packet ::
  "u8 \<Rightarrow> recv_event list \<Rightarrow> (t_packet option \<times> recv_event list) option" where
  "socket_receive_packet junk es = do {
     (h, es) \<leftarrow> socket_receive_header junk es;
     (ok, szb, es) \<leftarrow> socket_receive es 4;
     if \<not> ok then Some (None, es)
     else do {
       let packet = create_packet h (unat (bytes_u32 szb));
       (ok, bs, es) \<leftarrow> socket_receive es (unat (bytes_u32 szb));
       if \<not> ok then Some (None, es)
       else Some (Some (packet\<lparr>payload := (payload packet)\<lparr>stream := map Some bs\<rparr>\<rparr>), es) } }"

function socket_retry_packet ::
  "u8 \<Rightarrow> nat \<Rightarrow> recv_event list \<Rightarrow> (t_packet option \<times> recv_event list) option" where
  "socket_retry_packet junk tries es =
     (if tries \<le> 5 then do {
        (packet, es) \<leftarrow> socket_receive_packet junk es;
        if packet \<noteq> None then Some (packet, es)
        else socket_retry_packet junk (tries + 1) es }
      else Some (None, es))"
  by pat_completeness auto
termination
  by (relation "measure (\<lambda>(junk, tries, es). 6 - tries)") auto

declare socket_retry_packet.simps [simp del]

section \<open>Sending\<close>

text \<open>
  The loop of \<open>send_wrapper\<close>: the return code, the bytes put on the wire, the results left.
  \<open>send\<close> accepts a prefix of the buffer, of the length it returns.
\<close>

fun send_wrapper :: "int list \<Rightarrow> u8 list \<Rightarrow> (int \<times> u8 list \<times> int list) option" where
  "send_wrapper rs [] = Some (1, [], rs)"
| "send_wrapper [] (b # bs) = None"
| "send_wrapper (i # rs) (b # bs) =
     (if i = 0 then Some (0, [], rs)
      else if i < 0 then Some (-1, [], rs)
      else do {
        (r, out, rs') \<leftarrow> send_wrapper rs (drop (nat i) (b # bs));
        Some (r, take (nat i) (b # bs) @ out, rs') })"

definition socket_send :: "int list \<Rightarrow> u8 list \<Rightarrow> (u8 list \<times> int list) option" where
  "socket_send rs source = do { (r, out, rs') \<leftarrow> send_wrapper rs source; Some (out, rs') }"

definition socket_send_header :: "int list \<Rightarrow> u8 \<Rightarrow> (u8 list \<times> int list) option" where
  "socket_send_header rs h = socket_send rs [h]"

text \<open>The first \<open>offset\<close> bytes of a payload, as \<open>send\<close> reads them.\<close>

definition payload_bytes :: "t_stream_buffer \<Rightarrow> u8 list res" where
  "payload_bytes st =
     bindE (guardE (unat (offset st) \<le> length (stream st)) OutOfBounds) (\<lambda>_.
     bindE (guardE (None \<notin> set (take (unat (offset st)) (stream st))) UninitRead) (\<lambda>_.
       Inr (map the (take (unat (offset st)) (stream st)))))"

definition socket_send_packet :: "int list \<Rightarrow> t_packet \<Rightarrow> (u8 list \<times> int list) option res" where
  "socket_send_packet rs packet =
     bindE (payload_bytes (payload packet)) (\<lambda>bs. Inr (do {
       (o1, rs) \<leftarrow> socket_send_header rs (header packet);
       (o2, rs) \<leftarrow> socket_send rs (u32_bytes (offset (payload packet)));
       (o3, rs) \<leftarrow> socket_send rs bs;
       Some (o1 @ o2 @ o3, rs) }))"

definition socket_relay :: "int list \<Rightarrow> t_packet \<Rightarrow> (u8 list \<times> int list) option res" where
  "socket_relay rs packet =
     socket_send_packet rs
       (packet\<lparr>payload := (payload packet)\<lparr>offset := of_nat (malloc_size (payload packet))\<rparr>\<rparr>)"

section \<open>The server loop\<close>

text \<open>
  \<open>packet_handler\<close> of kernel, CPU and memory. A handler table is an array of function pointers,
  \<open>None\<close> the NULL ones, indexed by the header that arrived. The loop gets fuel, one unit per
  packet; the result tells whether the socket was closed.
\<close>

type_synonym 's handler = "t_packet \<Rightarrow> 's \<Rightarrow> (bool \<times> 's) res"

definition call_handler :: "'s handler option list \<Rightarrow> t_packet \<Rightarrow> 's \<Rightarrow> (bool \<times> 's) res" where
  "call_handler handlers packet s =
     bindE (guardE (unat (header packet) < length handlers) OutOfBounds) (\<lambda>_.
       case handlers ! unat (header packet) of
         None \<Rightarrow> Inl BadCall
       | Some h \<Rightarrow> h packet s)"

lemma call_handler_in:
  assumes "call_handler handlers packet s = Inr r"
  obtains h where "Some h \<in> set handlers" and "h packet s = Inr r"
proof -
  from assms obtain h where "unat (header packet) < length handlers"
      "handlers ! unat (header packet) = Some h" "h packet s = Inr r"
    by (auto simp: call_handler_def bindE_iffs split: option.splits)
  then show ?thesis using that nth_mem [of "unat (header packet)" handlers] by simp
qed

fun packet_handler ::
  "nat \<Rightarrow> 's handler option list \<Rightarrow> u8 \<Rightarrow> recv_event list \<Rightarrow> 's \<Rightarrow> (bool \<times> 's \<times> recv_event list) res option" where
  "packet_handler 0 handlers junk es s = None"
| "packet_handler (Suc fuel) handlers junk es s = do {
     (packet, es) \<leftarrow> socket_receive_packet junk es;
     (packet, es) \<leftarrow> (if packet = None then socket_retry_packet junk 0 es else Some (packet, es));
     case packet of
       None \<Rightarrow> Some (Inr (True, s, es))
     | Some p \<Rightarrow>
         (case call_handler handlers p s of
            Inl e \<Rightarrow> Some (Inl e)
          | Inr (serve, s') \<Rightarrow>
              if serve then packet_handler fuel handlers junk es s'
              else Some (Inr (False, s', es))) }"

section \<open>Setting up sockets\<close>

text \<open>
  The results of the system calls are arguments. \<open>connect_to\<close> goes on when \<open>getaddrinfo\<close> fails, whose
  result is not -1 then, with a pointer that was never set. \<open>create_server\<close> hands a comparison to
  \<open>catch_syscall_err\<close> for \<open>bind\<close>; the second component counts the errors it reports.
\<close>

definition catch_syscall_err :: "int \<Rightarrow> bool" where
  "catch_syscall_err code \<longleftrightarrow> code = -1"

definition connect_to :: "int \<Rightarrow> int \<Rightarrow> int \<Rightarrow> int res" where
  "connect_to getaddrinfo_result socket_result connect_result =
     bindE (guardE (getaddrinfo_result = 0) UninitRead) (\<lambda>_.
       Inr (if catch_syscall_err connect_result then -1 else socket_result))"

definition create_server :: "int \<Rightarrow> int \<Rightarrow> int \<Rightarrow> int \<Rightarrow> int \<times> nat" where
  "create_server socket_result setsockopt_result bind_result listen_result =
     (socket_result,
      length (filter catch_syscall_err
        [socket_result, setsockopt_result, if bind_result \<noteq> 0 then 1 else 0, listen_result]))"

definition accept_client :: "int \<Rightarrow> int \<times> nat" where
  "accept_client accept_result = (accept_result, length (filter catch_syscall_err [accept_result]))"

text \<open>
  \<open>server_listen\<close> starts a thread for the client it accepts, also when \<open>accept\<close> failed: the result is
  the socket the new thread serves. \<open>pthread_create\<close> returns an error number, which is not -1, when it
  fails, and \<open>pthread_detach\<close> then gets a handle that was never set.
\<close>

definition server_listen :: "int \<Rightarrow> int \<Rightarrow> (int \<times> nat) res" where
  "server_listen accept_result pthread_create_result =
     (let (client_socket, errors) = accept_client accept_result
      in bindE (guardE (pthread_create_result = 0) WildDeref) (\<lambda>_.
           Inr (client_socket, errors + length (filter catch_syscall_err [pthread_create_result]))))"

text \<open>
  A thread that calls \<open>packet_handler\<close> on its socket again and again, as the kernel's listeners do:
  the state after \<open>n\<close> calls, each with its own \<open>fuel\<close> for the packets it serves.
\<close>

fun listener ::
  "nat \<Rightarrow> nat \<Rightarrow> 's handler option list \<Rightarrow> u8 \<Rightarrow> recv_event list \<Rightarrow> 's \<Rightarrow> ('s \<times> recv_event list) res option" where
  "listener 0 fuel handlers junk es s = Some (Inr (s, es))"
| "listener (Suc n) fuel handlers junk es s =
     (case packet_handler fuel handlers junk es s of
        None \<Rightarrow> None
      | Some (Inl e) \<Rightarrow> Some (Inl e)
      | Some (Inr (closed, s', es')) \<Rightarrow> listener n fuel handlers junk es' s')"

lemma failed_accept_served: "server_listen (-1) 0 = Inr (-1, 1)"
  by (simp add: server_listen_def accept_client_def catch_syscall_err_def)

lemma failed_bind_unnoticed:
  "bnd \<noteq> 0 \<Longrightarrow> create_server sock so bnd lst = create_server sock so 0 lst"
  by (simp add: create_server_def catch_syscall_err_def)

section \<open>The byte stream behind the events\<close>

fun wire :: "recv_event list \<Rightarrow> u8 list" where
  "wire (Data c # es) = c @ wire es"
| "wire es = []"

fun after :: "recv_event list \<Rightarrow> recv_event list" where
  "after (Data c # es) = after es"
| "after es = es"

lemma receive_wrapper_Data:
  "0 < n \<Longrightarrow> receive_wrapper (Data c # es) n =
     (if n < length c then Some (1, take n c, Data (drop n c) # es)
      else map_option (\<lambda>(r, bs, es'). (r, c @ bs, es')) (receive_wrapper es (n - length c)))"
  by (cases n; cases "receive_wrapper es (n - length c)") auto

lemma receive_wrapper_exact:
  "wire es = bs @ ws \<Longrightarrow>
     \<exists>es'. receive_wrapper es (length bs) = Some (1, bs, es') \<and> wire es' = ws \<and> after es' = after es"
proof (induction es arbitrary: bs rule: wire.induct)
  case (1 c es)
  consider "bs = []" | "bs \<noteq> []" "length bs < length c" | "bs \<noteq> []" "length c \<le> length bs"
    by linarith
  then show ?case
  proof cases
    case 2
    then have "bs = take (length bs) c" "ws = drop (length bs) c @ wire es"
      using "1.prems" by (auto simp: append_eq_append_conv_if)
    with 2 show ?thesis by (simp add: receive_wrapper_Data)
  next
    case 3
    let ?d = "drop (length c) bs"
    have c: "c = take (length c) bs" and ws: "wire es = ?d @ ws"
      using 3 "1.prems" by (auto simp: append_eq_append_conv_if)
    have bs: "bs = c @ ?d" by (metis c append_take_drop_id)
    obtain es' where "receive_wrapper es (length ?d) = Some (1, ?d, es')"
      and "wire es' = ws" and "after es' = after es"
      using "1.IH" [OF ws] by auto
    with 3 bs show ?thesis by (simp add: receive_wrapper_Data)
  qed (use 1 in auto)
qed auto

lemma socket_receive_exact:
  assumes "wire es = bs @ ws"
  shows "\<exists>es'. socket_receive es (length bs) = Some (True, bs, es') \<and> wire es' = ws \<and> after es' = after es"
  using receive_wrapper_exact [OF assms] assms by (auto simp: socket_receive_def)

text \<open>The bytes of a packet on the wire, and the packet a receiver builds from them.\<close>

definition packet_bytes :: "u8 \<Rightarrow> u8 list \<Rightarrow> u8 list" where
  "packet_bytes h bs = h # u32_bytes (of_nat (length bs)) @ bs"

definition received :: "u8 \<Rightarrow> u8 list \<Rightarrow> t_packet" where
  "received h bs =
     \<lparr>header = h, payload = \<lparr>offset = 0, malloc_size = length bs, stream = map Some bs\<rparr>\<rparr>"

lemma received_sel [simp]: "header (received h bs) = h"
  by (simp add: received_def)

lemma ahead_received: "length bs < 2 ^ 32 \<Longrightarrow> ahead (payload (received h bs)) bs"
  by (simp add: ahead_def received_def segment_def)

lemma socket_receive_packet_exact:
  assumes w: "wire es = packet_bytes h bs @ ws" and len: "length bs < 2 ^ 32"
  shows "\<exists>es'. socket_receive_packet junk es = Some (Some (received h bs), es')
    \<and> wire es' = ws \<and> after es' = after es"
proof -
  let ?n = "of_nat (length bs) :: u32"
  have n: "unat ?n = length bs" using len by (simp add: unat_of_nat)
  obtain e1 where e1: "socket_receive es 1 = Some (True, [h], e1)"
      "wire e1 = u32_bytes ?n @ bs @ ws" "after e1 = after es"
    using socket_receive_exact [of es "[h]" "u32_bytes ?n @ bs @ ws"] w
    by (auto simp: packet_bytes_def)
  obtain e2 where e2: "socket_receive e1 4 = Some (True, u32_bytes ?n, e2)"
      "wire e2 = bs @ ws" "after e2 = after es"
    using socket_receive_exact [OF e1(2)] e1(3) by auto
  obtain e3 where "socket_receive e2 (length bs) = Some (True, bs, e3)"
      "wire e3 = ws" "after e3 = after es"
    using socket_receive_exact [OF e2(2)] e2(3) by auto
  with e1 e2 n show ?thesis
    by (simp add: socket_receive_packet_def socket_receive_header_def Let_def
        create_packet_def create_stream_def received_def)
qed

lemma send_wrapper_exact:
  "list_all (\<lambda>i. 0 < i) rs \<Longrightarrow> length bs \<le> length rs \<Longrightarrow>
    \<exists>rs'. send_wrapper rs bs = Some (1, bs, rs') \<and> list_all (\<lambda>i. 0 < i) rs'
      \<and> length rs \<le> length rs' + length bs"
proof (induction rs bs rule: send_wrapper.induct)
  case (3 i rs b bs)
  let ?d = "drop (nat i) (b # bs)"
  have "0 < i" "length ?d \<le> length bs" using "3.prems" by auto
  moreover then obtain rs' where "send_wrapper rs ?d = Some (1, ?d, rs')"
      "list_all (\<lambda>i. 0 < i) rs'" "length rs \<le> length rs' + length ?d"
    using 3 by fastforce
  ultimately show ?case by auto
qed auto

lemma socket_send_exact:
  assumes "list_all (\<lambda>i. 0 < i) rs" and "length bs \<le> length rs"
  shows "\<exists>rs'. socket_send rs bs = Some (bs, rs') \<and> list_all (\<lambda>i. 0 < i) rs'
      \<and> length rs \<le> length rs' + length bs"
  using send_wrapper_exact [OF assms] by (auto simp: socket_send_def)

lemma payload_bytes_holds: "holds st bs \<Longrightarrow> payload_bytes st = Inr bs"
  by (auto simp: payload_bytes_def holds_def comp_def)

lemma socket_send_packet_exact:
  assumes h: "holds (payload p) bs" and rs: "list_all (\<lambda>i. 0 < i) rs" "length bs + 5 \<le> length rs"
  shows "\<exists>rs'. socket_send_packet rs p = Inr (Some (packet_bytes (header p) bs, rs'))"
proof -
  have o: "offset (payload p) = of_nat (length bs)"
    using h by (simp add: holds_def) (metis of_nat_unat ucast_id)
  obtain r1 where r1: "socket_send rs [header p] = Some ([header p], r1)"
      "list_all (\<lambda>i. 0 < i) r1" "length bs + 4 \<le> length r1"
    using socket_send_exact [of rs "[header p]"] rs by auto
  obtain r2 where r2: "socket_send r1 (u32_bytes (of_nat (length bs)))
        = Some (u32_bytes (of_nat (length bs)), r2)"
      "list_all (\<lambda>i. 0 < i) r2" "length bs \<le> length r2"
    using socket_send_exact [of r1 "u32_bytes (of_nat (length bs))"] r1 by auto
  obtain r3 where "socket_send r2 bs = Some (bs, r3)"
    using socket_send_exact [of r2 bs] r2 by auto
  with r1 r2 o h show ?thesis
    by (simp add: socket_send_packet_def payload_bytes_holds socket_send_header_def packet_bytes_def)
qed

section \<open>A server loop runs its handlers on the packets in order\<close>

text \<open>What the loop is meant to do with a list of packets that ends when the peer closes.\<close>

fun serve_all :: "'s handler option list \<Rightarrow> (u8 \<times> u8 list) list \<Rightarrow> 's \<Rightarrow> (bool \<times> 's) res" where
  "serve_all handlers [] s = Inr (True, s)"
| "serve_all handlers (p # ps) s =
     bindE (call_handler handlers (received (fst p) (snd p)) s) (\<lambda>(serve, s').
       if serve then serve_all handlers ps s' else Inr (False, s'))"

lemma receive_closed:
  "wire es = [] \<Longrightarrow> after es = Closed # t \<Longrightarrow> 0 < n
     \<Longrightarrow> receive_wrapper es n = Some (0, [], Closed # t)"
proof (induction es rule: wire.induct)
  case (1 c es)
  then show ?case by (simp add: receive_wrapper_Data)
next
  case "2_2"
  then show ?case by (cases n) auto
qed auto

lemma receive_packet_closed:
  "wire es = [] \<Longrightarrow> after es = Closed # t \<Longrightarrow> socket_receive_packet junk es = Some (None, Closed # t)"
  by (simp add: socket_receive_packet_def socket_receive_header_def socket_receive_def receive_closed)

lemma retry_closed: "socket_retry_packet junk tries (Closed # t) = Some (None, Closed # t)"
proof (induction "6 - tries" arbitrary: tries)
  case 0
  then show ?case by (subst socket_retry_packet.simps) simp
next
  case (Suc n)
  then show ?case
    by (subst socket_retry_packet.simps) (simp add: receive_packet_closed)
qed

definition stream_of :: "(u8 \<times> u8 list) list \<Rightarrow> u8 list" where
  "stream_of ps = concat (map (\<lambda>p. packet_bytes (fst p) (snd p)) ps)"

lemma packet_handler_serves_list:
  assumes "wire es = stream_of ps" and "after es = Closed # t"
    and "list_all (\<lambda>p. length (snd p) < 2 ^ 32) ps" and "length ps < fuel"
  shows "\<exists>es'. packet_handler fuel handlers junk es s = Some (case serve_all handlers ps s of
      Inl e \<Rightarrow> Inl e | Inr (closed, s') \<Rightarrow> Inr (closed, s', es'))"
  using assms
proof (induction fuel arbitrary: es ps s)
  case (Suc fuel)
  show ?case
  proof (cases ps)
    case Nil
    with Suc.prems show ?thesis
      by (simp add: stream_of_def receive_packet_closed retry_closed)
  next
    case (Cons p qs)
    obtain e1 where e1: "socket_receive_packet junk es = Some (Some (received (fst p) (snd p)), e1)"
        "wire e1 = stream_of qs" "after e1 = Closed # t"
      using socket_receive_packet_exact [of es "fst p" "snd p" "stream_of qs"] Suc.prems Cons
      by (auto simp: stream_of_def)
    show ?thesis
    proof (cases "call_handler handlers (received (fst p) (snd p)) s")
      case (Inl e)
      with e1 Cons show ?thesis by simp
    next
      case (Inr r)
      obtain serve s' where r: "r = (serve, s')" by fastforce
      from Suc.IH [OF e1(2,3), of s'] Suc.prems(3,4) Cons e1(1) Inr r show ?thesis by auto
    qed
  qed
qed simp

section \<open>A listener serves them all\<close>

text \<open>What a call of \<open>packet_handler\<close> leaves for the next one.\<close>

definition handle_all :: "'s handler option list \<Rightarrow> (u8 \<times> u8 list) list \<Rightarrow> 's \<Rightarrow> 's res" where
  "handle_all handlers =
     iterE (\<lambda>p s. bindE (call_handler handlers (received (fst p) (snd p)) s) (\<lambda>(serve, s'). Inr s'))"

lemma handle_all_append:
  "handle_all handlers (ps @ qs) s = bindE (handle_all handlers ps s) (handle_all handlers qs)"
  by (simp add: handle_all_def iterE_append)

definition served_part ::
  "'s handler option list \<Rightarrow> recv_event list \<Rightarrow> (u8 \<times> u8 list) list \<Rightarrow> 's
     \<Rightarrow> (bool \<times> 's \<times> recv_event list) res \<Rightarrow> bool" where
  "served_part handlers t ps s r \<longleftrightarrow>
     (case r of Inl e \<Rightarrow> handle_all handlers ps s = Inl e
      | Inr (closed, s', es') \<Rightarrow> (\<exists>dn rest. ps = dn @ rest \<and> handle_all handlers dn s = Inr s'
          \<and> wire es' = stream_of rest \<and> after es' = Closed # t \<and> (if closed then rest = [] else dn \<noteq> [])))"

lemma served_partI:
  "ps = dn @ rest \<Longrightarrow> handle_all handlers dn s = Inr s' \<Longrightarrow> wire es' = stream_of rest \<Longrightarrow>
     after es' = Closed # t \<Longrightarrow> if closed then rest = [] else dn \<noteq> [] \<Longrightarrow>
     served_part handlers t ps s (Inr (closed, s', es'))"
  unfolding served_part_def by (simp only: sum.case prod.case, rule exI [of _ dn], rule exI [of _ rest], simp only: simp_thms)

lemma served_part_Cons:
  assumes "call_handler handlers (received (fst p) (snd p)) s = Inr (serve, s1)" and "served_part handlers t qs s1 r"
  shows "served_part handlers t (p # qs) s r"
proof -
  have step: "handle_all handlers (p # ys) s = handle_all handlers ys s1" for ys
    using assms(1) by (simp add: handle_all_def)
  show ?thesis
  proof (cases r)
    case (Inr y)
    obtain closed s' es' where y: "y = (closed, s', es')" by (cases y)
    with assms(2) Inr obtain dn rest where "qs = dn @ rest" "handle_all handlers dn s1 = Inr s'"
        "wire es' = stream_of rest" "after es' = Closed # t" "if closed then rest = [] else dn \<noteq> []"
      by (auto simp: served_part_def)
    with step [of dn] have "served_part handlers t (p # qs) s (Inr (closed, s', es'))"
      by (intro served_partI [of _ "p # dn" rest]) auto
    with Inr y show ?thesis by simp
  qed (use assms(2) step [of qs] in \<open>simp add: served_part_def\<close>)
qed

lemma packet_handler_part:
  assumes "wire es = stream_of ps" and "after es = Closed # t"
    and "list_all (\<lambda>p. length (snd p) < 2 ^ 32) ps" and "length ps < fuel"
  shows "\<exists>r. packet_handler fuel handlers junk es s = Some r \<and> served_part handlers t ps s r"
  using assms
proof (induction fuel arbitrary: es ps s)
  case (Suc fuel)
  show ?case
  proof (cases ps)
    case Nil
    with Suc.prems show ?thesis
      by (simp add: stream_of_def receive_packet_closed retry_closed handle_all_def served_part_def)
  next
    case (Cons p qs)
    obtain e1 where e1: "socket_receive_packet junk es = Some (Some (received (fst p) (snd p)), e1)"
        "wire e1 = stream_of qs" "after e1 = Closed # t"
      using socket_receive_packet_exact [of es "fst p" "snd p" "stream_of qs"] Suc.prems Cons
      by (auto simp: stream_of_def)
    consider e where "call_handler handlers (received (fst p) (snd p)) s = Inl e"
      | s1 where "call_handler handlers (received (fst p) (snd p)) s = Inr (False, s1)"
      | s1 where "call_handler handlers (received (fst p) (snd p)) s = Inr (True, s1)"
      by (cases "call_handler handlers (received (fst p) (snd p)) s") auto
    then show ?thesis
    proof cases
      case 2
      then have "handle_all handlers [p] s = Inr s1" by (simp add: handle_all_def)
      with e1 Cons have "served_part handlers t ps s (Inr (False, s1, e1))"
        by (intro served_partI [of _ "[p]" qs]) simp_all
      with 2 e1 Cons show ?thesis by simp
    next
      case (3 s1)
      obtain r where "packet_handler fuel handlers junk e1 s1 = Some r" "served_part handlers t qs s1 r"
        using Suc.IH [OF e1(2,3), of s1] Suc.prems(3,4) Cons by auto
      with 3 served_part_Cons [OF 3] e1(1) Cons show ?thesis by simp
    qed (use e1 Cons in \<open>simp add: handle_all_def served_part_def\<close>)
  qed
qed simp

lemma listener_serves:
  assumes "wire es = stream_of ps" and "after es = Closed # t"
    and "list_all (\<lambda>p. length (snd p) < 2 ^ 32) ps" and "length ps < fuel" and "length ps \<le> n"
  shows "\<exists>es'. listener n fuel handlers junk es s = Some (bindE (handle_all handlers ps s) (\<lambda>s'. Inr (s', es')))"
  using assms
proof (induction n arbitrary: es ps s)
  case (Suc n)
  from packet_handler_part [OF Suc.prems(1-4), of handlers junk s] obtain r where
    r: "packet_handler fuel handlers junk es s = Some r" "served_part handlers t ps s r"
    by blast
  show ?case
  proof (cases r)
    case (Inl e)
    with r show ?thesis by (simp add: served_part_def)
  next
    case (Inr y)
    obtain closed s' es' where y: "y = (closed, s', es')" by (cases y)
    with r(2) Inr obtain dn rest where p: "ps = dn @ rest" "handle_all handlers dn s = Inr s'"
        "wire es' = stream_of rest" "after es' = Closed # t" "if closed then rest = [] else dn \<noteq> []"
      by (auto simp: served_part_def)
    have "length rest \<le> n" using p(1,5) Suc.prems(5) by (cases dn) (auto split: if_splits)
    with Suc.IH [OF p(3,4), of s'] p(1) Suc.prems(3,4) obtain es2 where
      "listener n fuel handlers junk es' s' = Some (bindE (handle_all handlers rest s') (\<lambda>s'. Inr (s', es2)))"
      by auto
    with r(1) Inr y p(1,2) show ?thesis by (auto simp: handle_all_append)
  qed
qed (auto simp: handle_all_def)

section \<open>Requests that are a few words\<close>

definition word_packet :: "u8 \<Rightarrow> u32 list \<Rightarrow> t_packet" where
  "word_packet h ws = received h (concat (map u32_bytes ws))"

definition words_left :: "t_packet \<Rightarrow> u32 list \<Rightarrow> bool" where
  "words_left p ws \<longleftrightarrow> ahead (payload p) (concat (map u32_bytes ws))"

lemma header_word_packet [simp]: "header (word_packet h ws) = h"
  by (simp add: word_packet_def)

lemma header_add_u32 [simp]: "header (add_u32 p w) = header p"
  by (simp add: add_u32_def)

lemma header_create_packet [simp]: "header (create_packet h n) = h"
  by (simp add: create_packet_def)

lemma length_words [simp]: "length (concat (map u32_bytes ws)) = 4 * length ws"
  by (induction ws) auto

lemma words_left_packet: "4 * length ws < 2 ^ 32 \<Longrightarrow> words_left (word_packet h ws) ws"
  using ahead_received [of "concat (map u32_bytes ws)"] by (simp add: words_left_def word_packet_def)

lemma take_u32_left:
  assumes "words_left p (w # ws)"
  shows "\<exists>p'. take_u32 p = Inr (w, p') \<and> words_left p' ws"
proof -
  have a: "ahead (payload p) (u32_bytes w @ concat (map u32_bytes ws))"
    using assms by (simp add: words_left_def)
  show ?thesis
    using u32_get_ahead [OF a] ahead_advance [OF a]
    by (simp add: take_u32_def stream_take_UINT32_def words_left_def)
qed

lemma take_words:
  "words_left p [a] \<Longrightarrow> bindE (take_u32 p) (\<lambda>(a, p). f1 a) = f1 a"
  "words_left p [a, b] \<Longrightarrow>
     bindE (take_u32 p) (\<lambda>(a, p). bindE (take_u32 p) (\<lambda>(b, p). f2 a b)) = f2 a b"
  "words_left p [a, b, c] \<Longrightarrow>
     bindE (take_u32 p) (\<lambda>(a, p). bindE (take_u32 p) (\<lambda>(b, p). bindE (take_u32 p) (\<lambda>(c, p). f3 a b c)))
       = f3 a b c"
  "words_left p [a, b, c, d] \<Longrightarrow>
     bindE (take_u32 p) (\<lambda>(a, p). bindE (take_u32 p) (\<lambda>(b, p). bindE (take_u32 p) (\<lambda>(c, p).
       bindE (take_u32 p) (\<lambda>(d, p). f4 a b c d)))) = f4 a b c d"
  by (drule take_u32_left, clarsimp)+

text \<open>A request that holds fewer words than its handler takes is read past its end.\<close>

lemma take_u32_empty: "stream (payload p) = [] \<Longrightarrow> take_u32 p = Inl OutOfBounds"
  by (simp add: take_u32_def stream_take_UINT32_def stream_take_UINT32P_def stream_take_def)

end
