(* ===== verification/PQueue.thy ===== *)
theory PQueue
  imports Prelude "HOL-Library.Multiset"
begin

text \<open>
  \<^verbatim>\<open>shared/src/queue.c\<close>: the blocking queue the kernel's threads hand pcbs over with, a list of the
  commons library guarded by a recursive mutex, and a semaphore that counts its elements.

  \<^item> The operations on one queue at a time: \<open>t_pQueue\<close> holds the list and the semaphore's value.
    \<open>None\<close> is a call that blocks on the semaphore. Popping an empty list gives NULL, here \<open>None\<close>
    as the element. \<open>list_sort\<close> of the commons library is a parameter of \<open>pQueue_sort\<close>.
  \<^item> The interface the kernel relies on, \<open>blocking_queue\<close>, with first-in-first-out order derived
    from its laws, interpreted on the operations.
  \<^item> \<open>sorts\<close>, what \<open>list_sort\<close> documents.
  \<^item> The same operations lock by lock: \<open>pq_step\<close> interleaves any number of threads inside
    \<open>pQueue_put\<close>, \<open>pQueue_take\<close>, \<open>pQueue_peek\<close>, \<open>pQueue_size\<close> and \<open>pQueue_is_empty\<close>, which may also
    hold the queue between operations with \<open>pQueue_lock\<close> and \<open>pQueue_unlock\<close>; \<open>pq_sort_step\<close> adds the
    sort of a thread that holds it. Its invariant says that
    the mutex excludes, that the semaphore never promises more elements than the list has, and that
    elements leave in the order they came; so no take ever pops an empty list.
\<close>

section \<open>The operations\<close>

record 'a t_pQueue =
  lib_queue :: "'a list"
  sem :: nat

definition pQueue_create :: "'a t_pQueue" where
  "pQueue_create = \<lparr>lib_queue = [], sem = 0\<rparr>"

definition pQueue_size :: "'a t_pQueue \<Rightarrow> nat" where
  "pQueue_size q = length (lib_queue q)"

definition pQueue_is_empty :: "'a t_pQueue \<Rightarrow> bool" where
  "pQueue_is_empty q \<longleftrightarrow> lib_queue q = []"

definition pQueue_put :: "'a t_pQueue \<Rightarrow> 'a \<Rightarrow> 'a t_pQueue" where
  "pQueue_put q x = q\<lparr>lib_queue := lib_queue q @ [x], sem := sem q + 1\<rparr>"

definition queue_pop :: "'a list \<Rightarrow> 'a option \<times> 'a list" where
  "queue_pop xs = (case xs of [] \<Rightarrow> (None, []) | x # xs' \<Rightarrow> (Some x, xs'))"

definition pQueue_take :: "'a t_pQueue \<Rightarrow> ('a option \<times> 'a t_pQueue) option" where
  "pQueue_take q =
     (if sem q = 0 then None
      else let (x, xs) = queue_pop (lib_queue q)
           in Some (x, q\<lparr>sem := sem q - 1, lib_queue := xs\<rparr>))"

text \<open>\<open>pQueue_peek\<close> waits on the semaphore like a take and does not post it back.\<close>

definition pQueue_peek :: "'a t_pQueue \<Rightarrow> ('a option \<times> 'a t_pQueue) option" where
  "pQueue_peek q =
     (if sem q = 0 then None
      else Some (fst (queue_pop (lib_queue q)), q\<lparr>sem := sem q - 1\<rparr>))"

definition pQueue_iterate :: "'a t_pQueue \<Rightarrow> ('a \<Rightarrow> 's \<Rightarrow> 's res) \<Rightarrow> 's \<Rightarrow> 's res" where
  "pQueue_iterate q closure = iterE closure (lib_queue q)"

definition pQueue_sort ::
  "(('a \<Rightarrow> 'a \<Rightarrow> bool) \<Rightarrow> 'a list \<Rightarrow> 'a list) \<Rightarrow> 'a t_pQueue \<Rightarrow> ('a \<Rightarrow> 'a \<Rightarrow> bool) \<Rightarrow> 'a t_pQueue" where
  "pQueue_sort list_sort q algorithm = q\<lparr>lib_queue := list_sort algorithm (lib_queue q)\<rparr>"

text \<open>\<open>pQueue_destroy\<close> runs the destroyer on every element before it frees the queue.\<close>

definition pQueue_destroy :: "'a t_pQueue \<Rightarrow> ('a \<Rightarrow> 's \<Rightarrow> 's res) \<Rightarrow> 's \<Rightarrow> 's res" where
  "pQueue_destroy q destroyer = iterE destroyer (lib_queue q)"

text \<open>The semaphore agrees with the list.\<close>

definition pq_ok :: "'a t_pQueue \<Rightarrow> bool" where
  "pq_ok q \<longleftrightarrow> sem q = length (lib_queue q)"

lemma pq_ok_create [simp]: "pq_ok pQueue_create"
  by (simp add: pq_ok_def pQueue_create_def)

lemma pq_ok_put [simp]: "pq_ok q \<Longrightarrow> pq_ok (pQueue_put q x)"
  by (simp add: pq_ok_def pQueue_put_def)

lemma sem_put [simp]: "sem (pQueue_put q x) = Suc (sem q)"
  by (simp add: pQueue_put_def)

lemma lib_queue_put [simp]: "lib_queue (pQueue_put q x) = lib_queue q @ [x]"
  by (simp add: pQueue_put_def)

lemma pQueue_take_Cons:
  "pq_ok q \<Longrightarrow> lib_queue q = x # xs \<Longrightarrow>
     pQueue_take q = Some (Some x, q\<lparr>sem := length xs, lib_queue := xs\<rparr>)"
  by (simp add: pq_ok_def pQueue_take_def queue_pop_def)

lemma pq_ok_take: "pq_ok q \<Longrightarrow> pQueue_take q = Some (x, q') \<Longrightarrow> pq_ok q'"
  by (auto simp: pq_ok_def pQueue_take_def queue_pop_def split: if_splits list.splits)

text \<open>What \<open>list_sort\<close> documents: it sorts the list it is given.\<close>

definition sorts :: "(('a \<Rightarrow> 'a \<Rightarrow> bool) \<Rightarrow> 'a list \<Rightarrow> 'a list) \<Rightarrow> bool" where
  "sorts srt \<longleftrightarrow> (\<forall>le xs. mset (srt le xs) = mset xs \<and>
     ((\<forall>x y. le x y \<or> le y x) \<longrightarrow> (\<forall>x y z. le x y \<longrightarrow> le y z \<longrightarrow> le x z) \<longrightarrow>
        sorted_wrt le (srt le xs)))"

text \<open>Insertion sort is such a function.\<close>

fun insert_by :: "('a \<Rightarrow> 'a \<Rightarrow> bool) \<Rightarrow> 'a \<Rightarrow> 'a list \<Rightarrow> 'a list" where
  "insert_by le x [] = [x]"
| "insert_by le x (y # ys) = (if le x y then x # y # ys else y # insert_by le x ys)"

fun insertion_sort :: "('a \<Rightarrow> 'a \<Rightarrow> bool) \<Rightarrow> 'a list \<Rightarrow> 'a list" where
  "insertion_sort le [] = []"
| "insertion_sort le (x # xs) = insert_by le x (insertion_sort le xs)"

lemma mset_insert_by [simp]: "mset (insert_by le x xs) = add_mset x (mset xs)"
  by (induction xs) auto

lemma set_insert_by [simp]: "set (insert_by le x xs) = insert x (set xs)"
  by (induction xs) auto

lemma sorted_insert_by:
  assumes "\<forall>x y. le x y \<or> le y x" and "\<forall>x y z. le x y \<longrightarrow> le y z \<longrightarrow> le x z"
    and "sorted_wrt le xs"
  shows "sorted_wrt le (insert_by le x xs)"
  using assms(3)
proof (induction xs)
  case (Cons a xs)
  show ?case
  proof (cases "le x a")
    case True
    with Cons.prems assms(2) have "\<forall>y \<in> set xs. le x y" by (meson sorted_wrt.simps(2))
    with True Cons.prems show ?thesis by simp
  next
    case False
    with assms(1) have "le a x" by blast
    with False Cons show ?thesis by simp
  qed
qed simp

lemma sorts_insertion_sort: "sorts (insertion_sort :: ('a \<Rightarrow> 'a \<Rightarrow> bool) \<Rightarrow> 'a list \<Rightarrow> 'a list)"
  unfolding sorts_def
proof (intro allI conjI impI)
  fix le :: "'a \<Rightarrow> 'a \<Rightarrow> bool" and xs
  show "mset (insertion_sort le xs) = mset xs" by (induction xs) auto
  assume "\<forall>x y. le x y \<or> le y x" and "\<forall>x y z. le x y \<longrightarrow> le y z \<longrightarrow> le x z"
  then show "sorted_wrt le (insertion_sort le xs)"
    by (induction xs) (auto intro: sorted_insert_by)
qed

lemma sorts_mset: "sorts srt \<Longrightarrow> mset (srt le xs) = mset xs"
  by (simp add: sorts_def)

lemma sorts_set: "sorts srt \<Longrightarrow> set (srt le xs) = set xs"
  by (metis sorts_mset set_mset_mset)

lemma sorts_length: "sorts srt \<Longrightarrow> length (srt le xs) = length xs"
  by (metis sorts_mset size_mset)

section \<open>The interface of a blocking queue\<close>

locale blocking_queue =
  fixes empty :: 'q
    and put :: "'q \<Rightarrow> 'a \<Rightarrow> 'q"
    and take :: "'q \<Rightarrow> ('a option \<times> 'q) option"
    and elems :: "'q \<Rightarrow> 'a list"
    and ok :: "'q \<Rightarrow> bool"
  assumes elems_empty: "elems empty = []"
    and elems_put: "ok q \<Longrightarrow> elems (put q x) = elems q @ [x]"
    and take_blocks: "ok q \<Longrightarrow> elems q = [] \<Longrightarrow> take q = None"
    and take_head: "ok q \<Longrightarrow> elems q = x # xs \<Longrightarrow> \<exists>q'. take q = Some (Some x, q') \<and> elems q' = xs"
    and ok_empty: "ok empty"
    and ok_put: "ok q \<Longrightarrow> ok (put q x)"
    and ok_take: "ok q \<Longrightarrow> take q = Some (y, q') \<Longrightarrow> ok q'"
begin

lemma take_Some: "ok q \<Longrightarrow> take q = Some (y, q') \<Longrightarrow> \<exists>x. y = Some x \<and> elems q = x # elems q' \<and> ok q'"
  using take_blocks [of q] take_head [of q] ok_take [of q y q'] by (cases "elems q") auto

lemma ok_puts: "ok q \<Longrightarrow> ok (fold (\<lambda>x q. put q x) xs q) \<and> elems (fold (\<lambda>x q. put q x) xs q) = elems q @ xs"
  by (induction xs arbitrary: q) (auto simp: ok_put elems_put)

fun takes :: "nat \<Rightarrow> 'q \<Rightarrow> ('a option list \<times> 'q) option" where
  "takes 0 q = Some ([], q)"
| "takes (Suc n) q =
     (case take q of None \<Rightarrow> None
      | Some (x, q') \<Rightarrow> (case takes n q' of None \<Rightarrow> None | Some (xs, q'') \<Rightarrow> Some (x # xs, q'')))"

lemma takes_elems:
  "ok q \<Longrightarrow> elems q = xs @ ys \<Longrightarrow>
     \<exists>q'. takes (length xs) q = Some (map Some xs, q') \<and> elems q' = ys \<and> ok q'"
proof (induction xs arbitrary: q)
  case (Cons x xs)
  then obtain q1 where "take q = Some (Some x, q1)" "elems q1 = xs @ ys" "ok q1"
    using take_head [of q x "xs @ ys"] ok_take by auto
  with Cons.IH [of q1] show ?case by auto
qed simp

lemma fifo: "\<exists>q'. takes (length xs) (fold (\<lambda>x q. put q x) xs empty) = Some (map Some xs, q') \<and> elems q' = []"
  using ok_puts [OF ok_empty, of xs] takes_elems [of "fold (\<lambda>x q. put q x) xs empty" xs "[]"]
  by (auto simp: elems_empty)

end

interpretation pq: blocking_queue pQueue_create pQueue_put pQueue_take lib_queue pq_ok
proof unfold_locales
  fix q :: "'a t_pQueue" and x xs
  assume "pq_ok q" "lib_queue q = x # xs"
  then show "\<exists>q'. pQueue_take q = Some (Some x, q') \<and> lib_queue q' = xs"
    by (simp add: pQueue_take_Cons)
next
  fix q :: "'a t_pQueue" and y q'
  assume "pq_ok q" "pQueue_take q = Some (y, q')"
  then show "pq_ok q'" by (rule pq_ok_take)
qed (auto simp: pQueue_take_def pQueue_create_def pq_ok_def)

section \<open>Lock by lock\<close>

text \<open>
  A recursive mutex: its owner and how often the owner has locked it. To unlock another thread's mutex
  is an error that changes nothing.
\<close>

definition mutex_lock :: "nat \<Rightarrow> (nat \<times> nat) option \<Rightarrow> (nat \<times> nat) option option" where
  "mutex_lock t m =
     (case m of None \<Rightarrow> Some (Some (t, 1))
      | Some (u, d) \<Rightarrow> if u = t then Some (Some (t, d + 1)) else None)"

definition mutex_unlock :: "nat \<Rightarrow> (nat \<times> nat) option \<Rightarrow> (nat \<times> nat) option" where
  "mutex_unlock t m =
     (case m of None \<Rightarrow> None
      | Some (u, d) \<Rightarrow> if u \<noteq> t then m else if d \<le> 1 then None else Some (t, d - 1))"

text \<open>
  Where a thread is inside an operation: each name is the call it makes next. \<open>TakeUnlock\<close> and
  \<open>PeekUnlock\<close> hold what the call will return. \<open>pQueue_size\<close> and \<open>pQueue_is_empty\<close> read the list
  between a lock and an unlock; \<open>ReadUnlock\<close> holds the length they saw.
\<close>

datatype 'a pq_pc =
    Idle
  | PutLock 'a | PutPush 'a | PutUnlock | PutPost
  | TakeWait | TakeLock | TakePop | TakeUnlock "'a option"
  | PeekWait | PeekLock | PeekRead | PeekUnlock "'a option"
  | ReadLock | ReadElems | ReadUnlock nat

record 'a pq_sys =
  elems :: "'a list"
  semv :: nat
  mutex :: "(nat \<times> nat) option"
  pcs :: "nat \<Rightarrow> 'a pq_pc"
  pushed :: "'a list"
  popped :: "'a list"
  peeks :: nat

definition pq_init :: "'a pq_sys" where
  "pq_init = \<lparr>elems = [], semv = 0, mutex = None, pcs = (\<lambda>_. Idle), pushed = [], popped = [], peeks = 0\<rparr>"

definition pQueue_lock :: "nat \<Rightarrow> 'a pq_sys \<Rightarrow> 'a pq_sys option" where
  "pQueue_lock t s = map_option (\<lambda>m. s\<lparr>mutex := m\<rparr>) (mutex_lock t (mutex s))"

definition pQueue_unlock :: "nat \<Rightarrow> 'a pq_sys \<Rightarrow> 'a pq_sys" where
  "pQueue_unlock t s = s\<lparr>mutex := mutex_unlock t (mutex s)\<rparr>"

definition goto :: "nat \<Rightarrow> 'a pq_pc \<Rightarrow> 'a pq_sys \<Rightarrow> 'a pq_sys" where
  "goto t p s = s\<lparr>pcs := (pcs s)(t := p)\<rparr>"

lemma goto_sel [simp]:
  "pcs (goto t p s) = (pcs s)(t := p)" "elems (goto t p s) = elems s" "semv (goto t p s) = semv s"
  "mutex (goto t p s) = mutex s" "pushed (goto t p s) = pushed s" "popped (goto t p s) = popped s"
  "peeks (goto t p s) = peeks s"
  by (simp_all add: goto_def)

lemma pQueue_unlock_sel [simp]:
  "pcs (pQueue_unlock t s) = pcs s" "elems (pQueue_unlock t s) = elems s" "semv (pQueue_unlock t s) = semv s"
  "mutex (pQueue_unlock t s) = mutex_unlock t (mutex s)" "pushed (pQueue_unlock t s) = pushed s"
  "popped (pQueue_unlock t s) = popped s" "peeks (pQueue_unlock t s) = peeks s"
  by (simp_all add: pQueue_unlock_def)

definition owns :: "'a pq_sys \<Rightarrow> nat \<Rightarrow> bool" where
  "owns s t \<longleftrightarrow> (\<exists>d. mutex s = Some (t, d))"

lemma owns_unique: "owns s t \<Longrightarrow> owns s u \<Longrightarrow> t = u"
  by (auto simp: owns_def)

lemma owns_lock:
  "pQueue_lock t s = Some s1 \<Longrightarrow> \<exists>m. s1 = s\<lparr>mutex := m\<rparr> \<and> owns s1 t \<and> (\<forall>u. owns s u \<longrightarrow> u = t)"
  by (auto simp: pQueue_lock_def mutex_lock_def owns_def split: option.splits prod.splits if_splits)

lemma owns_unlock [simp]: "u \<noteq> t \<Longrightarrow> owns (pQueue_unlock t s) u \<longleftrightarrow> owns s u"
  by (auto simp: owns_def mutex_unlock_def split: option.splits)

lemma owns_goto [simp]: "owns (goto t p s) u \<longleftrightarrow> owns s u"
  by (simp add: owns_def)

text \<open>
  One step of thread \<open>t\<close> among \<open>n\<close> threads. \<open>pushed\<close>, \<open>popped\<close> and \<open>peeks\<close> only record history.
  Between two operations a thread may lock and unlock the queue, and run operations while it holds it.
\<close>

inductive pq_step :: "nat \<Rightarrow> 'a pq_sys \<Rightarrow> 'a pq_sys \<Rightarrow> bool" for n where
  call_put: "t < n \<Longrightarrow> pcs s t = Idle \<Longrightarrow> pq_step n s (goto t (PutLock x) s)"
| put_lock: "t < n \<Longrightarrow> pcs s t = PutLock x \<Longrightarrow> pQueue_lock t s = Some s1 \<Longrightarrow>
    pq_step n s (goto t (PutPush x) s1)"
| put_push: "t < n \<Longrightarrow> pcs s t = PutPush x \<Longrightarrow>
    pq_step n s (goto t PutUnlock (s\<lparr>elems := elems s @ [x], pushed := pushed s @ [x]\<rparr>))"
| put_unlock: "t < n \<Longrightarrow> pcs s t = PutUnlock \<Longrightarrow> pq_step n s (goto t PutPost (pQueue_unlock t s))"
| put_post: "t < n \<Longrightarrow> pcs s t = PutPost \<Longrightarrow>
    pq_step n s (goto t Idle (s\<lparr>semv := semv s + 1\<rparr>))"
| call_take: "t < n \<Longrightarrow> pcs s t = Idle \<Longrightarrow> pq_step n s (goto t TakeWait s)"
| take_wait: "t < n \<Longrightarrow> pcs s t = TakeWait \<Longrightarrow> 0 < semv s \<Longrightarrow>
    pq_step n s (goto t TakeLock (s\<lparr>semv := semv s - 1\<rparr>))"
| take_lock: "t < n \<Longrightarrow> pcs s t = TakeLock \<Longrightarrow> pQueue_lock t s = Some s1 \<Longrightarrow>
    pq_step n s (goto t TakePop s1)"
| take_pop: "t < n \<Longrightarrow> pcs s t = TakePop \<Longrightarrow> queue_pop (elems s) = (x, xs) \<Longrightarrow>
    pq_step n s (goto t (TakeUnlock x) (s\<lparr>elems := xs,
      popped := popped s @ (case x of None \<Rightarrow> [] | Some y \<Rightarrow> [y])\<rparr>))"
| take_unlock: "t < n \<Longrightarrow> pcs s t = TakeUnlock x \<Longrightarrow> pq_step n s (goto t Idle (pQueue_unlock t s))"
| call_peek: "t < n \<Longrightarrow> pcs s t = Idle \<Longrightarrow> pq_step n s (goto t PeekWait s)"
| peek_wait: "t < n \<Longrightarrow> pcs s t = PeekWait \<Longrightarrow> 0 < semv s \<Longrightarrow>
    pq_step n s (goto t PeekLock (s\<lparr>semv := semv s - 1\<rparr>))"
| peek_lock: "t < n \<Longrightarrow> pcs s t = PeekLock \<Longrightarrow> pQueue_lock t s = Some s1 \<Longrightarrow>
    pq_step n s (goto t PeekRead s1)"
| peek_read: "t < n \<Longrightarrow> pcs s t = PeekRead \<Longrightarrow>
    pq_step n s (goto t (PeekUnlock (fst (queue_pop (elems s)))) (s\<lparr>peeks := peeks s + 1\<rparr>))"
| peek_unlock: "t < n \<Longrightarrow> pcs s t = PeekUnlock x \<Longrightarrow> pq_step n s (goto t Idle (pQueue_unlock t s))"
| call_read: "t < n \<Longrightarrow> pcs s t = Idle \<Longrightarrow> pq_step n s (goto t ReadLock s)"
| read_lock: "t < n \<Longrightarrow> pcs s t = ReadLock \<Longrightarrow> pQueue_lock t s = Some s1 \<Longrightarrow>
    pq_step n s (goto t ReadElems s1)"
| read_elems: "t < n \<Longrightarrow> pcs s t = ReadElems \<Longrightarrow>
    pq_step n s (goto t (ReadUnlock (length (elems s))) s)"
| read_unlock: "t < n \<Longrightarrow> pcs s t = ReadUnlock k \<Longrightarrow> pq_step n s (goto t Idle (pQueue_unlock t s))"
| lock: "t < n \<Longrightarrow> pcs s t = Idle \<Longrightarrow> pQueue_lock t s = Some s1 \<Longrightarrow> pq_step n s s1"
| unlock: "t < n \<Longrightarrow> pcs s t = Idle \<Longrightarrow> pq_step n s (pQueue_unlock t s)"

text \<open>
  \<open>pQueue_sort\<close> and \<open>pQueue_iterate\<close> lock, run over the list and unlock. The lock and the unlock, and what a
  closure of \<open>pQueue_iterate\<close> does to the queue in between, are steps above; this is the sort by the
  owner. \<open>pushed\<close> then records the elements in the order they will leave.
\<close>

inductive pq_sort_step ::
  "nat \<Rightarrow> (('a \<Rightarrow> 'a \<Rightarrow> bool) \<Rightarrow> 'a list \<Rightarrow> 'a list) \<Rightarrow> 'a pq_sys \<Rightarrow> 'a pq_sys \<Rightarrow> bool" for n list_sort where
  sort_elems: "t < n \<Longrightarrow> pcs s t = Idle \<Longrightarrow> owns s t \<Longrightarrow>
    pq_sort_step n list_sort s (s\<lparr>elems := list_sort le (elems s), pushed := popped s @ list_sort le (elems s)\<rparr>)"

inductive pq_sorted_reachable ::
  "nat \<Rightarrow> (('a \<Rightarrow> 'a \<Rightarrow> bool) \<Rightarrow> 'a list \<Rightarrow> 'a list) \<Rightarrow> 'a pq_sys \<Rightarrow> bool" for n list_sort where
  start: "pq_sorted_reachable n list_sort pq_init"
| step: "pq_sorted_reachable n list_sort s \<Longrightarrow> pq_step n s s' \<Longrightarrow> pq_sorted_reachable n list_sort s'"
| sort: "pq_sorted_reachable n list_sort s \<Longrightarrow> pq_sort_step n list_sort s s' \<Longrightarrow>
    pq_sorted_reachable n list_sort s'"

inductive pq_reachable :: "nat \<Rightarrow> 'a pq_sys \<Rightarrow> bool" for n where
  start: "pq_reachable n pq_init"
| step: "pq_reachable n s \<Longrightarrow> pq_step n s s' \<Longrightarrow> pq_reachable n s'"

text \<open>
  Elements a thread has pushed and not yet posted count as \<open>1\<close>; a token a thread has taken from the
  semaphore without having popped counts as \<open>1\<close>: both are elements the semaphore does not promise.
  Nor does it ever again promise the element a peek has used a token for.
\<close>

fun unposted :: "'a pq_pc \<Rightarrow> int" where
  "unposted PutUnlock = 1"
| "unposted PutPost = 1"
| "unposted TakeLock = 1"
| "unposted TakePop = 1"
| "unposted PeekLock = 1"
| "unposted PeekRead = 1"
| "unposted _ = 0"

fun holds_mutex :: "'a pq_pc \<Rightarrow> bool" where
  "holds_mutex (PutPush x) = True"
| "holds_mutex PutUnlock = True"
| "holds_mutex TakePop = True"
| "holds_mutex (TakeUnlock x) = True"
| "holds_mutex PeekRead = True"
| "holds_mutex (PeekUnlock x) = True"
| "holds_mutex ReadElems = True"
| "holds_mutex (ReadUnlock k) = True"
| "holds_mutex _ = False"

definition pq_inv :: "nat \<Rightarrow> 'a pq_sys \<Rightarrow> bool" where
  "pq_inv n s \<longleftrightarrow>
     (\<forall>t. holds_mutex (pcs s t) \<longrightarrow> owns s t)
   \<and> int (length (elems s)) = int (semv s) + int (peeks s) + (\<Sum>t<n. unposted (pcs s t))
   \<and> (\<forall>t\<ge>n. pcs s t = Idle)
   \<and> pushed s = popped s @ elems s"

lemma unposted_nonneg [simp]: "0 \<le> unposted p"
  by (cases p) auto

lemma unposted_le_sum: "t < (n :: nat) \<Longrightarrow> unposted (f t) \<le> (\<Sum>i<n. unposted (f i))"
  by (rule member_le_sum) auto

lemma pq_inv_more: "pq_inv n s \<Longrightarrow> t < n \<Longrightarrow> unposted (pcs s t) = 1 \<Longrightarrow> peeks s < length (elems s)"
  using unposted_le_sum [of t n "pcs s"] by (auto simp: pq_inv_def)

lemma pq_inv_nonempty: "pq_inv n s \<Longrightarrow> t < n \<Longrightarrow> pcs s t = TakePop \<Longrightarrow> elems s \<noteq> []"
  using pq_inv_more [of n s t] by auto

lemma pq_inv_init: "pq_inv n pq_init"
  by (simp add: pq_inv_def pq_init_def)

text \<open>What a lock and an unlock do to the invariant, whatever the thread does next.\<close>

lemma pq_inv_locked:
  assumes "pq_inv n s" and "t < n" and "pQueue_lock t s = Some s1" and "unposted p = unposted (pcs s t)"
  shows "pq_inv n (goto t p s1)"
proof -
  obtain m where s1: "s1 = s\<lparr>mutex := m\<rparr>" and o: "owns s1 t" "\<forall>u. owns s u \<longrightarrow> u = t"
    using owns_lock [OF assms(3)] by blast
  then have "holds_mutex (pcs s u) \<longrightarrow> u = t" for u using assms(1) by (auto simp: pq_inv_def)
  with o(1) have "\<forall>u. holds_mutex (((pcs s)(t := p)) u) \<longrightarrow> owns s1 u" by auto
  with assms(1,2,4) show ?thesis by (auto simp: pq_inv_def s1 sum_fun_upd)
qed

lemma pq_inv_unlocked:
  assumes "pq_inv n s" and "t < n" and "\<not> holds_mutex p" and "unposted p = unposted (pcs s t)"
  shows "pq_inv n (goto t p (pQueue_unlock t s))"
  using assms by (auto simp: pq_inv_def sum_fun_upd)

lemma pq_step_inv:
  assumes "pq_step n s s'" and "pq_inv n s"
  shows "pq_inv n s'"
  using assms
proof (induction rule: pq_step.induct)
  case (take_pop t s x xs)
  then obtain y where "elems s = y # xs" "x = Some y"
    using pq_inv_nonempty by (cases "elems s") (fastforce simp: queue_pop_def)+
  with take_pop show ?case by (auto simp: pq_inv_def owns_def sum_fun_upd)
next
  case (lock t s s1)
  have "goto t Idle s1 = s1" using owns_lock [OF lock.hyps(3)] lock.hyps(2) by (auto simp: goto_def fun_upd_idem)
  with pq_inv_locked [OF lock.prems lock.hyps(1,3), of Idle] lock.hyps(2) show ?case by simp
next
  case (unlock t s)
  have "goto t Idle (pQueue_unlock t s) = pQueue_unlock t s" using unlock.hyps(2) by (simp add: goto_def fun_upd_idem)
  with pq_inv_unlocked [OF unlock.prems unlock.hyps(1), of Idle] unlock.hyps(2) show ?case by simp
next
  case (put_lock t s x s1)
  then show ?case by (intro pq_inv_locked [of n s t s1]) simp_all
next
  case (take_lock t s s1)
  then show ?case by (intro pq_inv_locked [of n s t s1]) simp_all
next
  case (peek_lock t s s1)
  then show ?case by (intro pq_inv_locked [of n s t s1]) simp_all
next
  case (read_lock t s s1)
  then show ?case by (intro pq_inv_locked [of n s t s1]) simp_all
next
  case (put_unlock t s)
  then show ?case by (intro pq_inv_unlocked) simp_all
next
  case (take_unlock t s x)
  then show ?case by (intro pq_inv_unlocked) simp_all
next
  case (peek_unlock t s x)
  then show ?case by (intro pq_inv_unlocked) simp_all
next
  case (read_unlock t s k)
  then show ?case by (intro pq_inv_unlocked) simp_all
qed (auto simp: pq_inv_def owns_def sum_fun_upd)

lemma pq_reachable_inv: "pq_reachable n s \<Longrightarrow> pq_inv n s"
  by (induction rule: pq_reachable.induct) (auto intro: pq_inv_init pq_step_inv)

lemma pq_sorted_reachable_inv:
  "pq_sorted_reachable n list_sort s \<Longrightarrow> sorts list_sort \<Longrightarrow> pq_inv n s"
proof (induction rule: pq_sorted_reachable.induct)
  case (sort s s')
  then have inv: "pq_inv n s" by blast
  from sort.hyps(2) show ?case
  proof cases
    case (sort_elems t le)
    with inv show ?thesis using sorts_length [OF sort.prems] by (auto simp: pq_inv_def owns_def)
  qed
qed (auto intro: pq_inv_init pq_step_inv)

lemma pq_reachable_sorted: "pq_reachable n s \<Longrightarrow> pq_sorted_reachable n list_sort s"
  by (induction rule: pq_reachable.induct) (auto intro: pq_sorted_reachable.intros)

end
