(* ===== verification/Shared_Props.thy ===== *)
theory Shared_Props
  imports Process_Utils Networking PQueue
begin

text \<open>
  What the shared library promises its users: buffers that grow by little and never overflow, packets
  that cross a socket whole however it cuts the bytes, a server loop that serves them in order, and a
  queue whose lock by lock code implements the atomic operations the schedulers rest on.
\<close>

section \<open>Stream buffers\<close>

text \<open>
  C25. stream_add writes inside the buffer, keeps the earlier bytes, never shrinks it, and grows
  it to less than 64 bytes above what is needed.
\<close>

theorem stream_add_appends_in_bounds:
  assumes "holds st bs" and "length bs + length src < 2 ^ 32"
  shows "let st' = stream_add st src
   in wf_stream st'
    \<and> unat (offset st') = length bs + length src \<and> unat (offset st') \<le> malloc_size st'
    \<and> take (unat (offset st')) (stream st') = map Some (bs @ src)
    \<and> malloc_size st \<le> malloc_size st'
    \<and> malloc_size st' < max (malloc_size st + 1) (length bs + length src + INITIAL_STREAM_SIZE)"
proof -
  have o: "unat (offset st) = length bs" using assms(1) by (simp add: holds_def)
  let ?g = "stream_grow (length bs + length src) st"
  have m: "malloc_size (stream_add st src) = malloc_size ?g"
    by (simp add: stream_add_def Let_def o)
  have h: "holds (stream_add st src) (bs @ src)" using stream_add_holds [OF assms] .
  then have "unat (offset (stream_add st src)) \<le> malloc_size (stream_add st src)"
    by (simp add: holds_def wf_stream_def)
  then show ?thesis
    using h m stream_grow_size [of "length bs + length src" st]
      stream_grow_tight [of "length bs + length src" st]
    by (auto simp: holds_def Let_def)
qed

theorem stream_add_appends_in_bounds_witness:
  "unat (offset (stream_add (create_stream 1) [7, 8, 9])) = 3
    \<and> malloc_size (stream_add (create_stream 1) [7, 8, 9]) < 67"
proof -
  have "malloc_size (create_stream 1) = 1" by (simp add: create_stream_def)
  then show ?thesis
    using stream_add_appends_in_bounds [OF holds_create [of 1], of "[7, 8, 9]"]
    by (auto simp: INITIAL_STREAM_SIZE_def Let_def)
qed

section \<open>Packets over a socket\<close>

text \<open>
  C18. A packet sent with partial sends and received with partial receives arrives with its
  header and payload, and leaves the rest of the stream untouched.
\<close>

theorem packet_survives_the_wire:
  assumes "holds (payload p) bs" and "length bs < 2 ^ 32"
    and "list_all (\<lambda>i. 0 < i) rs" and "length bs + 5 \<le> length rs"
  shows "\<exists>out rs'. socket_send_packet rs p = Inr (Some (out, rs'))
    \<and> (\<forall>es ws junk. wire es = out @ ws \<longrightarrow>
         (\<exists>q es'. socket_receive_packet junk es = Some (Some q, es') \<and> wire es' = ws
           \<and> header q = header p \<and> ahead (payload q) bs))"
  using socket_send_packet_exact [OF assms(1,3,4)] socket_receive_packet_exact [OF _ assms(2)]
    ahead_received [OF assms(2)]
  by (metis received_sel)

theorem packet_survives_the_wire_witness:
  "\<exists>out rs'. socket_send_packet (replicate 9 1) (add_u32 (create_packet 3 64) 77) = Inr (Some (out, rs'))
    \<and> (\<forall>es ws junk. wire es = out @ ws \<longrightarrow>
         (\<exists>q es'. socket_receive_packet junk es = Some (Some q, es') \<and> wire es' = ws \<and> header q = 3))"
proof -
  have "holds (payload (add_u32 (create_packet 3 64) 77)) (u32_bytes 77)"
    using UINT32_put_holds [of "create_stream 64" "[]" 77]
    by (simp add: add_u32_def create_packet_def)
  from packet_survives_the_wire [OF this, of "replicate 9 1"] show ?thesis
    by (fastforce simp: list_all_iff)
qed

text \<open>
  C14. The server loop does to its state what running the handlers on the list of packets does,
  stops when a handler says so or the peer closes, and needs one round per packet.
\<close>

theorem server_serves_packets_in_order:
  assumes "wire es = stream_of ps" and "after es = Closed # t"
    and "list_all (\<lambda>p. length (snd p) < 2 ^ 32) ps" and "length ps < fuel"
  shows "\<exists>es'. packet_handler fuel handlers junk es s = Some (case serve_all handlers ps s of
      Inl e \<Rightarrow> Inl e | Inr (closed, s') \<Rightarrow> Inr (closed, s', es'))"
  using assms by (rule packet_handler_serves_list)

theorem server_serves_packets_in_order_witness:
  "\<exists>es'. packet_handler 3 [Some (\<lambda>p s. Inr (s < (1::nat), s + 1))] 0
      [Data [0, 0, 0], Data [0, 0, 0], Data [0, 0, 0, 0], Closed] 0 = Some (Inr (False, 2, es'))"
proof -
  have "(of_nat 0 :: u32) = 0" "u32_bytes 0 = [0, 0, 0, 0]" by (simp_all add: u32_bytes_def upt_rec)
  then have "stream_of [(0, []), (0, [])] = replicate 10 0"
    by (simp add: stream_of_def packet_bytes_def numeral_eq_Suc)
  moreover have "wire [Data [0, 0, 0], Data [0, 0, 0], Data [0, 0, 0, 0], Closed] = replicate 10 (0 :: u8)"
    by (simp add: numeral_eq_Suc)
  ultimately show ?thesis
    using server_serves_packets_in_order [of "[Data [0, 0, 0], Data [0, 0, 0], Data [0, 0, 0, 0], Closed]"
        "[(0, []), (0, [])]" "[]" 3 "[Some (\<lambda>p s. Inr (s < (1::nat), s + 1))]" 0 0]
    by (simp add: call_handler_def numeral_2_eq_2)
qed

section \<open>The queue, lock by lock\<close>

text \<open>
  C19. In every interleaving of any number of threads, which may also hold the queue's recursive
  mutex between operations, a thread inside an operation is its only owner, no pop meets an
  empty queue, and the elements taken so far followed by those in the queue are the elements
  put, in order.
\<close>

theorem queue_keeps_order:
  assumes "pq_reachable n s"
  shows "pushed s = popped s @ elems s
    \<and> (\<forall>t. pcs s t = TakePop \<longrightarrow> elems s \<noteq> [])
    \<and> (\<forall>t u. holds_mutex (pcs s t) \<longrightarrow> owns s u \<longrightarrow> t = u)
    \<and> semv s + peeks s \<le> length (elems s)"
proof -
  have inv: "pq_inv n s" using assms by (rule pq_reachable_inv)
  have "elems s \<noteq> []" if "pcs s t = TakePop" for t
  proof -
    have "t < n" using that inv by (rule_tac ccontr) (auto simp: pq_inv_def not_less)
    with that inv show ?thesis using pq_inv_nonempty by blast
  qed
  moreover have "t = u" if "holds_mutex (pcs s t)" "owns s u" for t u
    using that inv owns_unique by (auto simp: pq_inv_def)
  moreover have "0 \<le> (\<Sum>t<n. unposted (pcs s t))" by (simp add: sum_nonneg)
  ultimately show ?thesis using inv by (auto simp: pq_inv_def)
qed

text \<open>
  The queue of the other theories, as the lock by lock queue implements it: a peek has used up a token.
\<close>

definition pq_abs :: "'a pq_sys \<Rightarrow> 'a t_pQueue" where
  "pq_abs s = \<lparr>lib_queue = elems s, sem = length (elems s) - peeks s\<rparr>"

lemma pq_step_refines:
  assumes inv: "pq_inv n s" and "pq_step n s s'"
  shows "pq_abs s' = pq_abs s
    \<or> (\<exists>t x. owns s t \<and> pcs s t = PutPush x \<and> pcs s' t = PutUnlock \<and> pq_abs s' = pQueue_put (pq_abs s) x)
    \<or> (\<exists>t x. owns s t \<and> pcs s t = TakePop \<and> pcs s' t = TakeUnlock (Some x)
         \<and> pQueue_take (pq_abs s) = Some (Some x, pq_abs s'))
    \<or> (\<exists>t x. owns s t \<and> pcs s t = PeekRead \<and> pcs s' t = PeekUnlock (Some x)
         \<and> pQueue_peek (pq_abs s) = Some (Some x, pq_abs s'))"
  using assms(2)
proof (cases rule: pq_step.cases)
  case (take_pop t x xs)
  have o: "owns s t" using inv take_pop by (simp add: pq_inv_def)
  have p: "peeks s < length (elems s)" using pq_inv_more [OF inv] take_pop by simp
  then obtain y ys where y: "elems s = y # ys" by (cases "elems s") auto
  with take_pop have "x = Some y" "xs = ys" by (simp_all add: queue_pop_def)
  with take_pop y p have "pcs s' t = TakeUnlock (Some y) \<and> pQueue_take (pq_abs s) = Some (Some y, pq_abs s')"
    by (simp add: pq_abs_def pQueue_take_def queue_pop_def)
  with take_pop o show ?thesis by blast
next
  case (put_push t x)
  have o: "owns s t" using inv put_push by (simp add: pq_inv_def)
  have "0 \<le> (\<Sum>t<n. unposted (pcs s t))" by (simp add: sum_nonneg)
  with inv have "peeks s \<le> length (elems s)" by (simp add: pq_inv_def)
  with put_push have "pcs s' t = PutUnlock \<and> pq_abs s' = pQueue_put (pq_abs s) x"
    by (simp add: pq_abs_def pQueue_put_def Suc_diff_le)
  with put_push o show ?thesis by blast
next
  case (peek_read t)
  have o: "owns s t" using inv peek_read by (simp add: pq_inv_def)
  have p: "peeks s < length (elems s)" using pq_inv_more [OF inv] peek_read by simp
  then obtain y ys where y: "elems s = y # ys" by (cases "elems s") auto
  with peek_read p have "pcs s' t = PeekUnlock (Some y) \<and> pQueue_peek (pq_abs s) = Some (Some y, pq_abs s')"
    by (simp add: pq_abs_def pQueue_peek_def queue_pop_def)
  with peek_read o show ?thesis by blast
qed (auto simp: pq_abs_def dest!: owns_lock)

text \<open>
  C5. Every step of the lock by lock pQueue, locks and unlocks of its recursive mutex by any
  thread included, either does not change the abstract queue or is exactly one atomic
  pQueue_put, pQueue_take or pQueue_peek on it, made by the owner of the mutex; the sort an
  owner makes between lock and unlock is one atomic pQueue_sort.
\<close>

theorem queue_refines_atomic_operations:
  assumes "pq_sorted_reachable n list_sort s" and "sorts list_sort"
  shows "(\<forall>s'. pq_step n s s' \<longrightarrow>
      pq_abs s' = pq_abs s
    \<or> (\<exists>t x. owns s t \<and> pcs s t = PutPush x \<and> pcs s' t = PutUnlock \<and> pq_abs s' = pQueue_put (pq_abs s) x)
    \<or> (\<exists>t x. owns s t \<and> pcs s t = TakePop \<and> pcs s' t = TakeUnlock (Some x)
         \<and> pQueue_take (pq_abs s) = Some (Some x, pq_abs s'))
    \<or> (\<exists>t x. owns s t \<and> pcs s t = PeekRead \<and> pcs s' t = PeekUnlock (Some x)
         \<and> pQueue_peek (pq_abs s) = Some (Some x, pq_abs s')))
    \<and> (\<forall>s'. pq_sort_step n list_sort s s' \<longrightarrow>
         (\<exists>t le. owns s t \<and> pcs s' = pcs s \<and> pq_abs s' = pQueue_sort list_sort (pq_abs s) le))"
proof -
  have inv: "pq_inv n s" using assms by (rule pq_sorted_reachable_inv)
  have "\<exists>t le. owns s t \<and> pcs s' = pcs s \<and> pq_abs s' = pQueue_sort list_sort (pq_abs s) le"
    if "pq_sort_step n list_sort s s'" for s'
    using that
  proof cases
    case (sort_elems t le)
    then have "pcs s' = pcs s \<and> pq_abs s' = pQueue_sort list_sort (pq_abs s) le"
      using sorts_length [OF assms(2)] by (simp add: pq_abs_def pQueue_sort_def)
    with sort_elems(4) show ?thesis by blast
  qed
  with pq_step_refines [OF inv] show ?thesis by simp
qed

text \<open>One thread, in the middle of a put.\<close>

definition pushing :: "'a \<Rightarrow> 'a pq_sys" where
  "pushing x = goto 0 (PutPush x) ((goto 0 (PutLock x) pq_init)\<lparr>mutex := Some (0, 1)\<rparr>)"

definition has_pushed :: "'a \<Rightarrow> 'a pq_sys" where
  "has_pushed x = goto 0 PutUnlock ((pushing x)\<lparr>elems := [x], pushed := [x]\<rparr>)"

lemma pushing_simps [simp]:
  "elems (pushing x) = []" "pushed (pushing x) = []" "pcs (pushing x) 0 = PutPush x"
  "pcs (pushing x) t \<noteq> TakePop" "pcs (pushing x) t \<noteq> PeekRead" "elems (has_pushed x) = [x]" "pushed (has_pushed x) = [x]"
  "peeks (pushing x) = 0" "peeks (has_pushed x) = 0"
  by (simp_all add: pushing_def has_pushed_def pq_init_def)

lemma pushing_reachable: "pq_reachable 1 (pushing x)"
proof -
  have "pq_reachable 1 (goto 0 (PutLock x) pq_init)"
    by (rule pq_reachable.step [OF pq_reachable.start pq_step.call_put]) (simp_all add: pq_init_def)
  then show ?thesis
    unfolding pushing_def by (rule pq_reachable.step [OF _ pq_step.put_lock])
      (simp_all add: pq_init_def pQueue_lock_def mutex_lock_def)
qed

lemma pushing_step: "pq_step 1 (pushing x) (has_pushed x)"
  using pq_step.put_push [of 0 1 "pushing x" x] by (simp add: has_pushed_def)

theorem queue_keeps_order_witness:
  "pq_reachable 1 (has_pushed (5 :: nat)) \<and> popped (has_pushed (5 :: nat)) = []"
  using queue_keeps_order [OF pq_reachable.step [OF pushing_reachable pushing_step], of "5 :: nat"]
    pq_reachable.step [OF pushing_reachable pushing_step]
  by simp

theorem queue_refines_atomic_operations_witness:
  "\<exists>x. pq_abs (has_pushed (5 :: nat)) = pQueue_put (pq_abs (pushing (5 :: nat))) x"
proof -
  have "pq_abs (has_pushed 5) \<noteq> pq_abs (pushing (5 :: nat))" by (simp add: pq_abs_def)
  then show ?thesis
    using queue_refines_atomic_operations [OF pq_reachable_sorted [OF pushing_reachable] sorts_insertion_sort, of "5 :: nat"]
      pushing_step [of "5 :: nat"]
    by fastforce
qed

end
