(* ===== verification/Hand_Off.thy ===== *)
theory Hand_Off
  imports PQueue "HOL-Library.Multiset"
begin

text \<open>
  A finer look at the two threads of the kernel that take from two queues behind one semaphore:
  \<^verbatim>\<open>io_listener\<close> (\<^verbatim>\<open>kernel/src/kernel.c\<close>, line 127) takes from \<open>blocked_q\<close>, or else from \<open>suspended_block_q\<close>,
  once it has a token of \<open>process_for_IO\<close>, and \<^verbatim>\<open>to_ready\<close> (line 430) from \<open>suspended_ready_q\<close>, or else from
  \<open>new_q\<close>, once it has one of \<open>any_for_ready\<close>. A \<open>pQueue_put\<close> is not one step here, nor is a \<open>pQueue_take\<close>:
  the element is in the list before the semaphore of the queue is posted (\<^verbatim>\<open>shared/src/queue.c\<close>, line 37),
  and the token is posted after that, by any number of threads at once. So the test that finds a
  queue not empty may rest on an element whose put has not posted yet.
\<close>

section \<open>A put and a take in two steps\<close>

definition pq_push :: "'a t_pQueue \<Rightarrow> 'a \<Rightarrow> 'a t_pQueue" where
  "pq_push q x = q\<lparr>lib_queue := lib_queue q @ [x]\<rparr>"

definition pq_post :: "'a t_pQueue \<Rightarrow> 'a t_pQueue" where
  "pq_post q = q\<lparr>sem := sem q + 1\<rparr>"

definition pq_wait :: "'a t_pQueue \<Rightarrow> 'a t_pQueue option" where
  "pq_wait q = (if sem q = 0 then None else Some (q\<lparr>sem := sem q - 1\<rparr>))"

definition pq_pop :: "'a t_pQueue \<Rightarrow> 'a option \<times> 'a t_pQueue" where
  "pq_pop q = (let (x, xs) = queue_pop (lib_queue q) in (x, q\<lparr>lib_queue := xs\<rparr>))"

lemma put_in_two: "pQueue_put q x = pq_post (pq_push q x)"
  by (simp add: pQueue_put_def pq_post_def pq_push_def)

lemma take_in_two: "pQueue_take q = map_option pq_pop (pq_wait q)"
  by (simp add: pQueue_take_def pq_wait_def pq_pop_def split: prod.splits)

section \<open>The threads\<close>

text \<open>The queue that is tested first and the other one.\<close>

datatype which = First | Second

text \<open>Where a thread that puts is: it has pushed, or it has also posted the queue's semaphore.\<close>

datatype put_pc = Pushed which | Posted which

text \<open>Where the taking thread is: each name is the call it makes next.\<close>

datatype take_pc = WaitToken | Test | Wait which | Pop which

record 'a hand_off =
  queues :: "which \<Rightarrow> 'a t_pQueue"
  tokens :: nat
  putting :: "put_pc multiset"
  taking :: take_pc
  taken :: "'a option list"

definition hand_off_start :: "'a hand_off" where
  "hand_off_start = \<lparr>queues = (\<lambda>_. pQueue_create), tokens = 0, putting = {#}, taking = WaitToken, taken = []\<rparr>"

definition set_queue :: "which \<Rightarrow> 'a t_pQueue \<Rightarrow> 'a hand_off \<Rightarrow> 'a hand_off" where
  "set_queue w q s = s\<lparr>queues := (queues s)(w := q)\<rparr>"

text \<open>The test of \<open>to_ready\<close> looks at both queues; that of \<open>io_listener\<close> only at the first.\<close>

definition tested :: "bool \<Rightarrow> 'a hand_off \<Rightarrow> take_pc" where
  "tested tests_second s =
     (if \<not> pQueue_is_empty (queues s First) then Wait First
      else if tests_second \<and> pQueue_is_empty (queues s Second) then WaitToken
      else Wait Second)"

text \<open>
  Between two turns the taking thread may put on the second queue itself, as \<open>io_listener\<close> does with a
  process it suspends.
\<close>

inductive hand_step :: "bool \<Rightarrow> 'a hand_off \<Rightarrow> 'a hand_off \<Rightarrow> bool" for tests_second where
  push: "hand_step tests_second s
    ((set_queue w (pq_push (queues s w) x) s)\<lparr>putting := add_mset (Pushed w) (putting s)\<rparr>)"
| post: "Pushed w \<in># putting s \<Longrightarrow> hand_step tests_second s
    ((set_queue w (pq_post (queues s w)) s)\<lparr>putting := add_mset (Posted w) (putting s - {#Pushed w#})\<rparr>)"
| token: "Posted w \<in># putting s \<Longrightarrow> hand_step tests_second s
    (s\<lparr>putting := putting s - {#Posted w#}, tokens := tokens s + 1\<rparr>)"
| own_put: "taking s = WaitToken \<Longrightarrow> hand_step tests_second s
    ((set_queue Second (pQueue_put (queues s Second) x) s)\<lparr>tokens := tokens s + 1\<rparr>)"
| get_token: "taking s = WaitToken \<Longrightarrow> 0 < tokens s \<Longrightarrow>
    hand_step tests_second s (s\<lparr>tokens := tokens s - 1, taking := Test\<rparr>)"
| test: "taking s = Test \<Longrightarrow> hand_step tests_second s (s\<lparr>taking := tested tests_second s\<rparr>)"
| wait: "taking s = Wait w \<Longrightarrow> pq_wait (queues s w) = Some q \<Longrightarrow>
    hand_step tests_second s ((set_queue w q s)\<lparr>taking := Pop w\<rparr>)"
| pop: "taking s = Pop w \<Longrightarrow> pq_pop (queues s w) = (x, q) \<Longrightarrow>
    hand_step tests_second s ((set_queue w q s)\<lparr>taking := WaitToken, taken := taken s @ [x]\<rparr>)"

inductive hand_reachable :: "bool \<Rightarrow> 'a hand_off \<Rightarrow> bool" for tests_second where
  start: "hand_reachable tests_second hand_off_start"
| step: "hand_reachable tests_second s \<Longrightarrow> hand_step tests_second s s' \<Longrightarrow> hand_reachable tests_second s'"

section \<open>The invariant\<close>

text \<open>
  Of each queue, the semaphore, the puts that have pushed and not posted and a take that has waited and
  not popped add up to the list; and every element has one token: free, owed by a put, or spent by the take.
\<close>

definition hand_inv :: "'a hand_off \<Rightarrow> bool" where
  "hand_inv s \<longleftrightarrow>
     (\<forall>w. length (lib_queue (queues s w))
        = sem (queues s w) + count (putting s) (Pushed w) + of_bool (taking s = Pop w))
   \<and> length (lib_queue (queues s First)) + length (lib_queue (queues s Second))
       = tokens s + size (putting s) + of_bool (taking s \<noteq> WaitToken)
   \<and> (\<forall>w. taking s = Wait w \<longrightarrow> lib_queue (queues s w) \<noteq> [])
   \<and> None \<notin> set (taken s)"

lemma hand_inv_length:
  "hand_inv s \<Longrightarrow> length (lib_queue (queues s w))
     = sem (queues s w) + count (putting s) (Pushed w) + of_bool (taking s = Pop w)"
  by (simp add: hand_inv_def)

lemma hand_inv_pop: "hand_inv s \<Longrightarrow> taking s = Pop w \<Longrightarrow> lib_queue (queues s w) \<noteq> []"
  using hand_inv_length [of s w] by auto

lemma hand_inv_wait:
  assumes "hand_inv s" and "taking s = Wait w"
  shows "lib_queue (queues s w) \<noteq> []" and "sem (queues s w) = 0 \<Longrightarrow> Pushed w \<in># putting s"
proof -
  show ne: "lib_queue (queues s w) \<noteq> []" using assms by (simp add: hand_inv_def)
  show "Pushed w \<in># putting s" if "sem (queues s w) = 0"
  proof -
    have "0 < length (lib_queue (queues s w))" using ne by simp
    then have "0 < count (putting s) (Pushed w)"
      using hand_inv_length [OF assms(1), of w] assms(2) that by simp
    then show ?thesis by simp
  qed
qed

lemma all_which: "(\<forall>w. P w) \<longleftrightarrow> P First \<and> P Second"
  by (metis which.exhaust)

lemma hand_step_inv:
  assumes "hand_step tests_second s s'" and inv: "hand_inv s"
  shows "hand_inv s'"
  using assms(1)
proof cases
  case (push w x)
  with inv show ?thesis by (cases w) (auto simp: hand_inv_def set_queue_def pq_push_def)
next
  case (post w)
  then obtain M where "putting s = add_mset (Pushed w) M" by (metis insert_DiffM)
  with post inv show ?thesis by (cases w) (auto simp: hand_inv_def set_queue_def pq_post_def)
next
  case (token w)
  then obtain M where "putting s = add_mset (Posted w) M" by (metis insert_DiffM)
  with token inv show ?thesis by (auto simp: hand_inv_def)
next
  case (own_put x)
  with inv show ?thesis by (auto simp: hand_inv_def set_queue_def)
next
  case get_token
  with inv show ?thesis by (auto simp: hand_inv_def)
next
  case test
  with inv show ?thesis by (auto simp: hand_inv_def all_which tested_def pQueue_is_empty_def)
next
  case (wait w q)
  with inv show ?thesis by (auto simp: hand_inv_def set_queue_def pq_wait_def split: if_splits)
next
  case (pop w x q)
  have "lib_queue (queues s w) \<noteq> []" by (rule hand_inv_pop [OF inv pop(2)])
  then obtain y ys where "lib_queue (queues s w) = y # ys" by (cases "lib_queue (queues s w)") auto
  with pop inv show ?thesis
    by (cases w) (auto simp: hand_inv_def all_which set_queue_def pq_pop_def queue_pop_def)
qed

lemma hand_reachable_inv: "hand_reachable tests_second s \<Longrightarrow> hand_inv s"
  by (induction rule: hand_reachable.induct)
    (simp add: hand_inv_def hand_off_start_def pQueue_create_def, rule hand_step_inv)

text \<open>A take that waits can always go on, after the post of a put that is under way if need be.\<close>

lemma wait_ends:
  assumes inv: "hand_inv s" and at: "taking s = Wait w"
  shows "\<exists>x s'. (hand_step tests_second)\<^sup>*\<^sup>* s s' \<and> taking s' = WaitToken \<and> tokens s' = tokens s
    \<and> taken s' = taken s @ [Some x] \<and> lib_queue (queues s w) = x # lib_queue (queues s' w)"
proof -
  obtain x xs where xs: "lib_queue (queues s w) = x # xs"
    using hand_inv_wait(1) [OF inv at] by (cases "lib_queue (queues s w)") auto
  have go: "\<exists>s'. (hand_step tests_second)\<^sup>*\<^sup>* r s' \<and> taking s' = WaitToken \<and> tokens s' = tokens r
      \<and> taken s' = taken r @ [Some x] \<and> lib_queue (queues s' w) = xs"
    if r: "taking r = Wait w" "lib_queue (queues r w) = x # xs" "0 < sem (queues r w)" for r :: "'a hand_off"
  proof -
    let ?r1 = "(set_queue w ((queues r w)\<lparr>sem := sem (queues r w) - 1\<rparr>) r)\<lparr>taking := Pop w\<rparr>"
    let ?r2 = "(set_queue w ((queues ?r1 w)\<lparr>lib_queue := xs\<rparr>) ?r1)\<lparr>taking := WaitToken, taken := taken ?r1 @ [Some x]\<rparr>"
    have "hand_step tests_second r ?r1" using r by (intro hand_step.wait) (simp_all add: pq_wait_def)
    moreover have "hand_step tests_second ?r1 ?r2"
      using r by (intro hand_step.pop) (simp_all add: pq_pop_def queue_pop_def set_queue_def)
    ultimately have "(hand_step tests_second)\<^sup>*\<^sup>* r ?r2" by (meson rtranclp.rtrancl_refl rtranclp.rtrancl_into_rtrancl)
    then show ?thesis by (intro exI [of _ ?r2]) (simp add: set_queue_def)
  qed
  show ?thesis
  proof (cases "sem (queues s w) = 0")
    case False
    with go [of s] at xs show ?thesis by auto
  next
    case True
    then have "Pushed w \<in># putting s" by (rule hand_inv_wait(2) [OF inv at])
    let ?t = "(set_queue w (pq_post (queues s w)) s)\<lparr>putting := add_mset (Posted w) (putting s - {#Pushed w#})\<rparr>"
    have "hand_step tests_second s ?t" by (rule hand_step.post) fact
    moreover obtain s' where "(hand_step tests_second)\<^sup>*\<^sup>* ?t s'" "taking s' = WaitToken" "tokens s' = tokens s"
        "taken s' = taken s @ [Some x]" "lib_queue (queues s' w) = xs"
      using go [of ?t] at xs by (auto simp: set_queue_def pq_post_def)
    ultimately show ?thesis using xs by (meson converse_rtranclp_into_rtranclp)
  qed
qed

text \<open>
  C36. io_listener and to_ready take from two queues behind one token, and a put is visible
  before it has posted: in every interleaving of any number of puts with the take, the test
  after a token finds a queue with an element, the take waits at most for a put to that queue
  that has pushed and not yet posted, it then gets the first element of the queue, and no take
  ever pops an empty queue.
\<close>

theorem hand_off_loses_no_token:
  assumes "hand_reachable tests_second s"
  shows "(taking s = Test \<longrightarrow> tested tests_second s \<noteq> WaitToken)
    \<and> (\<forall>w. taking s = Wait w \<longrightarrow> lib_queue (queues s w) \<noteq> []
          \<and> (sem (queues s w) = 0 \<longrightarrow> Pushed w \<in># putting s)
          \<and> (\<exists>x s'. (hand_step tests_second)\<^sup>*\<^sup>* s s' \<and> taking s' = WaitToken \<and> tokens s' = tokens s
               \<and> taken s' = taken s @ [Some x] \<and> lib_queue (queues s w) = x # lib_queue (queues s' w)))
    \<and> (\<forall>w. taking s = Pop w \<longrightarrow> (\<exists>x q. pq_pop (queues s w) = (Some x, q)))
    \<and> None \<notin> set (taken s)"
proof -
  have inv: "hand_inv s" using assms by (rule hand_reachable_inv)
  then have "tested tests_second s \<noteq> WaitToken" if "taking s = Test"
    using that by (auto simp: hand_inv_def tested_def pQueue_is_empty_def)
  moreover have "sem (queues s w) = 0 \<Longrightarrow> Pushed w \<in># putting s" "lib_queue (queues s w) \<noteq> []"
    if "taking s = Wait w" for w
    using hand_inv_wait [OF inv that] by blast+
  moreover have "\<exists>x q. pq_pop (queues s w) = (Some x, q)" if "taking s = Pop w" for w
  proof -
    have "lib_queue (queues s w) \<noteq> []" by (rule hand_inv_pop [OF inv that])
    then show ?thesis by (cases "lib_queue (queues s w)") (simp_all add: pq_pop_def queue_pop_def)
  qed
  moreover have "None \<notin> set (taken s)" using inv by (simp add: hand_inv_def)
  ultimately show ?thesis using wait_ends [OF inv, of _ tests_second] by blast
qed

text \<open>
  The wait does happen: with the token of another process, the thread finds the first queue not empty
  before its put has posted.
\<close>

definition overtaken :: "nat hand_off" where
  "overtaken = \<lparr>queues = (\<lambda>w. case w of First \<Rightarrow> \<lparr>lib_queue = [1], sem = 0\<rparr> | Second \<Rightarrow> \<lparr>lib_queue = [2], sem = 1\<rparr>),
     tokens = 0, putting = {#Pushed First#}, taking = Wait First, taken = []\<rparr>"

lemma overtaken_reachable: "hand_reachable False overtaken"
proof -
  let ?R = "hand_step False :: nat hand_off \<Rightarrow> nat hand_off \<Rightarrow> bool"
  define s1 :: "nat hand_off" where "s1 = (set_queue Second (pq_push pQueue_create 2) hand_off_start)\<lparr>putting := {#Pushed Second#}\<rparr>"
  define s2 :: "nat hand_off" where "s2 = (set_queue Second (pq_post (pq_push pQueue_create 2)) hand_off_start)\<lparr>putting := {#Posted Second#}\<rparr>"
  define s3 where "s3 = s2\<lparr>putting := {#}, tokens := 1\<rparr>"
  define s4 where "s4 = s3\<lparr>tokens := 0, taking := Test\<rparr>"
  define s5 where "s5 = (set_queue First (pq_push pQueue_create 1) s4)\<lparr>putting := {#Pushed First#}\<rparr>"
  note d = s1_def s2_def s3_def s4_def s5_def hand_off_start_def set_queue_def pq_push_def pq_post_def pQueue_create_def
  have "?R hand_off_start s1" using hand_step.push [of False hand_off_start Second 2] by (simp add: d)
  moreover have "?R s1 s2" using hand_step.post [of Second s1 False] by (simp add: d)
  moreover have "?R s2 s3" using hand_step.token [of Second s2 False] by (simp add: d)
  moreover have "?R s3 s4" using hand_step.get_token [of s3 False] by (simp add: d)
  moreover have "?R s4 s5" using hand_step.push [of False s4 First 1] by (simp add: d)
  moreover have "?R s5 (s5\<lparr>taking := Wait First\<rparr>)"
    using hand_step.test [of s5 False] by (simp add: d tested_def pQueue_is_empty_def)
  moreover have "s5\<lparr>taking := Wait First\<rparr> = overtaken"
    by (auto simp: d overtaken_def fun_eq_iff split: which.splits)
  ultimately show ?thesis using hand_reachable.start hand_reachable.step by metis
qed

theorem hand_off_loses_no_token_witness:
  "hand_reachable False overtaken \<and> taking overtaken = Wait First \<and> sem (queues overtaken First) = 0
    \<and> Pushed First \<in># putting overtaken
    \<and> (\<exists>s'. (hand_step False)\<^sup>*\<^sup>* overtaken s' \<and> taken s' = [Some 1])"
proof -
  have at: "taking overtaken = Wait First" "sem (queues overtaken First) = 0" "lib_queue (queues overtaken First) = [1]"
      "taken overtaken = []"
    by (simp_all add: overtaken_def)
  show ?thesis using hand_off_loses_no_token [OF overtaken_reachable] overtaken_reachable at by fastforce
qed

end
