(* ===== verification/Allocation.thy ===== *)
theory Allocation
  imports Process_Utils "HOL-Library.Multiset"
begin

text \<open>
  The constructors and destructors of \<^verbatim>\<open>shared/src/process_utils.c\<close>, which the other theories take for
  granted: what they allocate and free.

  \<^item> The state is the multiset of the blocks of the heap that instructions and processes are made of,
    with the list node that holds a parameter counted to it.
  \<^item> The arguments of a constructor tell which of its calls of \<open>malloc\<close> and \<open>list_create\<close> succeed; its
    result whether it returned an object.
  \<^item> A constructor that fails gives back what it took. The destructors do not: the parameters of every
    instruction stay, and the process.
\<close>

section \<open>Constructors and destructors\<close>

datatype block = Instruction_Block | Id_Block | Params_Block | Param_Block | Process_Block | Instructions_Block

definition create_instruction :: "bool \<Rightarrow> bool \<Rightarrow> bool \<Rightarrow> block multiset \<Rightarrow> bool \<times> block multiset" where
  "create_instruction instruction_ok id_ok params_ok live =
     (if \<not> instruction_ok then (False, live)
      else let live = live + {#Instruction_Block#}
           in if \<not> id_ok then (False, live - {#Instruction_Block#})
              else let live = live + {#Id_Block#}
                   in if \<not> params_ok then (False, live - {#Id_Block#} - {#Instruction_Block#})
                      else (True, live + {#Params_Block#}))"

definition instruction_destroy :: "t_instruction option \<Rightarrow> block multiset \<Rightarrow> block multiset" where
  "instruction_destroy instruction live =
     (case instruction of None \<Rightarrow> live
      | Some i \<Rightarrow> live - {#Id_Block#} - {#Params_Block#} - {#Instruction_Block#})"

definition create_process :: "bool \<Rightarrow> bool \<Rightarrow> block multiset \<Rightarrow> bool \<times> block multiset" where
  "create_process process_ok instructions_ok live =
     (if \<not> process_ok then (False, live)
      else let live = live + {#Process_Block#}
           in if \<not> instructions_ok then (False, live - {#Process_Block#})
              else (True, live + {#Instructions_Block#}))"

definition process_destroy :: "t_process option \<Rightarrow> block multiset \<Rightarrow> block multiset" where
  "process_destroy process live =
     (case process of None \<Rightarrow> live
      | Some p \<Rightarrow> fold (\<lambda>i live. instruction_destroy (Some i) live) (proc_instructions p) live - {#Instructions_Block#})"

text \<open>What an instruction and a process own.\<close>

definition instruction_blocks :: "t_instruction \<Rightarrow> block multiset" where
  "instruction_blocks i = {#Instruction_Block, Id_Block, Params_Block#} + replicate_mset (length (params i)) Param_Block"

definition process_blocks :: "t_process \<Rightarrow> block multiset" where
  "process_blocks p = {#Process_Block, Instructions_Block#} + sum_list (map instruction_blocks (proc_instructions p))"

text \<open>A constructor that fails leaks nothing; one that succeeds and the destructor cancel.\<close>

lemma create_instruction_blocks:
  "create_instruction a b c live = (ok, live') \<Longrightarrow>
     live' = (if ok then live + instruction_blocks \<lparr>ins_id = s, params = []\<rparr> else live)"
  by (auto simp: create_instruction_def instruction_blocks_def Let_def split: if_splits)

lemma create_process_blocks:
  "create_process a b live = (ok, live') \<Longrightarrow>
     live' = (if ok then live + process_blocks \<lparr>proc_size = sz, proc_instructions = []\<rparr> else live)"
  by (auto simp: create_process_def process_blocks_def Let_def split: if_splits)

text \<open>The destructors leave the parameters, and the process itself.\<close>

lemma instruction_destroy_leaks:
  "instruction_destroy (Some i) (instruction_blocks i + live) = replicate_mset (length (params i)) Param_Block + live"
  by (simp add: instruction_destroy_def instruction_blocks_def)

lemma replicate_mset_sum: "replicate_mset (m + n) x = replicate_mset m x + replicate_mset n x"
  by (induction m) simp_all

lemma instructions_destroy_leak:
  "fold (\<lambda>i live. instruction_destroy (Some i) live) is (sum_list (map instruction_blocks is) + live)
     = replicate_mset (sum_list (map (\<lambda>i. length (params i)) is)) Param_Block + live"
proof (induction "is" arbitrary: live)
  case (Cons i "is")
  have "instruction_destroy (Some i) (instruction_blocks i + (sum_list (map instruction_blocks is) + live))
      = sum_list (map instruction_blocks is) + (replicate_mset (length (params i)) Param_Block + live)"
    using instruction_destroy_leaks [of i "sum_list (map instruction_blocks is) + live"] by (simp add: ac_simps)
  with Cons.IH [of "replicate_mset (length (params i)) Param_Block + live"] show ?case by (simp add: ac_simps replicate_mset_sum)
qed simp

lemma process_destroy_leaks:
  "process_destroy (Some p) (process_blocks p + live)
     = {#Process_Block#} + replicate_mset (sum_list (map (\<lambda>i. length (params i)) (proc_instructions p))) Param_Block + live"
  using instructions_destroy_leak [of "proc_instructions p" "{#Process_Block, Instructions_Block#} + live"]
  by (simp add: process_destroy_def process_blocks_def ac_simps)

end
