(* ===== verification/Socket_Headers.thy ===== *)
theory Socket_Headers
  imports Prelude
begin

text \<open>
  \<^verbatim>\<open>shared/include/socket_headers.h\<close>: the header codes of the four protocols. A header travels as
  one byte; the functions below give the byte of each enumerator.
\<close>

datatype console_headers = PROCESS_OK | PROCESS_FAILURE

datatype kernel_headers =
    NEW_PROCESS | IO_CALL | EXIT_CALL | INTERRUPT_DISPATCH | SUSPEND
  | PROCESS_MEMORY_READY | PROCESS_EXIT_READY | PROCESS_SUSPENSION_READY

datatype cpu_headers =
    PCB_TO_CPU | INTERRUPT | FRAME_TO_CPU | TABLE2_TO_CPU | TABLE_INFO_TO_CPU
  | SWAP_OK | SWAP_ERROR | TLB_ADD | TLB_DROP | WRITE_SUCCESS | READ_ANSWER

datatype memory_headers =
    PROCESS_NEW | MEM_HANDSHAKE | LVL1_TABLE | LVL2_TABLE | READ_CALL | WRITE_CALL
  | PROCESS_SUSPEND | PROCESS_EXIT

fun console_code :: "console_headers \<Rightarrow> u8" where
  "console_code PROCESS_OK = 0"
| "console_code PROCESS_FAILURE = 1"

fun kernel_code :: "kernel_headers \<Rightarrow> u8" where
  "kernel_code NEW_PROCESS = 0"
| "kernel_code IO_CALL = 1"
| "kernel_code EXIT_CALL = 2"
| "kernel_code INTERRUPT_DISPATCH = 3"
| "kernel_code SUSPEND = 4"
| "kernel_code PROCESS_MEMORY_READY = 5"
| "kernel_code PROCESS_EXIT_READY = 6"
| "kernel_code PROCESS_SUSPENSION_READY = 7"

fun cpu_code :: "cpu_headers \<Rightarrow> u8" where
  "cpu_code PCB_TO_CPU = 0"
| "cpu_code INTERRUPT = 1"
| "cpu_code FRAME_TO_CPU = 2"
| "cpu_code TABLE2_TO_CPU = 3"
| "cpu_code TABLE_INFO_TO_CPU = 4"
| "cpu_code SWAP_OK = 5"
| "cpu_code SWAP_ERROR = 6"
| "cpu_code TLB_ADD = 7"
| "cpu_code TLB_DROP = 8"
| "cpu_code WRITE_SUCCESS = 9"
| "cpu_code READ_ANSWER = 10"

fun memory_code :: "memory_headers \<Rightarrow> u8" where
  "memory_code PROCESS_NEW = 0"
| "memory_code MEM_HANDSHAKE = 1"
| "memory_code LVL1_TABLE = 2"
| "memory_code LVL2_TABLE = 3"
| "memory_code READ_CALL = 4"
| "memory_code WRITE_CALL = 5"
| "memory_code PROCESS_SUSPEND = 6"
| "memory_code PROCESS_EXIT = 7"

lemma kernel_code_inject [simp]: "kernel_code a = kernel_code b \<longleftrightarrow> a = b"
  by (cases a; cases b) auto

lemma cpu_code_inject [simp]: "cpu_code a = cpu_code b \<longleftrightarrow> a = b"
  by (cases a; cases b) auto

lemma memory_code_inject [simp]: "memory_code a = memory_code b \<longleftrightarrow> a = b"
  by (cases a; cases b) auto

end
