(* ===== verification/Memory_State.thy ===== *)
theory Memory_State
  imports Networking Socket_Headers
begin

text \<open>
  The data of the memory module (\<^verbatim>\<open>memory/include/utils.h\<close>, \<^verbatim>\<open>page_table.h\<close>) and
  \<^verbatim>\<open>memory/src/utils.c\<close>.

  \<^item> The module's globals are one record, \<open>mem_state\<close>. C \<open>int\<close>s that count or index are \<open>int\<close>s.
  \<^item> Page entries live in the second level tables and are never moved or freed, so a pointer to one
    is its place \<open>(i, j)\<close>: entry \<open>j\<close> of table \<open>i\<close>. \<open>None\<close> is NULL.
  \<^item> A first level table stores in its \<open>void *\<close> slots what the code puts there, see
    \<open>level1_tables\<close>: the plain number of a second level table.
  \<^item> The frame bitmap is the list of its first \<open>framesInMemory\<close> bits. Using another index is
    \<open>OutOfBounds\<close>.
  \<^item> The memory block is its bytes, a pointer into it the distance from its start.
\<close>

datatype e_replaceAlgorithm = CLOCK | CLOCK_M

record t_memory_config =
  memorySize :: int
  pageSize :: int
  entriesPerTable :: int
  replaceAlgorithm :: e_replaceAlgorithm
  framesPerProcess :: int
  framesInMemory :: int

record t_page_entry =
  frame :: int
  present :: bool
  used :: bool
  modified :: bool
  page :: int

type_synonym page_ptr = "(nat \<times> nat) option"

record t_frame_entry =
  fe_frame :: int
  page_data :: page_ptr

record t_process_frame =
  frames :: "t_frame_entry list"
  clock_hand :: int

record mem_state =
  config :: t_memory_config
  level1_tables :: "int list list"
  level2_tables :: "t_page_entry list list"
  processes_frames :: "t_process_frame list"
  frames_bitmap :: "bool list"
  memory :: "u8 list"
  swap_files :: "u32 \<Rightarrow> u8 list option"
  sent :: "(int \<times> t_packet) list"
  memory_access_counter :: int
  memory_read_counter :: int
  memory_write_counter :: int
  page_fault_counter :: int
  page_replacement_counter :: int

section \<open>Configuration\<close>

text \<open>
  \<open>getMemoryConfig\<close>: the values of the file are read by the commons library, a parameter; the code's
  own work is the number of frames and, in \<open>main\<close>, the choice of the algorithm by its name.
\<close>

definition choose_algorithm :: "string \<Rightarrow> e_replaceAlgorithm" where
  "choose_algorithm name =
     (if name = ''CLOCK'' then CLOCK else if name = ''CLOCK-M'' then CLOCK_M else CLOCK)"

definition getMemoryConfig ::
  "(string \<Rightarrow> int) \<Rightarrow> (string \<Rightarrow> string) \<Rightarrow> t_memory_config res" where
  "getMemoryConfig config_get_int_value config_get_string_value =
     bindE (guardE (config_get_int_value ''TAM_PAGINA'' \<noteq> 0) DivByZero) (\<lambda>_.
       Inr \<lparr>memorySize = config_get_int_value ''TAM_MEMORIA'',
            pageSize = config_get_int_value ''TAM_PAGINA'',
            entriesPerTable = config_get_int_value ''ENTRADAS_POR_TABLA'',
            replaceAlgorithm = choose_algorithm (config_get_string_value ''ALGORITMO_REEMPLAZO''),
            framesPerProcess = config_get_int_value ''MARCOS_POR_PROCESO'',
            framesInMemory =
              config_get_int_value ''TAM_MEMORIA'' sdiv config_get_int_value ''TAM_PAGINA''\<rparr>)"

section \<open>Helpers of \<open>utils.c\<close>\<close>

definition ceil_div :: "int \<Rightarrow> int \<Rightarrow> int res" where
  "ceil_div a b =
     bindE (guardE (b \<noteq> 0) DivByZero) (\<lambda>_. Inr ((a sdiv b) + (if a smod b \<noteq> 0 then 1 else 0)))"

text \<open>The distance of a frame from the start of memory: a \<open>uint32_t\<close> product stored in an \<open>int\<close>.\<close>

definition get_frame :: "mem_state \<Rightarrow> u32 \<Rightarrow> int" where
  "get_frame s frame_number = sint (frame_number * of_int (pageSize (config s)))"

definition in_memory :: "mem_state \<Rightarrow> int \<Rightarrow> int \<Rightarrow> bool" where
  "in_memory s ptr n \<longleftrightarrow> 0 \<le> ptr \<and> 0 \<le> n \<and> ptr + n \<le> int (length (memory s))"

definition write_mem :: "mem_state \<Rightarrow> int \<Rightarrow> u8 list \<Rightarrow> mem_state res" where
  "write_mem s ptr bs =
     bindE (guardE (in_memory s ptr (int (length bs))) OutOfBounds) (\<lambda>_.
       Inr (s\<lparr>memory := put_at (nat ptr) bs (memory s)\<rparr>))"

definition read_mem :: "mem_state \<Rightarrow> int \<Rightarrow> int \<Rightarrow> u8 list res" where
  "read_mem s ptr n =
     bindE (guardE (in_memory s ptr n) OutOfBounds) (\<lambda>_.
       Inr (segment (nat ptr) (nat n) (memory s)))"

text \<open>
  \<open>read_frame_value\<close> as written: the \<open>memcpy\<close> has the frame as its destination and the zeroed local
  as its source.
\<close>

definition read_frame_value :: "mem_state \<Rightarrow> int \<Rightarrow> u32 \<Rightarrow> (u32 \<times> mem_state) res" where
  "read_frame_value s frame_ptr offset' =
     (let value = 0
      in bindE (write_mem s (frame_ptr + uint offset') (u32_bytes value)) (\<lambda>s'. Inr (value, s')))"

text \<open>
  \<open>get_frame_value\<close> copies a page into the eight bytes of a local pointer variable: the result is
  those bytes, the ones not copied indeterminate.
\<close>

definition get_frame_value :: "mem_state \<Rightarrow> int \<Rightarrow> u8 option list res" where
  "get_frame_value s frame_ptr =
     bindE (read_mem s frame_ptr (pageSize (config s))) (\<lambda>bs.
     bindE (guardE (length bs \<le> 8) StackSmash) (\<lambda>_.
       Inr (map Some bs @ replicate (8 - length bs) None)))"

text \<open>
  \<open>write_frame_value\<close> copies a page out of the eight bytes of its own parameter, the bytes of an
  address; \<open>value\<close> is that address as it lies in memory.
\<close>

definition write_frame_value :: "mem_state \<Rightarrow> int \<Rightarrow> u8 list \<Rightarrow> mem_state res" where
  "write_frame_value s frame_ptr value =
     bindE (guardE (0 \<le> pageSize (config s) \<and> pageSize (config s) \<le> int (length value)) OutOfBounds) (\<lambda>_.
       write_mem s frame_ptr (take (nat (pageSize (config s))) value))"

definition has_free_frame :: "mem_state \<Rightarrow> t_process_frame \<Rightarrow> bool" where
  "has_free_frame s process_frames \<longleftrightarrow>
     int (length (filter (\<lambda>entry. fe_frame entry \<noteq> -1) (frames process_frames)))
       < framesPerProcess (config s)"

text \<open>The position of the entry \<open>list_find\<close> returns, \<open>None\<close> for NULL.\<close>

definition find_first_free_frame :: "t_process_frame \<Rightarrow> nat option" where
  "find_first_free_frame process_frames =
     (case filter (\<lambda>k. fe_frame (frames process_frames ! k) \<noteq> -1)
             [0..<length (frames process_frames)] of
        [] \<Rightarrow> None | k # _ \<Rightarrow> Some k)"

definition test_bit :: "bool list \<Rightarrow> int \<Rightarrow> bool res" where
  "test_bit bitmap i =
     bindE (guardE (0 \<le> i \<and> i < int (length bitmap)) OutOfBounds) (\<lambda>_. Inr (bitmap ! nat i))"

definition update_bit :: "bool list \<Rightarrow> int \<Rightarrow> bool \<Rightarrow> bool list res" where
  "update_bit bitmap i b =
     bindE (guardE (0 \<le> i \<and> i < int (length bitmap)) OutOfBounds) (\<lambda>_. Inr (bitmap[nat i := b]))"

function find_unassigned_from :: "int \<Rightarrow> bool list \<Rightarrow> int \<Rightarrow> int res" where
  "find_unassigned_from n bitmap i =
     (if i < n then
        bindE (test_bit bitmap i) (\<lambda>b.
          if \<not> b then Inr i else find_unassigned_from n bitmap (i + 1))
      else Inr (-1))"
  by pat_completeness auto
termination
  by (relation "measure (\<lambda>(n, bitmap, i). nat (n - i))") auto

declare find_unassigned_from.simps [simp del]

definition find_first_unassigned_frame :: "mem_state \<Rightarrow> int res" where
  "find_first_unassigned_frame s = find_unassigned_from (framesInMemory (config s)) (frames_bitmap s) 0"

definition frame_set_assigned :: "mem_state \<Rightarrow> int \<Rightarrow> mem_state res" where
  "frame_set_assigned s index =
     bindE (update_bit (frames_bitmap s) index True) (\<lambda>b. Inr (s\<lparr>frames_bitmap := b\<rparr>))"

definition frame_clear_assigned :: "mem_state \<Rightarrow> int \<Rightarrow> mem_state res" where
  "frame_clear_assigned s index =
     bindE (update_bit (frames_bitmap s) index False) (\<lambda>b. Inr (s\<lparr>frames_bitmap := b\<rparr>))"

definition increment_clock_hand :: "mem_state \<Rightarrow> int \<Rightarrow> int res" where
  "increment_clock_hand s clock_hand' =
     (let h = clock_hand' + 1; n = framesInMemory (config s)
      in if h \<ge> n then bindE (guardE (n \<noteq> 0) DivByZero) (\<lambda>_. Inr (h smod n)) else Inr h)"

end
