(* ===== verification/Swap.thy ===== *)
theory Swap
  imports Memory_State
begin

text \<open>
  \<^verbatim>\<open>memory/src/swap.c\<close>: one swap file per process. \<open>swap_files\<close> maps a pid to the bytes of its
  file. The files are opened with mode \<open>ab+\<close>, whose documented meaning is modelled: the file is
  created when missing, reads start where \<open>fseek\<close> says, every write goes to the end of the file.

  A data pointer is a \<open>Block\<close> when it points to that many bytes, and \<open>Wild\<close> when it is no address of
  an object. The delays and the handling of failing system calls (a log line) are left out.
\<close>

datatype c_data = Block "u8 list" | Wild "u8 option list"

definition open_swap :: "mem_state \<Rightarrow> u32 \<Rightarrow> u8 list" where
  "open_swap s p = (case swap_files s p of None \<Rightarrow> [] | Some bs \<Rightarrow> bs)"

definition ftruncate :: "nat \<Rightarrow> u8 list \<Rightarrow> u8 list" where
  "ftruncate n bs = take n bs @ replicate (n - length bs) 0"

definition create_swap :: "mem_state \<Rightarrow> u32 \<Rightarrow> u32 \<Rightarrow> mem_state" where
  "create_swap s p process_size =
     s\<lparr>swap_files := (swap_files s)(p \<mapsto> ftruncate (unat process_size) (open_swap s p))\<rparr>"

definition swap_write_page :: "mem_state \<Rightarrow> u32 \<Rightarrow> int \<Rightarrow> c_data \<Rightarrow> mem_state res" where
  "swap_write_page s p pg data =
     (case data of
        Wild bs \<Rightarrow> Inl (if None \<in> set bs then UninitRead else WildDeref)
      | Block bs \<Rightarrow>
          bindE (guardE (0 \<le> pageSize (config s) \<and> pageSize (config s) \<le> int (length bs)) OutOfBounds) (\<lambda>_.
            Inr (s\<lparr>swap_files := (swap_files s)
                     (p \<mapsto> open_swap s p @ take (nat (pageSize (config s))) bs)\<rparr>)))"

text \<open>
  The page read: \<open>pageSize\<close> bytes of a fresh block, those past the end of the file indeterminate. A
  negative position makes \<open>fseek\<close> fail and leaves the read at the start of the file.
\<close>

definition swap_get_page :: "mem_state \<Rightarrow> u32 \<Rightarrow> int \<Rightarrow> u8 option list \<times> mem_state" where
  "swap_get_page s p pg =
     (let pos = pg * pageSize (config s);
          n = nat (pageSize (config s));
          bs = segment (if pos < 0 then 0 else nat pos) n (open_swap s p)
      in (map Some bs @ replicate (n - length bs) None,
          s\<lparr>swap_files := (swap_files s)(p \<mapsto> open_swap s p)\<rparr>))"

definition delete_swap :: "mem_state \<Rightarrow> u32 \<Rightarrow> mem_state" where
  "delete_swap s p = s\<lparr>swap_files := (swap_files s)(p := None)\<rparr>"

end
