(* ===== verification/Page_Table.thy ===== *)
theory Page_Table
  imports Swap
begin

text \<open>
  \<^verbatim>\<open>memory/src/page_table.c\<close>: page tables, the frames of a process, page faults and the CLOCK and
  CLOCK-M replacement.

  \<^item> A frame record of process \<open>pfi\<close> is entry \<open>k\<close> of \<open>frames (processes_frames ! pfi)\<close>; a pointer to
    it is the pair \<open>(pfi, k)\<close>.
  \<^item> \<open>two_clock_turns\<close> takes its \<open>replace\<close> callback as an argument, like the source.
  \<^item> \<open>get_frame_number\<close> initialises its local \<open>process_frames\<close> from itself and faults there; the lines
    after it are \<open>load_page\<close>, given the frames of the process, a list the handler never gets.
  \<^item> The lemmas: which tables \<open>page_table_init\<close> builds; the ownership invariant \<open>frames_ok\<close> of the
    bitmap, kept by assigning and freeing frames; what the clock visits and where it stops.
\<close>

section \<open>Building page tables\<close>

definition new_page :: "nat \<Rightarrow> t_page_entry" where
  "new_page j = \<lparr>frame = -1, present = False, used = False, modified = False, page = int j\<rparr>"

definition new_level2_table :: "mem_state \<Rightarrow> t_page_entry list" where
  "new_level2_table s = map new_page [0..<nat (entriesPerTable (config s))]"

fun level2_loop :: "nat \<Rightarrow> nat \<Rightarrow> mem_state \<Rightarrow> mem_state" where
  "level2_loop 0 level1_index s = s"
| "level2_loop (Suc n) level1_index s =
     (let level2_index = length (level2_tables s)
      in level2_loop n level1_index
           (s\<lparr>level2_tables := level2_tables s @ [new_level2_table s],
              level1_tables := (level1_tables s)
                [level1_index := level1_tables s ! level1_index @ [int level2_index]]\<rparr>))"

definition pages_required :: "mem_state \<Rightarrow> u32 \<Rightarrow> int res" where
  "pages_required s process_size =
     (let ps = of_int (pageSize (config s)) :: u32
      in bindE (guardE (ps \<noteq> 0) DivByZero) (\<lambda>_. Inr (sint (process_size div ps))))"

definition page_table_init :: "mem_state \<Rightarrow> u32 \<Rightarrow> (int \<times> mem_state) res" where
  "page_table_init s process_size =
     (let level1_index = length (level1_tables s);
          s1 = s\<lparr>level1_tables := level1_tables s @ [[]]\<rparr>
      in bindE (pages_required s process_size) (\<lambda>pages.
         bindE (ceil_div pages (entriesPerTable (config s))) (\<lambda>tables.
           Inr (int level1_index, level2_loop (nat tables) level1_index s1))))"

section \<open>The frames of a process\<close>

fun assign_loop :: "nat \<Rightarrow> t_frame_entry list \<Rightarrow> mem_state \<Rightarrow> (t_frame_entry list \<times> mem_state) res" where
  "assign_loop 0 acc s = Inr (acc, s)"
| "assign_loop (Suc n) acc s =
     bindE (find_first_unassigned_frame s) (\<lambda>frame_index.
       if frame_index \<noteq> -1 then
         bindE (frame_set_assigned s frame_index) (\<lambda>s'.
           assign_loop n (acc @ [\<lparr>fe_frame = frame_index, page_data = None\<rparr>]) s')
       else assign_loop n acc s)"

definition assign_process_frames :: "mem_state \<Rightarrow> (int \<times> mem_state) res" where
  "assign_process_frames s =
     bindE (assign_loop (nat (framesPerProcess (config s))) [] s) (\<lambda>(fs, s').
       Inr (int (length (processes_frames s')),
            s'\<lparr>processes_frames := processes_frames s' @ [\<lparr>frames = fs, clock_hand = 0\<rparr>]\<rparr>))"

definition set_frame_entry :: "nat \<Rightarrow> nat \<Rightarrow> t_frame_entry \<Rightarrow> mem_state \<Rightarrow> mem_state" where
  "set_frame_entry pfi k fe s =
     s\<lparr>processes_frames := (processes_frames s)[pfi := (processes_frames s ! pfi)
         \<lparr>frames := (frames (processes_frames s ! pfi))[k := fe]\<rparr>]\<rparr>"

definition unassign_frame :: "nat \<Rightarrow> nat \<Rightarrow> mem_state \<Rightarrow> mem_state res" where
  "unassign_frame pfi k s =
     bindE (frame_clear_assigned s (fe_frame (frames (processes_frames s ! pfi) ! k))) (\<lambda>s'.
       Inr (set_frame_entry pfi k \<lparr>fe_frame = -1, page_data = None\<rparr> s'))"

definition unassign_process_frames :: "mem_state \<Rightarrow> int \<Rightarrow> mem_state res" where
  "unassign_process_frames s process_frames_index =
     bindE (list_get (processes_frames s) process_frames_index) (\<lambda>pf.
       iterE (unassign_frame (nat process_frames_index)) [0..<length (frames pf)] s)"

section \<open>Walking the tables\<close>

text \<open>The lookups in the global lists give a pointer; \<open>None\<close> is the NULL of an index out of range.\<close>

definition get_page_table1 :: "mem_state \<Rightarrow> int \<Rightarrow> nat option" where
  "get_page_table1 s pt1_index =
     (if 0 \<le> pt1_index \<and> pt1_index < int (length (level1_tables s)) then Some (nat pt1_index) else None)"

definition get_page_table2 :: "mem_state \<Rightarrow> int \<Rightarrow> nat option" where
  "get_page_table2 s pt2_index =
     (if 0 \<le> pt2_index \<and> pt2_index < int (length (level2_tables s)) then Some (nat pt2_index) else None)"

definition deref :: "'a option \<Rightarrow> 'a res" where
  "deref p = (case p of None \<Rightarrow> Inl NullDeref | Some x \<Rightarrow> Inr x)"

lemma deref_simps [simp, res_simps]: "deref None = Inl NullDeref" "deref (Some x) = Inr x"
  by (simp_all add: deref_def)

text \<open>
  A slot of a first level table is read as the address of an \<open>int\<close>. What the slots hold are the
  numbers \<open>page_table_init\<close> stored; no object of the program lies at such an address.
\<close>

definition deref_slot :: "int \<Rightarrow> int res" where
  "deref_slot address = Inl (if address = 0 then NullDeref else WildDeref)"

definition get_page_table2_index :: "mem_state \<Rightarrow> u32 \<Rightarrow> u32 \<Rightarrow> int res" where
  "get_page_table2_index s pt1_index entry_index =
     bindE (deref (get_page_table1 s (sint pt1_index))) (\<lambda>level1_table.
     bindE (list_get (level1_tables s ! level1_table) (sint entry_index)) deref_slot)"

definition page_at :: "mem_state \<Rightarrow> nat \<times> nat \<Rightarrow> t_page_entry" where
  "page_at s p = level2_tables s ! fst p ! snd p"

definition set_page :: "nat \<times> nat \<Rightarrow> t_page_entry \<Rightarrow> mem_state \<Rightarrow> mem_state" where
  "set_page p e s =
     s\<lparr>level2_tables := (level2_tables s)[fst p := (level2_tables s ! fst p)[snd p := e]]\<rparr>"

section \<open>Page faults and replacement\<close>

definition save_swap :: "mem_state \<Rightarrow> int \<Rightarrow> int \<Rightarrow> int \<Rightarrow> mem_state res" where
  "save_swap s frame_number page_number p =
     bindE (get_frame_value s (get_frame s (of_int frame_number))) (\<lambda>memory_value.
       swap_write_page s (of_int p) page_number (Wild memory_value))"

text \<open>
  Addresses the run hands out: the bytes of the block \<open>swap_get_page\<close> allocates, and the address of
  a frame record cut to an \<open>int\<close>, which \<open>_replace\<close> passes as a frame number.
\<close>

record addresses =
  swap_block :: "u8 list"
  frame_record :: int

definition get_swap :: "addresses \<Rightarrow> mem_state \<Rightarrow> int \<Rightarrow> int \<Rightarrow> int \<Rightarrow> mem_state res" where
  "get_swap addr s frame_number page_number p =
     (let s' = snd (swap_get_page s (of_int p) page_number)
      in write_frame_value s' (get_frame s' (of_int frame_number)) (swap_block addr))"

definition replace_page ::
  "addresses \<Rightarrow> nat \<Rightarrow> nat \<times> nat \<Rightarrow> int \<Rightarrow> nat \<Rightarrow> page_ptr \<Rightarrow> mem_state \<Rightarrow> mem_state res" where
  "replace_page addr pfi entry p k old_page s =
     bindE (deref old_page) (\<lambda>old.
     bindE (if present (page_at s old) \<and> modified (page_at s old)
            then bindE (save_swap s (fe_frame (frames (processes_frames s ! pfi) ! k))
                          (page (page_at s old)) p)
                   (\<lambda>s. Inr (set_page old ((page_at s old)\<lparr>modified := False\<rparr>) s))
            else Inr s) (\<lambda>s.
     let s = set_page old ((page_at s old)\<lparr>present := False\<rparr>) s
     in bindE (get_swap addr s (frame_record addr) (page (page_at s entry)) p) (\<lambda>s.
     let curr = frames (processes_frames s ! pfi) ! k;
         s = set_page entry ((page_at s entry)\<lparr>present := True, frame := fe_frame curr\<rparr>) s
     in Inr (set_frame_entry pfi k (curr\<lparr>page_data := Some entry\<rparr>) s))))"

definition advance_hand :: "nat \<Rightarrow> mem_state \<Rightarrow> mem_state res" where
  "advance_hand pfi s =
     bindE (increment_clock_hand s (clock_hand (processes_frames s ! pfi))) (\<lambda>h.
       Inr (s\<lparr>processes_frames := (processes_frames s)
                [pfi := (processes_frames s ! pfi)\<lparr>clock_hand := h\<rparr>]\<rparr>))"

text \<open>
  The body of the two loops of \<open>two_clock_turns\<close>, on turn \<open>j\<close>. \<open>Some f\<close> is \<open>return f\<close>.
\<close>

definition clock_visit ::
  "bool \<Rightarrow> nat \<Rightarrow> nat \<Rightarrow> (nat \<Rightarrow> page_ptr \<Rightarrow> mem_state \<Rightarrow> mem_state res) \<Rightarrow> mem_state
     \<Rightarrow> (int option \<times> mem_state) res" where
  "clock_visit check_modified j pfi replace s =
     bindE (list_get (frames (processes_frames s ! pfi)) (clock_hand (processes_frames s ! pfi))) (\<lambda>curr.
     bindE (deref (page_data curr)) (\<lambda>p.
     let k = nat (clock_hand (processes_frames s ! pfi));
         do_replace =
           bindE (replace k (page_data curr) s) (\<lambda>s.
           bindE (advance_hand pfi s) (\<lambda>s.
             Inr (Some (fe_frame (frames (processes_frames s ! pfi) ! k)), s)));
         pass = (\<lambda>s. bindE (advance_hand pfi s) (\<lambda>s. Inr (None, s)));
         unuse = set_page p ((page_at s p)\<lparr>used := False\<rparr>)
     in if check_modified then
          if \<not> used (page_at s p) \<and> \<not> modified (page_at s p) then do_replace
          else if j = 1 then (if \<not> used (page_at s p) then do_replace else pass (unuse s))
          else pass s
        else if \<not> used (page_at s p) then do_replace
        else pass (unuse s)))"

fun clock_turn ::
  "nat \<Rightarrow> bool \<Rightarrow> nat \<Rightarrow> nat \<Rightarrow> (nat \<Rightarrow> page_ptr \<Rightarrow> mem_state \<Rightarrow> mem_state res) \<Rightarrow> mem_state
     \<Rightarrow> (int option \<times> mem_state) res" where
  "clock_turn 0 check_modified j pfi replace s = Inr (None, s)"
| "clock_turn (Suc n) check_modified j pfi replace s =
     bindE (clock_visit check_modified j pfi replace s) (\<lambda>(r, s').
       case r of Some f \<Rightarrow> Inr (Some f, s')
       | None \<Rightarrow> clock_turn n check_modified j pfi replace s')"

definition two_clock_turns ::
  "mem_state \<Rightarrow> nat \<Rightarrow> bool \<Rightarrow> (nat \<Rightarrow> page_ptr \<Rightarrow> mem_state \<Rightarrow> mem_state res) \<Rightarrow> (int \<times> mem_state) res" where
  "two_clock_turns s pfi check_modified replace =
     (let n = nat (framesPerProcess (config s))
      in bindE (clock_turn n check_modified 0 pfi replace s) (\<lambda>(r, s).
         case r of Some f \<Rightarrow> Inr (f, s)
         | None \<Rightarrow>
           bindE (clock_turn n check_modified 1 pfi replace s) (\<lambda>(r, s).
             Inr (case r of Some f \<Rightarrow> f | None \<Rightarrow> -1, s))))"

definition replace_algorithm :: "addresses \<Rightarrow> mem_state \<Rightarrow> nat \<Rightarrow> nat \<times> nat \<Rightarrow> int \<Rightarrow> (int \<times> mem_state) res" where
  "replace_algorithm addr s pfi entry p =
     (let check = (replaceAlgorithm (config s) = CLOCK_M);
          turns = (\<lambda>s. two_clock_turns s pfi check (replace_page addr pfi entry p))
      in bindE (turns s) (\<lambda>(f, s).
           if f \<noteq> -1 then Inr (f, s) else if check then turns s else Inr (f, s)))"

definition load_page :: "addresses \<Rightarrow> mem_state \<Rightarrow> nat \<Rightarrow> nat \<times> nat \<Rightarrow> int \<Rightarrow> (int \<times> mem_state) res" where
  "load_page addr s pfi entry p =
     (let s = s\<lparr>page_fault_counter := page_fault_counter s + 1\<rparr>;
          pf = processes_frames s ! pfi
      in if has_free_frame s pf then
           (case find_first_free_frame pf of
              None \<Rightarrow> Inr (-1, s)
            | Some k \<Rightarrow>
                let free_frame = frames pf ! k;
                    s = set_page entry ((page_at s entry)\<lparr>present := True, frame := fe_frame free_frame\<rparr>) s
                in Inr (fe_frame free_frame, set_frame_entry pfi k (free_frame\<lparr>page_data := Some entry\<rparr>) s))
         else
           replace_algorithm addr
             (s\<lparr>page_replacement_counter := page_replacement_counter s + 1\<rparr>) pfi entry p)"

text \<open>
  The initialiser \<open>list_get(process_frames, frames_index)\<close> names the variable being declared: its
  list argument is indeterminate.
\<close>

definition shadowed_process_frames :: "int \<Rightarrow> nat res" where
  "shadowed_process_frames frames_index = Inl UninitRead"

definition get_frame_number ::
  "addresses \<Rightarrow> mem_state \<Rightarrow> int \<Rightarrow> int \<Rightarrow> int \<Rightarrow> int \<Rightarrow> (int \<times> mem_state) res" where
  "get_frame_number addr s pt2_index entry_index p frames_index =
     bindE (deref (get_page_table2 s pt2_index)) (\<lambda>t.
     bindE (list_get (level2_tables s ! t) entry_index) (\<lambda>entry.
       if present entry then Inr (frame entry, s)
       else bindE (shadowed_process_frames frames_index) (\<lambda>pfi.
              load_page addr s pfi (t, nat entry_index) p)))"

end
