(* ===== verification/Memory.thy ===== *)
theory Memory
  imports Page_Table
begin

text \<open>
  \<^verbatim>\<open>memory/src/memory.c\<close>: the memory server. \<open>memory_init\<close>, the handshake with the CPU, and the
  handlers of the requests of kernel and CPU, in the order of the table \<open>memory_handlers\<close>.

  \<^item> A handler takes the socket it answers on, the request and the state; its answers are appended to
    \<open>sent\<close>. It returns whether the server loop goes on with this socket.
  \<^item> Requests are read with \<open>stream_take_UINT32\<close>, so a request too short is an \<open>OutOfBounds\<close> read.
  \<^item> Logging, delays and \<open>writeRead\<close> (a mutex around one \<open>memcpy\<close>) do not show in the model.
\<close>

definition send_packet :: "int \<Rightarrow> t_packet \<Rightarrow> mem_state \<Rightarrow> mem_state" where
  "send_packet sock packet s = s\<lparr>sent := sent s @ [(sock, packet)]\<rparr>"

section \<open>Initialisation and handshake\<close>

definition memory_init :: "t_memory_config \<Rightarrow> mem_state res" where
  "memory_init cfg =
     bindE (guardE (0 \<le> memorySize cfg) OutOfBounds) (\<lambda>_.
       Inr \<lparr>config = cfg, level1_tables = [], level2_tables = [], processes_frames = [],
            frames_bitmap = replicate (nat (framesInMemory cfg)) False,
            memory = replicate (nat (memorySize cfg)) 0, swap_files = (\<lambda>_. None), sent = [],
            memory_access_counter = 0, memory_read_counter = 0, memory_write_counter = 0,
            page_fault_counter = 0, page_replacement_counter = 0\<rparr>)"

definition cpu_handshake :: "int \<Rightarrow> mem_state \<Rightarrow> bool \<times> mem_state" where
  "cpu_handshake cpu_socket s =
     (let mem_data = create_packet (cpu_code TABLE_INFO_TO_CPU) INITIAL_STREAM_SIZE;
          mem_data = add_u32 mem_data (of_int (pageSize (config s)));
          mem_data = add_u32 mem_data (of_int (entriesPerTable (config s)))
      in (False, send_packet cpu_socket mem_data s))"

text \<open>The listener waits for the handshake header and drops the other headers that come before it.\<close>

fun cpu_handshake_listener :: "int \<Rightarrow> u8 list \<Rightarrow> mem_state \<Rightarrow> mem_state option" where
  "cpu_handshake_listener cpu_socket [] s = None"
| "cpu_handshake_listener cpu_socket (h # hs) s =
     (if h = memory_code MEM_HANDSHAKE
      then (let (serve, s') = cpu_handshake cpu_socket s
            in if serve then cpu_handshake_listener cpu_socket hs s' else Some s')
      else cpu_handshake_listener cpu_socket hs s)"

section \<open>The handlers\<close>

definition process_new :: "int \<Rightarrow> mem_state handler" where
  "process_new kernel_socket petition s =
     bindE (take_u32 petition) (\<lambda>(pid, petition).
     bindE (take_u32 petition) (\<lambda>(process_size, petition).
       if pid \<noteq> 0 then
         bindE (page_table_init s process_size) (\<lambda>(pt1_index, s).
         bindE (assign_process_frames s) (\<lambda>(frames_index, s).
         let s = create_swap s pid process_size;
             response = create_packet (kernel_code PROCESS_MEMORY_READY) INITIAL_STREAM_SIZE;
             response = add_u32 response pid;
             response = add_u32 response (of_int pt1_index);
             response = add_u32 response (of_int frames_index)
         in Inr (True, send_packet kernel_socket response s)))
       else Inr (True, s)))"

text \<open>The body of the inner loop of \<open>process_suspend\<close>, on entry \<open>j\<close> of second level table \<open>t\<close>.\<close>

definition suspend_entry :: "u32 \<Rightarrow> u32 \<Rightarrow> nat \<Rightarrow> nat \<Rightarrow> mem_state \<Rightarrow> mem_state res" where
  "suspend_entry pid frames_index t j s =
     bindE (if present (page_at s (t, j)) \<and> modified (page_at s (t, j))
            then bindE (save_swap s (frame (page_at s (t, j))) (page (page_at s (t, j))) (uint pid))
                   (\<lambda>s. Inr (set_page (t, j) ((page_at s (t, j))\<lparr>modified := False\<rparr>) s))
            else Inr s) (\<lambda>s.
     let s = set_page (t, j) ((page_at s (t, j))\<lparr>present := False, frame := -1\<rparr>) s
     in unassign_process_frames s (sint frames_index))"

definition suspend_table :: "u32 \<Rightarrow> u32 \<Rightarrow> int \<Rightarrow> mem_state \<Rightarrow> mem_state res" where
  "suspend_table pid frames_index slot s =
     bindE (deref_slot slot) (\<lambda>pt2_index.
     bindE (deref (get_page_table2 s pt2_index)) (\<lambda>t.
       iterE (suspend_entry pid frames_index t) [0..<length (level2_tables s ! t)] s))"

definition process_suspend :: "int \<Rightarrow> mem_state handler" where
  "process_suspend kernel_socket petition s =
     bindE (take_u32 petition) (\<lambda>(pid, petition).
     bindE (take_u32 petition) (\<lambda>(pt1_index, petition).
     bindE (take_u32 petition) (\<lambda>(frames_index, petition).
       if pid \<noteq> 0 then
         bindE (deref (get_page_table1 s (sint pt1_index))) (\<lambda>pt1.
         bindE (iterE (suspend_table pid frames_index) (level1_tables s ! pt1) s) (\<lambda>s.
         let response = create_packet (kernel_code PROCESS_SUSPENSION_READY) INITIAL_STREAM_SIZE
         in Inr (True, send_packet kernel_socket response s)))
       else Inr (True, s))))"

definition process_exit :: "int \<Rightarrow> mem_state handler" where
  "process_exit kernel_socket petition s =
     bindE (take_u32 petition) (\<lambda>(pid, petition).
     bindE (take_u32 petition) (\<lambda>(pt1_index, petition).
     bindE (take_u32 petition) (\<lambda>(frames_index, petition).
       if pid \<noteq> 0 then
         bindE (unassign_process_frames s (sint frames_index)) (\<lambda>s.
         let s = delete_swap s pid;
             response = create_packet (kernel_code PROCESS_EXIT_READY) INITIAL_STREAM_SIZE;
             response = add_u32 response pid
         in Inr (True, send_packet kernel_socket response s))
       else Inr (True, s))))"

definition access_lvl1_table :: "int \<Rightarrow> mem_state handler" where
  "access_lvl1_table cpu_socket petition s =
     bindE (take_u32 petition) (\<lambda>(pt1_index, petition).
     bindE (take_u32 petition) (\<lambda>(entry_index, petition).
       if pt1_index \<noteq> -1 then
         bindE (get_page_table2_index s pt1_index entry_index) (\<lambda>pt2_index.
         let response = create_packet (cpu_code TABLE2_TO_CPU) INITIAL_STREAM_SIZE;
             response = add_u32 response (of_int pt2_index)
         in Inr (False, send_packet cpu_socket response s))
       else Inr (False, s)))"

definition access_lvl2_table :: "addresses \<Rightarrow> int \<Rightarrow> mem_state handler" where
  "access_lvl2_table addr cpu_socket petition s =
     bindE (take_u32 petition) (\<lambda>(pid, petition).
     bindE (take_u32 petition) (\<lambda>(pt2_index, petition).
     bindE (take_u32 petition) (\<lambda>(entry_index, petition).
     bindE (take_u32 petition) (\<lambda>(frames_index, petition).
       if pt2_index \<noteq> -1 then
         bindE (get_frame_number addr s (sint pt2_index) (sint entry_index) (sint pid)
                  (sint frames_index)) (\<lambda>(f, s).
         let response = create_packet (cpu_code FRAME_TO_CPU) INITIAL_STREAM_SIZE;
             response = add_u32 response (of_int f)
         in Inr (False, send_packet cpu_socket response s))
       else Inr (False, s)))))"

definition memory_write :: "int \<Rightarrow> mem_state handler" where
  "memory_write cpu_socket petition s =
     bindE (take_u32 petition) (\<lambda>(address, petition).
     bindE (take_u32 petition) (\<lambda>(value, petition).
       if address \<noteq> 0 then
         let s = s\<lparr>memory_write_counter := memory_write_counter s + 1\<rparr>
         in bindE (write_mem s (uint address) (u32_bytes value)) (\<lambda>s.
            let answer = create_packet (cpu_code WRITE_SUCCESS) INITIAL_STREAM_SIZE
            in Inr (False, send_packet cpu_socket answer s))
       else Inr (False, s)))"

definition memory_read :: "int \<Rightarrow> mem_state handler" where
  "memory_read cpu_socket petition s =
     bindE (take_u32 petition) (\<lambda>(address, petition).
       if address \<noteq> 0 then
         let s = s\<lparr>memory_read_counter := memory_read_counter s + 1\<rparr>
         in bindE (read_mem s (uint address) 4) (\<lambda>bs.
            let answer = create_packet (cpu_code READ_ANSWER) INITIAL_STREAM_SIZE;
                answer = add_u32 answer (bytes_u32 bs)
            in Inr (False, send_packet cpu_socket answer s))
       else Inr (False, s))"

text \<open>The server loop counts an access before it calls the handler.\<close>

definition counted :: "mem_state handler \<Rightarrow> mem_state handler" where
  "counted h petition s = h petition (s\<lparr>memory_access_counter := memory_access_counter s + 1\<rparr>)"

definition memory_handlers :: "addresses \<Rightarrow> int \<Rightarrow> mem_state handler option list" where
  "memory_handlers addr sock = map (map_option counted)
     [Some (process_new sock), None, Some (access_lvl1_table sock), Some (access_lvl2_table addr sock),
      Some (memory_read sock), Some (memory_write sock), Some (process_suspend sock),
      Some (process_exit sock)]"

section \<open>The program\<close>

definition memory_packet_handler ::
  "nat \<Rightarrow> addresses \<Rightarrow> int \<Rightarrow> u8 \<Rightarrow> recv_event list \<Rightarrow> mem_state \<Rightarrow> (bool \<times> mem_state \<times> recv_event list) res option" where
  "memory_packet_handler fuel addr client_socket junk es s =
     packet_handler fuel (memory_handlers addr client_socket) junk es s"

text \<open>\<open>main\<close> up to its accept loop: \<open>headers\<close> are what the first client, the CPU, sends.\<close>

definition memory_main ::
  "(string \<Rightarrow> int) \<Rightarrow> (string \<Rightarrow> string) \<Rightarrow> int \<Rightarrow> u8 list \<Rightarrow> mem_state option res" where
  "memory_main config_get_int_value config_get_string_value cpu_socket headers =
     bindE (getMemoryConfig config_get_int_value config_get_string_value) (\<lambda>cfg.
     bindE (memory_init cfg) (\<lambda>s.
       Inr (cpu_handshake_listener cpu_socket headers s)))"

definition terminate_memory :: "int \<Rightarrow> exit_code option" where
  "terminate_memory x = (if x = SIGINT then Some EXIT_SUCCESS else None)"

end
