(* ===== verification/Frames.thy ===== *)
theory Frames
  imports Memory
begin

text \<open>
  What the memory server keeps true of tables and frames.

  \<^item> \<open>page_table_init\<close> against its closed form.
  \<^item> Frame assignment is first fit: \<open>assign_process_frames\<close> takes the lowest free frames.
  \<^item> \<open>frames_ok\<close>: the bitmap marks exactly the frames the processes hold, and no frame is held twice.
    Creating and ending processes keeps it.
\<close>

section \<open>Page tables\<close>

lemma new_level2_table_update [simp]:
  "new_level2_table (s\<lparr>level2_tables := x\<rparr>) = new_level2_table s"
  "new_level2_table (s\<lparr>level1_tables := y\<rparr>) = new_level2_table s"
  by (simp_all add: new_level2_table_def)

lemma level2_loop_eq:
  "i < length (level1_tables s) \<Longrightarrow> level2_loop n i s =
     s\<lparr>level2_tables := level2_tables s @ replicate n (new_level2_table s),
       level1_tables := (level1_tables s)[i := level1_tables s ! i
          @ map int [length (level2_tables s)..<length (level2_tables s) + n]]\<rparr>"
proof (induction n arbitrary: s)
  case (Suc n)
  then show ?case
    by (simp add: Let_def replicate_append_same upt_conv_Cons del: upt_Suc)
qed simp

lemma pages_required_level1 [simp]:
  "pages_required (s\<lparr>level1_tables := x\<rparr>) sz = pages_required s sz"
  by (simp add: pages_required_def)

lemma page_table_init_eq:
  assumes "pages_required s sz = Inr pages" and "ceil_div pages (entriesPerTable (config s)) = Inr n"
  shows "page_table_init s sz = Inr (int (length (level1_tables s)),
     s\<lparr>level1_tables := level1_tables s
          @ [map int [length (level2_tables s)..<length (level2_tables s) + nat n]],
       level2_tables := level2_tables s @ replicate (nat n) (new_level2_table s)\<rparr>)"
  using assms by (simp add: page_table_init_def Let_def level2_loop_eq nth_append list_update_append)

section \<open>First fit\<close>

definition free_frames :: "bool list \<Rightarrow> nat list" where
  "free_frames b = filter (\<lambda>i. \<not> b ! i) [0..<length b]"

definition mark :: "bool \<Rightarrow> nat list \<Rightarrow> bool list \<Rightarrow> bool list" where
  "mark v is b = fold (\<lambda>i b. b[i := v]) is b"

lemma length_mark [simp]: "length (mark v is b) = length b"
  by (induction "is" arbitrary: b) (auto simp: mark_def)

lemma mark_simps [simp]: "mark v [] b = b" "mark v (i # is) b = mark v is (b[i := v])"
  by (simp_all add: mark_def)

lemma mark_append: "mark v (is @ js) b = mark v js (mark v is b)"
  by (simp add: mark_def)

lemma nth_mark: "i < length b \<Longrightarrow> mark v is b ! i = (if i \<in> set is then v else b ! i)"
  by (induction "is" arbitrary: b) (auto simp: nth_list_update)

lemma find_unassigned_free:
  "n = int (length b) \<Longrightarrow> 0 \<le> i \<Longrightarrow> find_unassigned_from n b i =
     Inr (case filter (\<lambda>i. \<not> b ! i) [nat i..<length b] of [] \<Rightarrow> -1 | k # _ \<Rightarrow> int k)"
proof (induction n b i rule: find_unassigned_from.induct)
  case (1 n b i)
  show ?case
  proof (cases "i < n")
    case True
    then have "nat i < length b" using "1.prems" by simp
    then have upt: "[nat i..<length b] = nat i # [nat (i + 1)..<length b]"
      using "1.prems" by (simp add: upt_conv_Cons nat_add_distrib)
    have t: "test_bit b i = Inr (b ! nat i)" using True "1.prems" by (simp add: test_bit_def)
    then show ?thesis using True 1
      by (subst find_unassigned_from.simps) (auto simp: upt)
  next
    case False
    then show ?thesis using "1.prems" by (subst find_unassigned_from.simps) simp
  qed
qed

lemma free_frames_Cons:
  assumes "free_frames b = x # xs"
  shows "x < length b \<and> \<not> b ! x \<and> free_frames (b[x := True]) = xs"
proof -
  have x: "x < length b" "\<not> b ! x"
    using arg_cong [OF assms, of set] by (auto simp: free_frames_def)
  have "free_frames (b[x := True]) = filter (\<lambda>i. i \<noteq> x) (free_frames b)"
    using x by (auto simp: free_frames_def nth_list_update intro!: filter_cong)
  moreover have "distinct (x # xs)" unfolding assms [symmetric] by (simp add: free_frames_def)
  then have "filter (\<lambda>i. i \<noteq> x) xs = xs" by (auto simp: filter_id_conv)
  ultimately show ?thesis using x assms by simp
qed

definition bitmap_fits :: "mem_state \<Rightarrow> bool" where
  "bitmap_fits s \<longleftrightarrow> int (length (frames_bitmap s)) = framesInMemory (config s)"

lemma assign_loop_eq:
  "bitmap_fits s \<Longrightarrow> assign_loop n acc s =
     (let fs = take n (free_frames (frames_bitmap s))
      in Inr (acc @ map (\<lambda>i. \<lparr>fe_frame = int i, page_data = None\<rparr>) fs,
              s\<lparr>frames_bitmap := mark True fs (frames_bitmap s)\<rparr>))"
proof (induction n arbitrary: acc s)
  case (Suc n)
  have f: "find_first_unassigned_frame s = Inr (case free_frames (frames_bitmap s) of [] \<Rightarrow> -1 | k # _ \<Rightarrow> int k)"
    using Suc.prems by (simp add: find_first_unassigned_frame_def find_unassigned_free
        bitmap_fits_def free_frames_def)
  show ?case
  proof (cases "free_frames (frames_bitmap s)")
    case Nil
    then show ?thesis using Suc f by (simp add: Let_def)
  next
    case (Cons x xs)
    let ?s = "s\<lparr>frames_bitmap := (frames_bitmap s)[x := True]\<rparr>"
    have "frame_set_assigned s (int x) = Inr ?s" "bitmap_fits ?s"
      using free_frames_Cons [OF Cons] Suc.prems
      by (auto simp: frame_set_assigned_def update_bit_def bitmap_fits_def)
    then show ?thesis using Cons f free_frames_Cons [OF Cons] Suc.IH [of ?s]
      by (simp add: Let_def)
  qed
qed simp

lemma assign_process_frames_eq:
  assumes "bitmap_fits s"
  shows "assign_process_frames s =
     (let fs = take (nat (framesPerProcess (config s))) (free_frames (frames_bitmap s))
      in Inr (int (length (processes_frames s)),
              s\<lparr>frames_bitmap := mark True fs (frames_bitmap s),
                processes_frames := processes_frames s
                  @ [\<lparr>frames = map (\<lambda>i. \<lparr>fe_frame = int i, page_data = None\<rparr>) fs, clock_hand = 0\<rparr>]\<rparr>))"
  using assms by (simp add: assign_process_frames_def assign_loop_eq Let_def)

section \<open>Freeing\<close>

definition pf_frames :: "t_process_frame \<Rightarrow> int list" where
  "pf_frames pf = map fe_frame (frames pf)"

definition no_frame :: t_frame_entry where
  "no_frame = \<lparr>fe_frame = -1, page_data = None\<rparr>"

lemma unassign_iter:
  assumes "pfi < length (processes_frames s)" and "k \<le> length (frames (processes_frames s ! pfi))"
    and "\<forall>f \<in> set (take k (pf_frames (processes_frames s ! pfi))). 0 \<le> f \<and> f < int (length (frames_bitmap s))"
  shows "iterE (unassign_frame pfi) [0..<k] s =
    (let pf = processes_frames s ! pfi
     in Inr (s\<lparr>frames_bitmap := mark False (map nat (take k (pf_frames pf))) (frames_bitmap s),
               processes_frames := (processes_frames s)
                 [pfi := pf\<lparr>frames := replicate k no_frame @ drop k (frames pf)\<rparr>]\<rparr>))"
  using assms
proof (induction k)
  case (Suc k)
  let ?pf = "processes_frames s ! pfi"
  let ?s = "s\<lparr>frames_bitmap := mark False (map nat (take k (pf_frames ?pf))) (frames_bitmap s),
     processes_frames := (processes_frames s)
       [pfi := ?pf\<lparr>frames := replicate k no_frame @ drop k (frames ?pf)\<rparr>]\<rparr>"
  have k: "k < length (frames ?pf)" using Suc.prems by simp
  have tk: "take (Suc k) (pf_frames ?pf) = take k (pf_frames ?pf) @ [fe_frame (frames ?pf ! k)]"
    using k by (simp add: pf_frames_def take_Suc_conv_app_nth)
  have iter: "iterE (unassign_frame pfi) [0..<k] s = Inr ?s"
    using Suc tk by (simp add: Let_def)
  have f: "0 \<le> fe_frame (frames ?pf ! k)" "fe_frame (frames ?pf ! k) < int (length (frames_bitmap s))"
    using Suc.prems(3) by (simp_all add: tk)
  have upd: "(replicate k no_frame @ drop k (frames ?pf))[k := no_frame]
      = replicate k no_frame @ no_frame # drop (Suc k) (frames ?pf)"
    using k by (simp add: list_update_append Cons_nth_drop_Suc [symmetric])
  have "unassign_frame pfi k ?s = Inr (s\<lparr>frames_bitmap :=
        mark False (map nat (take (Suc k) (pf_frames ?pf))) (frames_bitmap s),
      processes_frames := (processes_frames s)
        [pfi := ?pf\<lparr>frames := replicate k no_frame @ no_frame # drop (Suc k) (frames ?pf)\<rparr>]\<rparr>)"
    using k f upd Suc.prems(1)
    by (simp add: unassign_frame_def frame_clear_assigned_def update_bit_def
        nth_append set_frame_entry_def no_frame_def [symmetric] tk mark_append)
  then show ?case using iter
    by (simp add: iterE_append Let_def replicate_app_Cons_same)
qed simp

lemma unassign_process_frames_eq:
  assumes "i < length (processes_frames s)"
    and "\<forall>f \<in> set (pf_frames (processes_frames s ! i)). 0 \<le> f \<and> f < int (length (frames_bitmap s))"
  shows "unassign_process_frames s (int i) =
    (let pf = processes_frames s ! i
     in Inr (s\<lparr>frames_bitmap := mark False (map nat (pf_frames pf)) (frames_bitmap s),
               processes_frames := (processes_frames s)
                 [i := pf\<lparr>frames := replicate (length (frames pf)) no_frame\<rparr>]\<rparr>))"
  using unassign_iter [of i s "length (frames (processes_frames s ! i))"] assms
  by (simp add: unassign_process_frames_def pf_frames_def Let_def)

text \<open>Freeing frames that were freed already clears bit \<open>-1\<close>.\<close>

lemma unassign_twice:
  assumes "i < length (processes_frames s)" and "frames (processes_frames s ! i) = replicate (Suc n) no_frame"
  shows "unassign_process_frames s (int i) = Inl OutOfBounds"
  using assms
  by (simp add: unassign_process_frames_def upt_conv_Cons unassign_frame_def no_frame_def
      frame_clear_assigned_def update_bit_def del: upt_Suc)

section \<open>Every frame has one owner, and the bitmap says which are taken\<close>

definition live_frames :: "t_process_frame \<Rightarrow> int list" where
  "live_frames pf = filter (\<lambda>f. f \<noteq> -1) (pf_frames pf)"

definition held :: "mem_state \<Rightarrow> int list" where
  "held s = concat (map live_frames (processes_frames s))"

definition assigned :: "bool list \<Rightarrow> int set" where
  "assigned b = {int i |i. i < length b \<and> b ! i}"

definition frames_ok :: "mem_state \<Rightarrow> bool" where
  "frames_ok s \<longleftrightarrow> bitmap_fits s \<and> distinct (held s) \<and> set (held s) = assigned (frames_bitmap s)"

lemma assigned_mark_True:
  "\<forall>i \<in> set is. i < length b \<Longrightarrow> assigned (mark True is b) = assigned b \<union> int ` set is"
  by (auto simp: assigned_def nth_mark split: if_splits)

lemma assigned_mark_False:
  "assigned (mark False is b) = assigned b - int ` set is"
  by (auto simp: assigned_def nth_mark image_iff split: if_splits)

lemma set_free_frames: "set (free_frames b) = {i. i < length b \<and> \<not> b ! i}"
  by (auto simp: free_frames_def)

lemma distinct_free_frames [simp]: "distinct (free_frames b)"
  by (simp add: free_frames_def)

lemma live_frames_new [simp]:
  "live_frames \<lparr>frames = map (\<lambda>i. \<lparr>fe_frame = int i, page_data = d\<rparr>) fs, clock_hand = h\<rparr> = map int fs"
  by (auto simp: live_frames_def pf_frames_def comp_def filter_id_conv)

lemma live_frames_freed [simp]: "live_frames (pf\<lparr>frames := replicate n no_frame\<rparr>) = []"
  by (simp add: live_frames_def pf_frames_def no_frame_def)

lemma held_split:
  assumes "i < length (processes_frames s)"
  shows "held (s\<lparr>processes_frames := (processes_frames s)[i := pf]\<rparr>) =
      concat (map live_frames (take i (processes_frames s))) @ live_frames pf
        @ concat (map live_frames (drop (Suc i) (processes_frames s)))"
    and "held s =
      concat (map live_frames (take i (processes_frames s))) @ live_frames (processes_frames s ! i)
        @ concat (map live_frames (drop (Suc i) (processes_frames s)))"
proof -
  show "held (s\<lparr>processes_frames := (processes_frames s)[i := pf]\<rparr>) =
      concat (map live_frames (take i (processes_frames s))) @ live_frames pf
        @ concat (map live_frames (drop (Suc i) (processes_frames s)))"
    using assms by (simp add: held_def upd_conv_take_nth_drop)
  show "held s =
      concat (map live_frames (take i (processes_frames s))) @ live_frames (processes_frames s ! i)
        @ concat (map live_frames (drop (Suc i) (processes_frames s)))"
    using assms unfolding held_def by (subst id_take_nth_drop [of i "processes_frames s"]) auto
qed

text \<open>Fields the ownership does not depend on.\<close>

lemma frames_ok_cong:
  "frames_bitmap s' = frames_bitmap s \<Longrightarrow> processes_frames s' = processes_frames s
     \<Longrightarrow> config s' = config s \<Longrightarrow> frames_ok s' = frames_ok s"
  by (simp add: frames_ok_def held_def bitmap_fits_def)

lemma assign_frames_ok:
  assumes ok: "frames_ok s" and r: "assign_process_frames s = Inr (i, s')"
  shows "frames_ok s'"
proof -
  let ?fs = "take (nat (framesPerProcess (config s))) (free_frames (frames_bitmap s))"
  have sub: "set ?fs \<subseteq> {i. i < length (frames_bitmap s) \<and> \<not> frames_bitmap s ! i}"
    using set_take_subset set_free_frames by metis
  then have "int ` set ?fs \<inter> assigned (frames_bitmap s) = {}"
    by (auto simp: assigned_def)
  moreover have "\<forall>i \<in> set ?fs. i < length (frames_bitmap s)" using sub by auto
  moreover have s': "s' = s\<lparr>frames_bitmap := mark True ?fs (frames_bitmap s),
      processes_frames := processes_frames s
        @ [\<lparr>frames = map (\<lambda>i. \<lparr>fe_frame = int i, page_data = None\<rparr>) ?fs, clock_hand = 0\<rparr>]\<rparr>"
    using ok r by (simp add: frames_ok_def assign_process_frames_eq Let_def)
  ultimately show ?thesis using ok
    by (auto simp: frames_ok_def held_def bitmap_fits_def assigned_mark_True distinct_map)
qed

lemma live_range:
  assumes "frames_ok s" and "i < length (processes_frames s)" and "f \<in> set (live_frames (processes_frames s ! i))"
  shows "0 \<le> f \<and> f < int (length (frames_bitmap s))"
proof -
  have "f \<in> set (held s)" using assms(2,3) by (auto simp: held_def)
  then have "f \<in> assigned (frames_bitmap s)" using assms(1) by (simp add: frames_ok_def)
  then show ?thesis by (auto simp: assigned_def)
qed

lemma unassign_iter_fault:
  assumes "k < length (frames (processes_frames s ! i))" and "i < length (processes_frames s)"
    and "\<forall>f \<in> set (take k (pf_frames (processes_frames s ! i))). 0 \<le> f \<and> f < int (length (frames_bitmap s))"
    and "fe_frame (frames (processes_frames s ! i) ! k) = -1"
  shows "iterE (unassign_frame i) [0..<length (frames (processes_frames s ! i))] s = Inl OutOfBounds"
proof -
  let ?n = "length (frames (processes_frames s ! i))"
  have "[0..<?n] = [0..<k] @ k # [Suc k..<?n]"
    using assms(1) upt_add_eq_append [of 0 k "?n - k"] by (simp add: upt_conv_Cons)
  then show ?thesis
    using unassign_iter [of i s k] assms
    by (simp add: iterE_append Let_def unassign_frame_def frame_clear_assigned_def update_bit_def nth_append)
qed

lemma unassign_returns:
  assumes ok: "frames_ok s" and i: "i < length (processes_frames s)"
    and r: "unassign_process_frames s (int i) = Inr s'"
  shows "live_frames (processes_frames s ! i) = pf_frames (processes_frames s ! i)"
proof (rule ccontr)
  let ?fs = "pf_frames (processes_frames s ! i)"
  assume "live_frames (processes_frames s ! i) \<noteq> ?fs"
  then have "\<exists>k. k < length ?fs \<and> ?fs ! k = -1"
    by (auto simp: live_frames_def filter_id_conv in_set_conv_nth)
  then obtain k where "k < length ?fs \<and> ?fs ! k = -1"
      and least: "\<forall>j<k. \<not> (j < length ?fs \<and> ?fs ! j = -1)"
    using exists_least_iff [of "\<lambda>k. k < length ?fs \<and> ?fs ! k = -1"] by blast
  then have k: "k < length ?fs" "?fs ! k = -1" "\<forall>j<k. ?fs ! j \<noteq> -1"
    by auto
  have "-1 \<notin> set (take k ?fs)" using k by (auto simp: in_set_conv_nth)
  then have "\<forall>f \<in> set (take k ?fs). f \<in> set (live_frames (processes_frames s ! i))"
    by (auto simp: live_frames_def dest: in_set_takeD)
  then have "unassign_process_frames s (int i) = Inl OutOfBounds"
    using unassign_iter_fault [of k s i] k i live_range [OF ok i]
    by (simp add: unassign_process_frames_def pf_frames_def)
  with r show False by simp
qed

lemma unassign_frames_ok:
  assumes ok: "frames_ok s" and r: "unassign_process_frames s j = Inr s'"
  shows "frames_ok s'"
proof -
  obtain i where j: "j = int i" and i: "i < length (processes_frames s)"
    using r by (auto simp: unassign_process_frames_def bindE_eq_Inr list_get_eq_Inr intro: that [of "nat j"])
  let ?pf = "processes_frames s ! i"
  have live: "live_frames ?pf = pf_frames ?pf" using unassign_returns [OF ok i] r j by simp
  then have s': "s' = s\<lparr>frames_bitmap := mark False (map nat (live_frames ?pf)) (frames_bitmap s),
     processes_frames := (processes_frames s)[i := ?pf\<lparr>frames := replicate (length (frames ?pf)) no_frame\<rparr>]\<rparr>"
    using r j unassign_process_frames_eq [OF i] live_range [OF ok i] by (simp add: Let_def)
  have img: "int ` set (map nat (live_frames ?pf)) = set (live_frames ?pf)"
    using live_range [OF ok i] by (force simp: image_iff)
  define xs where "xs = concat (map live_frames (take i (processes_frames s)))"
  define ys where "ys = concat (map live_frames (drop (Suc i) (processes_frames s)))"
  have h: "held s = xs @ live_frames ?pf @ ys"
    unfolding xs_def ys_def using i by (rule held_split)
  have h': "held s' = xs @ ys"
    using held_split(1) [OF i, of "?pf\<lparr>frames := replicate (length (frames ?pf)) no_frame\<rparr>"]
    by (simp add: s' xs_def ys_def held_def)
  have "set (held s') = set (held s) - set (live_frames ?pf)" "distinct (held s')"
    using ok unfolding frames_ok_def h h' by auto
  then show ?thesis
    using ok img by (simp add: s' frames_ok_def bitmap_fits_def assigned_mark_False)
qed

section \<open>What the server can reach\<close>

text \<open>The states of a memory server that has started and served requests without a fault.\<close>

inductive mem_reachable :: "t_memory_config \<Rightarrow> mem_state \<Rightarrow> bool" for cfg where
  start: "memory_init cfg = Inr s \<Longrightarrow> mem_reachable cfg s"
| handshake: "mem_reachable cfg s \<Longrightarrow> mem_reachable cfg (snd (cpu_handshake sock s))"
| request: "mem_reachable cfg s \<Longrightarrow> call_handler (memory_handlers addr sock) p s = Inr (serve, s')
    \<Longrightarrow> mem_reachable cfg s'"

definition no_present :: "mem_state \<Rightarrow> bool" where
  "no_present s \<longleftrightarrow> (\<forall>t \<in> set (level2_tables s). \<forall>e \<in> set t. \<not> present e)"

definition mem_inv :: "t_memory_config \<Rightarrow> mem_state \<Rightarrow> bool" where
  "mem_inv cfg s \<longleftrightarrow> config s = cfg \<and> frames_ok s \<and> no_present s"

lemma mem_inv_cong:
  "frames_bitmap s' = frames_bitmap s \<Longrightarrow> processes_frames s' = processes_frames s
     \<Longrightarrow> config s' = config s \<Longrightarrow> level2_tables s' = level2_tables s \<Longrightarrow> mem_inv cfg s' = mem_inv cfg s"
  using frames_ok_cong [of s' s] by (simp add: mem_inv_def no_present_def)

lemma mem_inv_updates [simp]:
  "mem_inv cfg (s\<lparr>sent := x\<rparr>) = mem_inv cfg s"
  "mem_inv cfg (s\<lparr>swap_files := f\<rparr>) = mem_inv cfg s"
  "mem_inv cfg (s\<lparr>memory := m\<rparr>) = mem_inv cfg s"
  "mem_inv cfg (s\<lparr>memory_access_counter := n\<rparr>) = mem_inv cfg s"
  "mem_inv cfg (s\<lparr>memory_read_counter := n\<rparr>) = mem_inv cfg s"
  "mem_inv cfg (s\<lparr>memory_write_counter := n\<rparr>) = mem_inv cfg s"
  by (rule mem_inv_cong; simp)+

lemma mem_inv_actions [simp]:
  "mem_inv cfg (send_packet sock p s) = mem_inv cfg s"
  "mem_inv cfg (create_swap s i sz) = mem_inv cfg s"
  "mem_inv cfg (delete_swap s i) = mem_inv cfg s"
  by (simp_all add: send_packet_def create_swap_def delete_swap_def)

lemma mem_inv_init: "0 \<le> framesInMemory cfg \<Longrightarrow> memory_init cfg = Inr s \<Longrightarrow> mem_inv cfg s"
  by (auto simp: memory_init_def bindE_iffs mem_inv_def frames_ok_def bitmap_fits_def held_def
      assigned_def no_present_def)

lemma page_table_init_inv:
  assumes "mem_inv cfg s" and "page_table_init s sz = Inr (i, s')"
  shows "mem_inv cfg s'"
proof -
  from assms(2) obtain pages n where "pages_required s sz = Inr pages"
      "ceil_div pages (entriesPerTable (config s)) = Inr n"
    by (auto simp: page_table_init_def Let_def bindE_eq_Inr)
  from page_table_init_eq [OF this] assms(2)
  have s': "s' = s\<lparr>level1_tables := level1_tables s
          @ [map int [length (level2_tables s)..<length (level2_tables s) + nat n]],
       level2_tables := level2_tables s @ replicate (nat n) (new_level2_table s)\<rparr>"
    by simp
  have "frames_ok s' = frames_ok s" by (rule frames_ok_cong) (simp_all add: s')
  with assms(1) show ?thesis
    by (auto simp: s' mem_inv_def no_present_def new_level2_table_def new_page_def)
qed

lemma assign_inv: "mem_inv cfg s \<Longrightarrow> assign_process_frames s = Inr (i, s') \<Longrightarrow> mem_inv cfg s'"
  using assign_frames_ok [of s i s'] assign_process_frames_eq [of s]
  by (auto simp: mem_inv_def frames_ok_def no_present_def Let_def)

lemma process_new_inv:
  "mem_inv cfg s \<Longrightarrow> process_new sock p s = Inr (b, s') \<Longrightarrow> mem_inv cfg s'"
  by (auto simp: process_new_def bindE_iffs Let_def split: if_splits
      intro: assign_inv [OF page_table_init_inv])

lemma unassign_frame_frame:
  "unassign_frame i k s = Inr s' \<Longrightarrow> config s' = config s \<and> level2_tables s' = level2_tables s"
  by (auto simp: bindE_iffs unassign_frame_def frame_clear_assigned_def set_frame_entry_def)

lemma unassign_iter_frame:
  "iterE (unassign_frame i) ks s = Inr s' \<Longrightarrow> config s' = config s \<and> level2_tables s' = level2_tables s"
  by (induction ks arbitrary: s) (auto simp: bindE_eq_Inr dest!: unassign_frame_frame)

lemma unassign_inv: "mem_inv cfg s \<Longrightarrow> unassign_process_frames s j = Inr s' \<Longrightarrow> mem_inv cfg s'"
  using unassign_frames_ok [of s j s']
  by (auto simp: mem_inv_def no_present_def unassign_process_frames_def bindE_iffs
      dest: unassign_iter_frame)

lemma process_exit_inv:
  "mem_inv cfg s \<Longrightarrow> process_exit sock p s = Inr (b, s') \<Longrightarrow> mem_inv cfg s'"
  by (auto simp: process_exit_def bindE_iffs Let_def split: if_splits dest: unassign_inv)

lemma suspend_tables_nil: "iterE (suspend_table i j) slots s = Inr s' \<Longrightarrow> s' = s"
  by (cases slots) (auto simp: suspend_table_def deref_slot_def)

lemma process_suspend_inv:
  "mem_inv cfg s \<Longrightarrow> process_suspend sock p s = Inr (b, s') \<Longrightarrow> mem_inv cfg s'"
  by (auto simp: process_suspend_def bindE_iffs Let_def split: if_splits dest!: suspend_tables_nil)

lemma access_lvl1_table_inv:
  "mem_inv cfg s \<Longrightarrow> access_lvl1_table sock p s = Inr (b, s') \<Longrightarrow> mem_inv cfg s'"
  by (auto simp: access_lvl1_table_def get_page_table2_index_def deref_slot_def bindE_iffs Let_def
      split: if_splits)

text \<open>Without a present page the page fault branch is taken, which never returns.\<close>

lemma get_frame_number_absent:
  "no_present s \<Longrightarrow> get_frame_number addr s t e q fi \<noteq> Inr r"
  by (auto simp: get_frame_number_def shadowed_process_frames_def bindE_iffs no_present_def
      get_page_table2_def deref_def list_get_eq_Inr split: if_splits) (metis nth_mem nat_less_iff)+

lemma access_lvl2_table_inv:
  "mem_inv cfg s \<Longrightarrow> access_lvl2_table addr sock p s = Inr (b, s') \<Longrightarrow> mem_inv cfg s'"
  using get_frame_number_absent
  by (fastforce simp: access_lvl2_table_def bindE_iffs mem_inv_def split: if_splits)

lemma memory_write_inv:
  "mem_inv cfg s \<Longrightarrow> memory_write sock p s = Inr (b, s') \<Longrightarrow> mem_inv cfg s'"
  by (auto simp: memory_write_def write_mem_def bindE_iffs Let_def split: if_splits)

lemma memory_read_inv:
  "mem_inv cfg s \<Longrightarrow> memory_read sock p s = Inr (b, s') \<Longrightarrow> mem_inv cfg s'"
  by (auto simp: memory_read_def bindE_iffs Let_def split: if_splits)

lemmas handler_invs = process_new_inv access_lvl1_table_inv access_lvl2_table_inv memory_read_inv
  memory_write_inv process_suspend_inv process_exit_inv

lemma call_handler_inv:
  assumes inv: "mem_inv cfg s" and r: "call_handler (memory_handlers addr sock) p s = Inr (b, s')"
  shows "mem_inv cfg s'"
proof -
  from r obtain g where "Some g \<in> set (memory_handlers addr sock)" and g: "g p s = Inr (b, s')"
    by (rule call_handler_in)
  then obtain h where h: "g = counted h"
      "h \<in> {process_new sock, access_lvl1_table sock, access_lvl2_table addr sock, memory_read sock,
        memory_write sock, process_suspend sock, process_exit sock}"
    by (simp add: memory_handlers_def) blast
  obtain s1 where "mem_inv cfg s1" "h p s1 = Inr (b, s')"
    using g inv that [of "s\<lparr>memory_access_counter := memory_access_counter s + 1\<rparr>"]
    by (simp add: h(1) counted_def)
  then show ?thesis using h(2) by (auto intro: handler_invs)
qed

lemma mem_reachable_inv:
  assumes "mem_reachable cfg s" and "0 \<le> framesInMemory cfg"
  shows "mem_inv cfg s"
  using assms
proof (induction rule: mem_reachable.induct)
  case (handshake s sock)
  then show ?case by (simp add: cpu_handshake_def Let_def)
qed (auto intro: mem_inv_init call_handler_inv)

end
