(* ===== verification/Memory_Props.thy ===== *)
theory Memory_Props
  imports Frames
begin

text \<open>
  Properties of the memory server: who owns the frames, what the requests of kernel and CPU do and which
  of them are never answered, and swap files. The witnesses run a
  memory of four frames of four bytes.
\<close>

definition request :: "memory_headers \<Rightarrow> u32 list \<Rightarrow> t_packet" where
  "request h ws = word_packet (memory_code h) ws"

lemma request_words: "4 * length ws < 2 ^ 32 \<Longrightarrow> words_left (request h ws) ws"
  by (simp add: request_def words_left_packet)

lemma request_takes:
  "bindE (take_u32 (request h [a])) (\<lambda>(a, p). f1 a) = f1 a"
  "bindE (take_u32 (request h [a, b])) (\<lambda>(a, p). bindE (take_u32 p) (\<lambda>(b, p). f2 a b)) = f2 a b"
  "bindE (take_u32 (request h [a, b, c])) (\<lambda>(a, p). bindE (take_u32 p) (\<lambda>(b, p).
     bindE (take_u32 p) (\<lambda>(c, p). f3 a b c))) = f3 a b c"
  "bindE (take_u32 (request h [a, b, c, d])) (\<lambda>(a, p). bindE (take_u32 p) (\<lambda>(b, p).
     bindE (take_u32 p) (\<lambda>(c, p). bindE (take_u32 p) (\<lambda>(d, p). f4 a b c d)))) = f4 a b c d"
  by (rule take_words(1) take_words(2) take_words(3) take_words(4); simp add: request_words)+

definition small_config :: t_memory_config where
  "small_config = \<lparr>memorySize = 16, pageSize = 4, entriesPerTable = 2, replaceAlgorithm = CLOCK,
     framesPerProcess = 2, framesInMemory = 4\<rparr>"

definition small_memory :: mem_state where
  "small_memory = (case memory_init small_config of Inr s \<Rightarrow> s | Inl e \<Rightarrow> undefined)"

lemma small_memory_eq: "memory_init small_config = Inr small_memory"
  by (simp add: small_memory_def memory_init_def small_config_def)

text \<open>
  C2. In every state the memory module reaches by its handlers from memory_init, no two live
  frame entries hold the same frame, a bit of the frame bitmap is set exactly when some process
  holds that frame, and every held frame is a frame of memory.
\<close>

theorem frames_have_one_owner:
  assumes "mem_reachable cfg s" and "0 \<le> framesInMemory cfg"
  shows "distinct (held s) \<and> (\<forall>i < length (frames_bitmap s). frames_bitmap s ! i \<longleftrightarrow> int i \<in> set (held s))
    \<and> (\<forall>f \<in> set (held s). 0 \<le> f \<and> f < framesInMemory cfg)"
proof -
  have inv: "mem_inv cfg s" using mem_reachable_inv assms by blast
  then have h: "set (held s) = assigned (frames_bitmap s)" "distinct (held s)"
      "int (length (frames_bitmap s)) = framesInMemory cfg"
    by (auto simp: mem_inv_def frames_ok_def bitmap_fits_def)
  then show ?thesis by (auto simp: assigned_def)
qed

lemma process_new_eq:
  assumes ok: "bitmap_fits s" and p: "p \<noteq> 0"
    and pages: "pages_required s sz = Inr pages" and n: "ceil_div pages (entriesPerTable (config s)) = Inr n"
  shows "process_new sock (request PROCESS_NEW [p, sz]) s =
    (let fs = take (nat (framesPerProcess (config s))) (free_frames (frames_bitmap s));
         l1 = length (level1_tables s); l2 = length (level2_tables s)
     in Inr (True, s\<lparr>
          level1_tables := level1_tables s @ [map int [l2..<l2 + nat n]],
          level2_tables := level2_tables s @ replicate (nat n) (new_level2_table s),
          frames_bitmap := mark True fs (frames_bitmap s),
          processes_frames := processes_frames s
            @ [\<lparr>frames = map (\<lambda>i. \<lparr>fe_frame = int i, page_data = None\<rparr>) fs, clock_hand = 0\<rparr>],
          swap_files := (swap_files s)(p \<mapsto> ftruncate (unat sz) (open_swap s p)),
          sent := sent s @ [(sock, add_u32 (add_u32 (add_u32
            (create_packet (kernel_code PROCESS_MEMORY_READY) INITIAL_STREAM_SIZE) p)
            (of_nat l1)) (of_nat (length (processes_frames s))))]\<rparr>))"
proof -
  have "bitmap_fits (s\<lparr>level1_tables := a, level2_tables := b\<rparr>)" for a b
    using ok by (simp add: bitmap_fits_def)
  then show ?thesis
    using page_table_init_eq [OF pages n] p
    by (simp add: process_new_def request_takes assign_process_frames_eq Let_def
        create_swap_def open_swap_def send_packet_def)
qed

lemma pages_required_floor:
  assumes "0 < pageSize (config s)" and "pageSize (config s) < 2 ^ 31" and "uint sz < 2 ^ 31"
  shows "pages_required s sz = Inr (uint sz div pageSize (config s))"
proof -
  let ?p = "pageSize (config s)"
  have u: "uint (of_int ?p :: u32) = ?p" using assms(1,2) by (simp add: uint_word_of_int_eq take_bit_int_eq_self)
  then have nz: "(of_int ?p :: u32) \<noteq> 0" using assms(1) by (metis less_irrefl unsigned_0)
  have "uint sz div ?p * 1 \<le> uint sz div ?p * ?p"
    using assms(1) by (intro mult_left_mono) (auto simp: pos_imp_zdiv_nonneg_iff)
  then have "uint sz div ?p \<le> uint sz"
    using div_mult_mod_eq [of "uint sz" ?p] pos_mod_sign [OF assms(1), of "uint sz"] by linarith
  then have b: "0 \<le> uint sz div ?p" "uint sz div ?p < 2 ^ 31"
    using assms by (simp_all add: pos_imp_zdiv_nonneg_iff)
  have "sz div of_int ?p = of_int (uint sz div ?p)" by (simp add: word_div_def u)
  moreover have "sint (of_int (uint sz div ?p) :: u32) = uint sz div ?p"
    using b by (subst int_word_sint) (simp add: mod_pos_pos_trivial)
  ultimately show ?thesis using nz by (simp add: pages_required_def Let_def)
qed

lemma ceil_div_least:
  assumes "0 \<le> a" and "0 < b"
  shows "\<exists>n. ceil_div a b = Inr n \<and> 0 \<le> n \<and> a \<le> n * b \<and> n * b < a + b \<and> (b dvd a \<longrightarrow> n * b = a)"
proof -
  define q r where "q = a div b" and "r = a mod b"
  have a: "a = q * b + r" "0 \<le> r" "r < b" "0 \<le> q" "b dvd a \<longleftrightarrow> r = 0"
    using assms by (simp_all add: q_def r_def pos_imp_zdiv_nonneg_iff dvd_eq_mod_eq_0)
  have "ceil_div a b = Inr (q + of_bool (r \<noteq> 0))"
    using assms unfolding q_def r_def
    by (cases "a = 0") (simp_all add: ceil_div_def signed_divide_int_def signed_modulo_int_def)
  moreover have "(q + of_bool (r \<noteq> 0)) * b = q * b + (if r = 0 then 0 else b)" by (simp add: distrib_right)
  ultimately show ?thesis using a by (intro exI [of _ "q + of_bool (r \<noteq> 0)"]) auto
qed

text \<open>
  C15. process_new builds one first level table with as many second level tables as the whole
  pages of the size fill (an incomplete last page is not counted, and when the whole pages fill
  their tables it has no entry at all), gives the process the lowest free frames, at most
  framesPerProcess of them, creates its swap file and answers with the pid and the two indices;
  nothing else changes.
\<close>

theorem process_new_first_fit:
  assumes ok: "bitmap_fits s" and p: "p \<noteq> 0" and ps: "0 < pageSize (config s)" "pageSize (config s) < 2 ^ 31"
    and e: "0 < entriesPerTable (config s)" and sz: "uint sz < 2 ^ 31"
  shows "\<exists>pages n. pages = uint sz div pageSize (config s)
    \<and> 0 \<le> n \<and> pages \<le> n * entriesPerTable (config s) \<and> n * entriesPerTable (config s) < pages + entriesPerTable (config s)
    \<and> (\<not> pageSize (config s) dvd uint sz \<and> entriesPerTable (config s) dvd pages \<longrightarrow>
         n * entriesPerTable (config s) * pageSize (config s) < uint sz)
    \<and> process_new sock (request PROCESS_NEW [p, sz]) s =
    (let fs = take (nat (framesPerProcess (config s))) (free_frames (frames_bitmap s));
         l1 = length (level1_tables s); l2 = length (level2_tables s)
     in Inr (True, s\<lparr>
          level1_tables := level1_tables s @ [map int [l2..<l2 + nat n]],
          level2_tables := level2_tables s @ replicate (nat n) (new_level2_table s),
          frames_bitmap := mark True fs (frames_bitmap s),
          processes_frames := processes_frames s
            @ [\<lparr>frames = map (\<lambda>i. \<lparr>fe_frame = int i, page_data = None\<rparr>) fs, clock_hand = 0\<rparr>],
          swap_files := (swap_files s)(p \<mapsto> ftruncate (unat sz) (open_swap s p)),
          sent := sent s @ [(sock, add_u32 (add_u32 (add_u32
            (create_packet (kernel_code PROCESS_MEMORY_READY) INITIAL_STREAM_SIZE) p)
            (of_nat l1)) (of_nat (length (processes_frames s))))]\<rparr>))"
proof -
  let ?pages = "uint sz div pageSize (config s)" and ?e = "entriesPerTable (config s)"
  have "0 \<le> ?pages" using ps(1) by (simp add: pos_imp_zdiv_nonneg_iff)
  from ceil_div_least [OF this e] obtain n where n: "ceil_div ?pages ?e = Inr n" "0 \<le> n" "?pages \<le> n * ?e"
      "n * ?e < ?pages + ?e" "?e dvd ?pages \<longrightarrow> n * ?e = ?pages" by blast
  have "?pages * pageSize (config s) < uint sz" if "\<not> pageSize (config s) dvd uint sz"
    using that ps(1) div_mult_mod_eq [of "uint sz" "pageSize (config s)"]
    by (smt (verit) dvd_eq_mod_eq_0 pos_mod_sign)
  then show ?thesis
    using process_new_eq [OF ok p pages_required_floor [OF ps sz] n(1), of sock] n(2-5)
    by (intro exI [of _ ?pages] exI [of _ n]) auto
qed

lemma process_new_inputs:
  assumes "process_new sock (request PROCESS_NEW [p, sz]) s = Inr (b, s1)" and "p \<noteq> 0"
  obtains pages n where "pages_required s sz = Inr pages" and "ceil_div pages (entriesPerTable (config s)) = Inr n"
  using assms by (auto simp: process_new_def request_takes page_table_init_def Let_def bindE_eq_Inr)

text \<open>What the frames of a process look like after \<open>process_new\<close>.\<close>

lemma process_new_frames:
  assumes ok: "frames_ok s" and "p \<noteq> 0" and r: "process_new sock (request PROCESS_NEW [p, sz]) s = Inr (b, s1)"
    and fs: "fs = take (nat (framesPerProcess (config s))) (free_frames (frames_bitmap s))"
  shows "processes_frames s1 = processes_frames s
      @ [\<lparr>frames = map (\<lambda>i. \<lparr>fe_frame = int i, page_data = None\<rparr>) fs, clock_hand = 0\<rparr>]"
    and "frames_bitmap s1 = mark True fs (frames_bitmap s)" and "b = True" and "config s1 = config s"
proof -
  obtain pages n where in': "pages_required s sz = Inr pages" "ceil_div pages (entriesPerTable (config s)) = Inr n"
    by (rule process_new_inputs [OF r assms(2)])
  have "bitmap_fits s" using ok by (simp add: frames_ok_def)
  from process_new_eq [OF this assms(2) in', of sock] r fs
  show "processes_frames s1 = processes_frames s
      @ [\<lparr>frames = map (\<lambda>i. \<lparr>fe_frame = int i, page_data = None\<rparr>) fs, clock_hand = 0\<rparr>]"
    "frames_bitmap s1 = mark True fs (frames_bitmap s)" "b = True" "config s1 = config s"
    by (auto simp: Let_def)
qed

lemma mark_unmark:
  assumes "\<forall>i \<in> set fs. i < length b \<and> \<not> b ! i"
  shows "mark False fs (mark True fs b) = b"
  using assms by (intro nth_equalityI) (auto simp: nth_mark)

lemma new_then_exit:
  assumes "frames_ok s" and "p \<noteq> 0" and "process_new sock (request PROCESS_NEW [p, sz]) s = Inr (b, s1)"
    and "length (processes_frames s) < 2 ^ 31"
  shows "\<exists>s2. process_exit sock (request PROCESS_EXIT [p, t, of_nat (length (processes_frames s))])
      (s1\<lparr>memory_access_counter := c\<rparr>) = Inr (True, s2)
    \<and> frames_bitmap s2 = frames_bitmap s \<and> swap_files s2 p = None \<and> held s2 = held s"
proof -
  let ?i = "length (processes_frames s)"
  define fs where "fs = take (nat (framesPerProcess (config s))) (free_frames (frames_bitmap s))"
  note new = process_new_frames [OF assms(1-3) fs_def]
  have fs: "i < length (frames_bitmap s) \<and> \<not> frames_bitmap s ! i" if "i \<in> set fs" for i
    using that in_set_takeD set_free_frames unfolding fs_def by fast
  have i: "sint (of_nat ?i :: u32) = int ?i" by (rule sint_of_nat [OF assms(4)])
  have pf: "pf_frames (processes_frames s1 ! ?i) = map int fs"
    by (simp add: new(1) pf_frames_def comp_def)
  let ?pf = "\<lparr>frames = replicate (length fs) no_frame, clock_hand = 0\<rparr>"
  let ?s1 = "s1\<lparr>memory_access_counter := c\<rparr>"
  let ?s2 = "?s1\<lparr>frames_bitmap := frames_bitmap s, processes_frames := processes_frames s @ [?pf]\<rparr>"
  have "mark False fs (frames_bitmap s1) = frames_bitmap s"
    unfolding new(2) by (rule mark_unmark) (use fs in blast)
  moreover have "map nat (pf_frames (processes_frames s1 ! ?i)) = fs"
    unfolding pf by (simp add: comp_def)
  moreover have "\<forall>f \<in> set (pf_frames (processes_frames s1 ! ?i)). 0 \<le> f \<and> f < int (length (frames_bitmap s1))"
    unfolding pf new(2) using fs by auto
  ultimately have "unassign_process_frames ?s1 (int ?i) = Inr ?s2"
    using unassign_process_frames_eq [of ?i ?s1] by (simp add: new(1) Let_def list_update_append)
  moreover have "held ?s2 = held s"
    by (simp add: held_def live_frames_def pf_frames_def no_frame_def)
  ultimately show ?thesis
    using assms(2)
    by (simp add: process_exit_def request_takes i Let_def delete_swap_def send_packet_def held_def)
qed

text \<open>
  C24. process_exit after process_new restores the frame bitmap and the held frames and removes
  the swap file.
\<close>

theorem exit_gives_frames_back:
  assumes "frames_ok s" and "p \<noteq> 0" and "process_new sock (request PROCESS_NEW [p, sz]) s = Inr (b, s1)"
    and "length (processes_frames s) < 2 ^ 31"
  shows "\<exists>s2. process_exit sock (request PROCESS_EXIT [p, t, of_nat (length (processes_frames s))]) s1 = Inr (True, s2)
    \<and> frames_bitmap s2 = frames_bitmap s \<and> swap_files s2 p = None \<and> held s2 = held s"
  using new_then_exit [OF assms, of t "memory_access_counter s1"] by simp

lemma small_reachable: "mem_reachable small_config small_memory"
  by (rule mem_reachable.start [OF small_memory_eq])

definition small_counted :: mem_state where
  "small_counted = small_memory\<lparr>memory_access_counter := memory_access_counter small_memory + 1\<rparr>"

lemma small_memory_simps:
  "config small_counted = small_config" "frames_bitmap small_counted = [False, False, False, False]"
  "processes_frames small_counted = []" "level1_tables small_counted = []" "level2_tables small_counted = []"
  "memory small_counted = replicate 16 0" "swap_files small_counted = (\<lambda>_. None)" "sent small_counted = []"
  by (simp_all add: small_counted_def small_memory_def memory_init_def small_config_def numeral_eq_Suc)

lemma small_pages:
  "pages_required small_counted 8 = Inr 2" "ceil_div 2 (entriesPerTable (config small_counted)) = Inr 1"
  by (simp_all add: pages_required_def ceil_div_def small_memory_simps small_config_def)

lemma small_ok: "frames_ok small_counted" "bitmap_fits small_counted"
proof -
  have "frames_ok small_memory"
    using mem_reachable_inv [OF small_reachable] by (simp add: mem_inv_def small_config_def)
  then show "frames_ok small_counted" using frames_ok_cong [of small_counted small_memory]
    by (simp add: small_counted_def)
  then show "bitmap_fits small_counted" by (simp add: frames_ok_def)
qed

lemma small_free: "free_frames [False, False, False, False] = [0, 1, 2, 3]"
  by (simp add: free_frames_def)

text \<open>The small memory after a process of two pages was created.\<close>

definition two_frames :: t_process_frame where
  "two_frames = \<lparr>frames = [\<lparr>fe_frame = 0, page_data = None\<rparr>, \<lparr>fe_frame = 1, page_data = None\<rparr>], clock_hand = 0\<rparr>"

lemma small_new:
  obtains s where "process_new 3 (request PROCESS_NEW [7, 8]) small_counted = Inr (True, s)"
    and "frames_bitmap s = [True, True, False, False]" and "level1_tables s = [[0]]"
    and "processes_frames s = [two_frames]" and "config s = small_config" and "mem_reachable small_config s"
proof -
  have "\<exists>s. process_new 3 (request PROCESS_NEW [7, 8]) small_counted = Inr (True, s)
    \<and> frames_bitmap s = [True, True, False, False] \<and> level1_tables s = [[0]]
    \<and> processes_frames s = [two_frames] \<and> config s = small_config"
    using process_new_eq [OF small_ok(2) _ small_pages, of 7 3]
    by (simp add: small_free small_memory_simps small_config_def two_frames_def Let_def)
  then obtain s where s: "process_new 3 (request PROCESS_NEW [7, 8]) small_counted = Inr (True, s)"
     "frames_bitmap s = [True, True, False, False]" "level1_tables s = [[0]]"
     "processes_frames s = [two_frames]" "config s = small_config" by blast
  have "call_handler (memory_handlers addr 3) (request PROCESS_NEW [7, 8]) small_memory = Inr (True, s)" for addr
    using s(1) by (simp add: call_handler_def memory_handlers_def request_def counted_def small_counted_def)
  then have "mem_reachable small_config s" by (rule mem_reachable.request [OF small_reachable])
  with s show ?thesis by (rule that)
qed

theorem frames_have_one_owner_witness:
  "\<exists>s. mem_reachable small_config s \<and> held s = [0, 1] \<and> distinct (held s)"
proof -
  obtain s where s: "mem_reachable small_config s" "processes_frames s = [two_frames]"
    using small_new by metis
  have "held s = [0, 1]" by (simp add: s(2) held_def live_frames_def pf_frames_def two_frames_def)
  moreover have "distinct (held s)" using frames_have_one_owner [OF s(1)] by (simp add: small_config_def)
  ultimately show ?thesis using s(1) by blast
qed

theorem process_new_first_fit_witness:
  "\<exists>s. process_new 3 (request PROCESS_NEW [7, 9]) small_counted = Inr (True, s)
     \<and> frames_bitmap s = [True, True, False, False] \<and> level1_tables s = [[0]]
     \<and> entriesPerTable (config s) * pageSize (config s) < 9"
proof -
  have one: "n = 1" if "1 \<le> n" "8 * n < 9" for n :: int using that by simp
  show ?thesis
    using process_new_first_fit [OF small_ok(2), of 7 9 3]
    by (auto simp: small_free small_memory_simps small_config_def Let_def dest!: one)
qed

theorem exit_gives_frames_back_witness:
  "\<exists>s1 s2. process_new 3 (request PROCESS_NEW [7, 8]) small_counted = Inr (True, s1)
     \<and> process_exit 3 (request PROCESS_EXIT [7, 0, 0]) s1 = Inr (True, s2)
     \<and> frames_bitmap s2 = [False, False, False, False]"
proof -
  obtain s1 where s1: "process_new 3 (request PROCESS_NEW [7, 8]) small_counted = Inr (True, s1)"
    using small_new by metis
  from exit_gives_frames_back [OF small_ok(1) _ s1, of 0] s1 show ?thesis
    by (auto simp: small_memory_simps)
qed

text \<open>A process that has left is told to leave again.\<close>

theorem second_process_exit_faults:
  assumes "frames_ok s" and "p \<noteq> 0" and "process_exit sock (request PROCESS_EXIT [p, t, f]) s = Inr (b, s')"
    and "frames (processes_frames s ! nat (sint f)) \<noteq> []" and "q \<noteq> 0"
  shows "process_exit sock' (request PROCESS_EXIT [q, t', f]) s' = Inl OutOfBounds"
proof -
  obtain s1 where s1: "unassign_process_frames s (sint f) = Inr s1"
    and s': "processes_frames s' = processes_frames s1"
    using assms(2,3) by (auto simp: process_exit_def request_takes Let_def bindE_eq_Inr send_packet_def delete_swap_def)
  then obtain i where i: "sint f = int i" "i < length (processes_frames s)"
    by (auto simp: unassign_process_frames_def bindE_eq_Inr list_get_eq_Inr intro: that [of "nat (sint f)"])
  let ?pf = "processes_frames s ! i"
  obtain n where n: "length (frames ?pf) = Suc n" using assms(4) i(1) by (cases "frames ?pf") auto
  have "live_frames ?pf = pf_frames ?pf" using unassign_returns [OF assms(1) i(2)] s1 i(1) by simp
  then have "\<forall>f \<in> set (pf_frames ?pf). 0 \<le> f \<and> f < int (length (frames_bitmap s))"
    using live_range [OF assms(1) i(2)] by metis
  from unassign_process_frames_eq [OF i(2) this] s1 i
  have "processes_frames s1 = (processes_frames s)[i := ?pf\<lparr>frames := replicate (Suc n) no_frame\<rparr>]"
    by (auto simp: n Let_def)
  then have "unassign_process_frames s' (int i) = Inl OutOfBounds"
    using i(2) by (intro unassign_twice [of _ _ n]) (simp_all add: s')
  then show ?thesis using assms(5) by (simp add: process_exit_def request_takes i(1))
qed

theorem second_process_exit_faults_witness:
  "\<exists>s1 s2. process_exit 3 (request PROCESS_EXIT [7, 0, 0]) s1 = Inr (True, s2)
     \<and> process_exit 3 (request PROCESS_EXIT [7, 0, 0]) s2 = Inl OutOfBounds"
proof -
  obtain s1 where s1: "process_new 3 (request PROCESS_NEW [7, 8]) small_counted = Inr (True, s1)"
      "processes_frames s1 = [two_frames]" "mem_reachable small_config s1"
    using small_new by metis
  have ok: "frames_ok s1" using mem_reachable_inv [OF s1(3)] by (simp add: mem_inv_def small_config_def)
  obtain s2 where s2: "process_exit 3 (request PROCESS_EXIT [7, 0, 0]) s1 = Inr (True, s2)"
    using new_then_exit [OF small_ok(1) _ s1(1), of 0 "memory_access_counter s1"] by (auto simp: small_memory_simps)
  from second_process_exit_faults [OF ok _ s2, of 7 3 0] s1(2) s2 show ?thesis
    by (auto simp: two_frames_def)
qed

section \<open>Reading and writing memory\<close>

text \<open>
  C27. A WRITE_CALL in bounds at a nonzero address followed by a READ_CALL there answers with
  the written value; all other bytes of memory stay.
\<close>

theorem memory_write_then_read:
  assumes "addr \<noteq> 0" and "uint addr + 4 \<le> int (length (memory s))"
  shows "\<exists>s1 s2. memory_write sock (request WRITE_CALL [addr, v]) s = Inr (False, s1)
    \<and> memory_read sock (request READ_CALL [addr]) s1 = Inr (False, s2)
    \<and> last (sent s2) = (sock, add_u32 (create_packet (cpu_code READ_ANSWER) INITIAL_STREAM_SIZE) v)
    \<and> map header (map snd (sent s2)) = map header (map snd (sent s)) @ [cpu_code WRITE_SUCCESS, cpu_code READ_ANSWER]
    \<and> length (memory s2) = length (memory s)
    \<and> (\<forall>j n. j + n \<le> unat addr \<or> unat addr + 4 \<le> j \<longrightarrow> segment j n (memory s2) = segment j n (memory s))"
proof -
  have le: "unat addr + length (u32_bytes v) \<le> length (memory s)"
  proof -
    have "int (unat addr) = uint addr" by simp
    with assms(2) have "int (unat addr + 4) \<le> int (length (memory s))" by linarith
    then show ?thesis by (simp only: of_nat_le_iff length_u32_bytes)
  qed
  let ?m = "put_at (unat addr) (u32_bytes v) (memory s)"
  have w: "write_mem s' (uint addr) (u32_bytes v) = Inr (s'\<lparr>memory := ?m\<rparr>)" if "memory s' = memory s" for s'
    using assms(2) that by (simp add: write_mem_def in_memory_def)
  have r: "read_mem s' (uint addr) 4 = Inr (u32_bytes v)" if "memory s' = ?m" for s'
    using segment_put_at [OF le] le that assms(2) by (simp add: read_mem_def in_memory_def)
  have other: "segment j n ?m = segment j n (memory s)" if "j + n \<le> unat addr \<or> unat addr + 4 \<le> j" for j n
    using segment_put_at_other [OF le] that by auto
  let ?ans = "create_packet (cpu_code WRITE_SUCCESS) INITIAL_STREAM_SIZE"
  let ?val = "add_u32 (create_packet (cpu_code READ_ANSWER) INITIAL_STREAM_SIZE) v"
  let ?s1 = "s\<lparr>memory_write_counter := memory_write_counter s + 1, memory := ?m,
     sent := sent s @ [(sock, ?ans)]\<rparr>"
  let ?s2 = "?s1\<lparr>memory_read_counter := memory_read_counter s + 1,
     sent := sent s @ [(sock, ?ans), (sock, ?val)]\<rparr>"
  have "memory_write sock (request WRITE_CALL [addr, v]) s = Inr (False, ?s1)"
    using assms(1) by (simp add: memory_write_def request_takes w Let_def send_packet_def)
  moreover have "memory_read sock (request READ_CALL [addr]) ?s1 = Inr (False, ?s2)"
    using assms(1) by (simp add: memory_read_def request_takes r Let_def send_packet_def)
  moreover have "length (memory ?s2) = length (memory s)" using le by simp
  moreover have "\<forall>j n. j + n \<le> unat addr \<or> unat addr + 4 \<le> j \<longrightarrow> segment j n (memory ?s2) = segment j n (memory s)"
    using other by simp
  ultimately show ?thesis by (intro exI [of _ ?s1] exI [of _ ?s2] conjI) simp_all
qed

theorem memory_write_then_read_witness:
  "\<exists>s1 s2. memory_write 5 (request WRITE_CALL [4, 258]) small_memory = Inr (False, s1)
     \<and> memory_read 5 (request READ_CALL [4]) s1 = Inr (False, s2)
     \<and> last (sent s2) = (5, add_u32 (create_packet (cpu_code READ_ANSWER) INITIAL_STREAM_SIZE) 258)"
proof -
  have "(4 :: u32) \<noteq> 0" "uint (4 :: u32) + 4 \<le> int (length (memory small_memory))"
    by (simp_all add: small_memory_def memory_init_def small_config_def)
  from memory_write_then_read [OF this, of 5 258] show ?thesis by blast
qed

text \<open>Address 0 is the first byte of frame 0.\<close>

theorem address_zero_unanswered:
  "memory_write sock (request WRITE_CALL [0, v]) s = Inr (False, s)
   \<and> memory_read sock (request READ_CALL [0]) s = Inr (False, s)"
  by (simp add: memory_write_def memory_read_def request_takes)

section \<open>Translation requests\<close>

text \<open>
  C31. No table request of the CPU, on either level, changes a reachable state of the memory
  module: the handler faults, or it returns without an answer.
\<close>

theorem translation_never_answered:
  assumes "mem_reachable cfg s" and "0 \<le> framesInMemory cfg"
    and "h = access_lvl1_table sock \<or> h = access_lvl2_table adr sock" and "h p s = Inr (b, s')"
  shows "b = False \<and> s' = s"
proof -
  have np: "no_present s" using mem_reachable_inv [OF assms(1,2)] by (simp add: mem_inv_def)
  from assms(3) show ?thesis
  proof
    assume "h = access_lvl1_table sock"
    with assms(4) show ?thesis
      by (auto simp: access_lvl1_table_def bindE_eq_Inr get_page_table2_index_def deref_slot_def split: if_splits)
  next
    assume "h = access_lvl2_table adr sock"
    with assms(4) get_frame_number_absent [OF np] show ?thesis
      by (auto simp: access_lvl2_table_def bindE_eq_Inr split: if_splits)
  qed
qed

theorem translation_never_answered_witness:
  "access_lvl1_table 5 (request LVL1_TABLE [-1, 0]) small_memory = Inr (False, small_memory)"
proof -
  have "\<exists>b s'. access_lvl1_table 5 (request LVL1_TABLE [-1, 0]) small_memory = Inr (b, s')"
    by (auto simp: access_lvl1_table_def request_takes)
  then obtain b s' where "access_lvl1_table 5 (request LVL1_TABLE [-1, 0]) small_memory = Inr (b, s')" by blast
  with translation_never_answered [where cfg = small_config and s = small_memory
      and h = "access_lvl1_table 5" and p = "request LVL1_TABLE [-1, 0]", OF small_reachable] show ?thesis
    by (auto simp: small_config_def)
qed

text \<open>A table number is read through as if it were an address.\<close>

theorem level1_lookup_faults:
  assumes "pages_required s sz = Inr pages" and "ceil_div pages (entriesPerTable (config s)) = Inr n"
    and "page_table_init s sz = Inr (t, s1)" and "i < nat n" and "i < 2 ^ 31" and "t < 2 ^ 31"
  shows "access_lvl1_table sock (request LVL1_TABLE [of_int t, of_nat i]) s1
    = Inl (if int (length (level2_tables s)) + int i = 0 then NullDeref else WildDeref)"
proof -
  have t: "t = int (length (level1_tables s))"
    and tb: "level1_tables s1 = level1_tables s
          @ [map int [length (level2_tables s)..<length (level2_tables s) + nat n]]"
    using page_table_init_eq [OF assms(1,2)] assms(3) by auto
  have l: "length (level1_tables s) < 2 ^ 31" using assms(6) t by simp
  then have w: "sint (of_int t :: u32) = t" using sint_of_nat [OF l] by (simp add: t)
  have "of_int t \<noteq> (- 1 :: u32)"
  proof
    assume "of_int t = (- 1 :: u32)"
    then have "t = sint (- 1 :: u32)" using w by metis
    then show False by (simp add: t)
  qed
  then show ?thesis
    using assms(4) sint_of_nat [OF assms(5)] w
    by (auto simp: access_lvl1_table_def request_takes get_page_table2_index_def get_page_table1_def t tb
        nth_append deref_slot_def list_get_def )
qed

theorem level1_lookup_faults_witness:
  "\<exists>s1. page_table_init small_counted 8 = Inr (0, s1)
     \<and> access_lvl1_table 5 (request LVL1_TABLE [0, 0]) s1 = Inl NullDeref"
proof -
  obtain s1 where s1: "page_table_init small_counted 8 = Inr (0, s1)"
    using page_table_init_eq [OF small_pages] by (simp add: small_memory_simps)
  from level1_lookup_faults [OF small_pages s1, of 0 5] s1 show ?thesis
    by (simp add: small_memory_simps)
qed

section \<open>Swap files\<close>

text \<open>
  C35. swap_write_page opens the file in append mode: the page goes to the end of the file and
  reading the page back gives its old content.
\<close>

theorem swapped_out_page_is_lost:
  assumes "0 < pageSize (config s)" and "0 \<le> pg" and "swap_files s p = Some file"
    and "int (length bs) = pageSize (config s)" and "(pg + 1) * pageSize (config s) \<le> int (length file)"
  shows "\<exists>s'. swap_write_page s p pg (Block bs) = Inr s' \<and> swap_files s' p = Some (file @ bs)
    \<and> fst (swap_get_page s' p pg) = fst (swap_get_page s p pg)"
proof -
  let ?n = "nat (pageSize (config s))" and ?k = "nat (pg * pageSize (config s))"
  have "?k + ?n = nat ((pg + 1) * pageSize (config s))"
    using assms(1,2) by (simp add: distrib_right nat_add_distrib)
  then have "?k + ?n \<le> length file" using assms(5) by linarith
  then have "segment ?k ?n (file @ bs) = segment ?k ?n file"
    by (simp add: segment_def)
  then show ?thesis
    using assms by (simp add: swap_write_page_def swap_get_page_def open_swap_def Let_def mult_less_0_iff)
qed

theorem created_swap_is_zero:
  assumes "swap_files s p = None" and "0 < pageSize (config s)" and "0 \<le> pg"
    and "(pg + 1) * pageSize (config s) \<le> uint sz"
  shows "fst (swap_get_page (create_swap s p sz) p pg) = replicate (nat (pageSize (config s))) (Some 0)"
proof -
  let ?n = "nat (pageSize (config s))" and ?k = "nat (pg * pageSize (config s))"
  have "?k + ?n = nat ((pg + 1) * pageSize (config s))"
    using assms(2,3) by (simp add: distrib_right nat_add_distrib)
  then have "?k + ?n \<le> unat sz" using nat_mono [OF assms(4)] by simp
  then have "segment ?k ?n (replicate (unat sz) (0 :: u8)) = replicate ?n 0"
    by (simp add: segment_def min_def)
  then show ?thesis
    using assms by (simp add: create_swap_def swap_get_page_def open_swap_def ftruncate_def Let_def mult_less_0_iff)
qed

definition with_file :: "mem_state" where
  "with_file = create_swap small_memory 7 8"

theorem swapped_out_page_is_lost_witness:
  "\<exists>s'. swap_write_page with_file 7 1 (Block [1, 2, 3, 4]) = Inr s'
     \<and> fst (swap_get_page s' 7 1) = replicate 4 (Some 0)"
proof -
  have f: "swap_files with_file 7 = Some (replicate 8 0)" "config with_file = small_config"
    by (simp_all add: with_file_def create_swap_def open_swap_def ftruncate_def small_memory_def memory_init_def small_config_def)
  have "fst (swap_get_page with_file 7 1) = replicate 4 (Some 0)"
    by (simp add: swap_get_page_def f open_swap_def small_config_def segment_def Let_def)
  with swapped_out_page_is_lost [OF _ _ f(1), of 1 "[1, 2, 3, 4]"] show ?thesis
    by (auto simp: f(2) small_config_def)
qed

theorem created_swap_is_zero_witness:
  "fst (swap_get_page (create_swap small_memory 7 8) 7 1) = replicate 4 (Some 0)"
  using created_swap_is_zero [of small_memory 7 1 8]
  by (simp add: small_memory_def memory_init_def small_config_def)

end
