(* ===== verification/Clock.thy ===== *)
theory Clock
  imports Memory_Props
begin

text \<open>
  How \<open>two_clock_turns\<close> looks for a victim. \<open>clock_pass_run\<close> skips a run of used pages in one step;
  from it: the first unused page is the victim, the hand walks off a list of frames shorter than
  the memory, and the first page fault of a process finds no page to replace.
\<close>

definition set_hand :: "nat \<Rightarrow> int \<Rightarrow> mem_state \<Rightarrow> mem_state" where
  "set_hand pfi h s = s\<lparr>processes_frames := (processes_frames s)[pfi := (processes_frames s ! pfi)\<lparr>clock_hand := h\<rparr>]\<rparr>"

definition unuse :: "nat \<times> nat \<Rightarrow> mem_state \<Rightarrow> mem_state" where
  "unuse p s = set_page p ((page_at s p)\<lparr>used := False\<rparr>) s"

lemma unuse_simps [simp]:
  "processes_frames (unuse p s) = processes_frames s" "config (unuse p s) = config s"
  by (simp_all add: unuse_def set_page_def)

lemma fold_unuse_simps [simp]:
  "processes_frames (fold unuse ps s) = processes_frames s" "config (fold unuse ps s) = config s"
  by (induction ps arbitrary: s) simp_all

lemma page_at_unuse:
  assumes "p \<noteq> q"
  shows "page_at (unuse p s) q = page_at s q"
  using assms
  by (cases p; cases q; cases "fst p < length (level2_tables s)")
    (auto simp: unuse_def page_at_def set_page_def nth_list_update list_update_beyond)

lemma set_hand_unuse: "unuse p (set_hand pfi h s) = set_hand pfi h (unuse p s)"
  by (simp add: unuse_def set_hand_def set_page_def page_at_def)

lemma set_hand_fold: "fold unuse ps (set_hand pfi h s) = set_hand pfi h (fold unuse ps s)"
  by (induction ps arbitrary: s) (simp_all add: set_hand_unuse)

lemma set_hand_twice: "set_hand pfi h (set_hand pfi k s) = set_hand pfi h s"
  by (cases "pfi < length (processes_frames s)") (simp_all add: set_hand_def list_update_beyond)

text \<open>What the first loop of \<open>two_clock_turns\<close> needs at a place of the hand.\<close>

definition hand_at :: "nat \<Rightarrow> nat \<Rightarrow> nat \<times> nat \<Rightarrow> mem_state \<Rightarrow> bool" where
  "hand_at pfi h p s \<longleftrightarrow> pfi < length (processes_frames s) \<and> clock_hand (processes_frames s ! pfi) = int h
     \<and> h < length (frames (processes_frames s ! pfi))
     \<and> page_data (frames (processes_frames s ! pfi) ! h) = Some p"

lemma clock_visit_used:
  assumes "hand_at pfi h p s" and "used (page_at s p)" and "int h + 1 < framesInMemory (config s)"
  shows "clock_visit False j pfi replace s = Inr (None, set_hand pfi (int h + 1) (unuse p s))"
  using assms
  by (simp add: clock_visit_def hand_at_def Let_def advance_hand_def increment_clock_hand_def unuse_def set_hand_def set_page_def)

lemma clock_pass:
  assumes "pfi < length (processes_frames s)" and "clock_hand (processes_frames s ! pfi) = int h"
    and "h + length ps \<le> length (frames (processes_frames s ! pfi))"
    and "\<forall>i < length ps. page_data (frames (processes_frames s ! pfi) ! (h + i)) = Some (ps ! i) \<and> used (page_at s (ps ! i))"
    and "distinct ps" and "int (h + length ps) < framesInMemory (config s)"
  shows "clock_turn (length ps + m) False j pfi replace s
    = clock_turn m False j pfi replace (set_hand pfi (int (h + length ps)) (fold unuse ps s))"
  using assms
proof (induction ps arbitrary: s h)
  case Nil
  have "set_hand pfi (int h) s = s" using Nil.prems by (simp add: set_hand_def list_update_same_conv)
  then show ?case by simp
next
  case (Cons p ps)
  have h: "hand_at pfi h p s" "used (page_at s p)" "int h + 1 < framesInMemory (config s)"
    using Cons.prems(4) [rule_format, of 0] Cons.prems by (auto simp: hand_at_def)
  let ?s = "set_hand pfi (int h + 1) (unuse p s)"
  have IH: "clock_turn (length ps + m) False j pfi replace ?s
    = clock_turn m False j pfi replace (set_hand pfi (int (Suc h + length ps)) (fold unuse ps ?s))"
  proof (rule Cons.IH)
    show "\<forall>i < length ps. page_data (frames (processes_frames ?s ! pfi) ! (Suc h + i)) = Some (ps ! i) \<and> used (page_at ?s (ps ! i))"
    proof (intro allI impI)
      fix i assume i: "i < length ps"
      then have "ps ! i \<noteq> p" using Cons.prems(5) by (auto simp: in_set_conv_nth)
      then show "page_data (frames (processes_frames ?s ! pfi) ! (Suc h + i)) = Some (ps ! i) \<and> used (page_at ?s (ps ! i))"
        using Cons.prems(4) [rule_format, of "Suc i"] i Cons.prems(1) page_at_unuse [of p "ps ! i" s]
        by (simp add: set_hand_def page_at_def)
    qed
  qed (use Cons.prems in \<open>simp_all add: set_hand_def\<close>)
  then show ?case using clock_visit_used [OF h] by (simp add: set_hand_fold set_hand_twice)
qed

text \<open>The frames at places \<open>h\<close>, \<open>h + 1\<close>, ... hold the pages \<open>ps\<close>, all used.\<close>

definition used_run :: "nat \<Rightarrow> nat \<Rightarrow> (nat \<times> nat) list \<Rightarrow> mem_state \<Rightarrow> bool" where
  "used_run pfi h ps s \<longleftrightarrow> pfi < length (processes_frames s)
     \<and> clock_hand (processes_frames s ! pfi) = int h
     \<and> h + length ps \<le> length (frames (processes_frames s ! pfi)) \<and> distinct ps
     \<and> (\<forall>i < length ps. page_data (frames (processes_frames s ! pfi) ! (h + i)) = Some (ps ! i)
                      \<and> used (page_at s (ps ! i)))"

lemma clock_pass_run:
  assumes "used_run pfi h ps s" and "int (h + length ps) < framesInMemory (config s)"
  shows "clock_turn (length ps + m) False j pfi replace s
    = clock_turn m False j pfi replace (set_hand pfi (int (h + length ps)) (fold unuse ps s))"
  using assms by (intro clock_pass) (auto simp: used_run_def)

lemma page_at_fold_unuse: "p \<notin> set ps \<Longrightarrow> page_at (fold unuse ps s) p = page_at s p"
  by (induction ps arbitrary: s) (auto simp: page_at_unuse)

text \<open>
  C26. CLOCK clears the use bit of the used pages it passes, replaces the page of the first
  frame whose page is not in use, and leaves the hand after it.
\<close>

theorem clock_takes_first_unused:
  assumes "used_run pfi h ps s" and "h + length ps < length (frames (processes_frames s ! pfi))"
    and "page_data (frames (processes_frames s ! pfi) ! (h + length ps)) = Some p"
    and "\<not> used (page_at s p)" and "p \<notin> set ps"
    and "int (h + length ps) < framesInMemory (config s)"
    and "int (length ps) < framesPerProcess (config s)"
    and "replace (h + length ps) (Some p) (set_hand pfi (int (h + length ps)) (fold unuse ps s)) = Inr s1"
    and "advance_hand pfi s1 = Inr s2"
  shows "two_clock_turns s pfi False replace
    = Inr (fe_frame (frames (processes_frames s2 ! pfi) ! (h + length ps)), s2)"
proof -
  let ?k = "h + length ps" and ?n = "nat (framesPerProcess (config s))"
  let ?s = "set_hand pfi (int ?k) (fold unuse ps s)"
  obtain m where m: "?n = length ps + Suc m"
    using assms(7) less_imp_Suc_add [of "length ps" ?n] by (auto simp: zless_nat_eq_int_zless)
  have pfi: "pfi < length (processes_frames s)" using assms(1) by (simp add: used_run_def)
  then have "frames (processes_frames ?s ! pfi) = frames (processes_frames s ! pfi)"
      "clock_hand (processes_frames ?s ! pfi) = int ?k" "page_at ?s p = page_at s p"
    using page_at_fold_unuse [OF assms(5), of s] by (simp_all add: set_hand_def page_at_def)
  then have "clock_visit False 0 pfi replace ?s
      = Inr (Some (fe_frame (frames (processes_frames s2 ! pfi) ! ?k)), s2)"
    using assms(2-4,8,9) by (simp add: clock_visit_def Let_def list_get_def del: of_nat_add)
  then have "clock_turn ?n False 0 pfi replace s
      = Inr (Some (fe_frame (frames (processes_frames s2 ! pfi) ! ?k)), s2)"
    using clock_pass_run [OF assms(1,6), of "Suc m" 0 replace] by (simp add: m)
  then show ?thesis by (simp add: two_clock_turns_def Let_def)
qed

text \<open>
  C37. When all pages are in use, CLOCK walks past the end of the process's frame list, because
  the hand wraps at framesInMemory, and reads a NULL entry.
\<close>

theorem clock_walks_off:
  assumes "used_run pfi 0 ps s" and "length ps = length (frames (processes_frames s ! pfi))"
    and "int (length ps) < framesPerProcess (config s) \<or> int (length ps) = framesPerProcess (config s) \<and> ps \<noteq> []"
    and "int (length ps) < framesInMemory (config s)"
  shows "two_clock_turns s pfi False replace = Inl NullDeref"
proof -
  let ?n = "nat (framesPerProcess (config s))"
  let ?s = "set_hand pfi (int (length ps)) (fold unuse ps s)"
  have pfi: "pfi < length (processes_frames s)" using assms(1) by (simp add: used_run_def)
  then have off: "clock_visit False j pfi replace ?s = Inl NullDeref" for j
    using assms(2) by (simp add: clock_visit_def set_hand_def list_get_def)
  have "length ps < ?n \<or> ?n = length ps \<and> ps \<noteq> []"
    using assms(3) by (auto simp: zless_nat_eq_int_zless)
  then consider m where "?n = length ps + Suc m" | m where "?n = length ps" "?n = Suc m"
    using less_imp_Suc_add [of "length ps" ?n] by (cases ps) auto
  then show ?thesis
  proof cases
    case 1
    then show ?thesis
      using clock_pass_run [OF assms(1), of "Suc m" 0 replace] assms(4) off
      by (simp add: two_clock_turns_def Let_def)
  next
    case 2
    then have "clock_turn ?n False 0 pfi replace s = Inr (None, ?s)"
      using clock_pass_run [OF assms(1), of 0 0 replace] assms(4) by simp
    moreover have "clock_turn ?n False 1 pfi replace ?s = Inl NullDeref"
      unfolding 2(2) by (simp add: off)
    ultimately show ?thesis by (simp add: two_clock_turns_def Let_def)
  qed
qed

text \<open>
  \<open>load_page\<close> for a process whose \<open>framesPerProcess\<close> frames are all assigned and hold no page: no frame
  counts as free, and the replacement dereferences a NULL page. The handler of the source does not get
  here, since it reads an indeterminate pointer before (\<^verbatim>\<open>memory/src/page_table.c\<close>, line 148).
\<close>

theorem first_page_fault:
  assumes "pfi < length (processes_frames s)" and "processes_frames s ! pfi = \<lparr>frames = fs, clock_hand = 0\<rparr>"
    and "fs \<noteq> []" and "\<forall>fe \<in> set fs. fe_frame fe \<noteq> -1 \<and> page_data fe = None"
    and "int (length fs) = framesPerProcess (config s)"
  shows "load_page adr s pfi entry p = Inl NullDeref"
proof -
  obtain m where m: "nat (framesPerProcess (config s)) = Suc m"
  proof -
    have "nat (framesPerProcess (config s)) = length fs" using assms(5) by simp
    then show ?thesis using that assms(3) by (cases fs) auto
  qed
  have "filter (\<lambda>entry. fe_frame entry \<noteq> -1) fs = fs" using assms(4) by simp
  then have nf: "\<not> has_free_frame s' (processes_frames s ! pfi)" if "config s' = config s" for s'
    using assms(2,5) that by (simp add: has_free_frame_def)
  have "page_data (fs ! 0) = None" using assms(3,4) by (cases fs) auto
  then have visit: "clock_visit c 0 pfi replace s' = Inl NullDeref"
    if "processes_frames s' = processes_frames s" for c replace s'
    using assms(2,3) that by (simp add: clock_visit_def list_get_def)
  show ?thesis
    by (simp add: load_page_def nf replace_algorithm_def two_clock_turns_def m visit Let_def)
qed

text \<open>Two frames that hold the two pages of a process; the first page is used, the second is if \<open>u\<close>.\<close>

definition clock_memory :: "bool \<Rightarrow> mem_state" where
  "clock_memory u = small_memory\<lparr>
     level2_tables := [[(new_page 0)\<lparr>present := True, frame := 0, used := True\<rparr>,
                        (new_page 1)\<lparr>present := True, frame := 1, used := u\<rparr>]],
     processes_frames := [\<lparr>frames = [\<lparr>fe_frame = 0, page_data = Some (0, 0)\<rparr>,
                                     \<lparr>fe_frame = 1, page_data = Some (0, 1)\<rparr>], clock_hand = 0\<rparr>]\<rparr>"

lemma clock_memory_simps [simp]:
  "config (clock_memory u) = small_config"
  "processes_frames (clock_memory u) = [\<lparr>frames = [\<lparr>fe_frame = 0, page_data = Some (0, 0)\<rparr>,
      \<lparr>fe_frame = 1, page_data = Some (0, 1)\<rparr>], clock_hand = 0\<rparr>]"
  "used (page_at (clock_memory u) (0, 0))" "used (page_at (clock_memory u) (0, Suc 0)) = u"
  by (simp_all add: clock_memory_def small_memory_def memory_init_def small_config_def page_at_def)

theorem clock_takes_first_unused_witness:
  "\<exists>s. two_clock_turns (clock_memory False) 0 False (\<lambda>k p s. Inr s) = Inr (1, s)"
proof -
  let ?s1 = "set_hand 0 (int (0 + length [(0 :: nat, 0 :: nat)])) (fold unuse [(0, 0)] (clock_memory False))"
  let ?s2 = "set_hand 0 2 ?s1"
  have run: "used_run 0 0 [(0, 0)] (clock_memory False)" by (simp add: used_run_def)
  have adv: "advance_hand 0 ?s1 = Inr ?s2"
    by (simp add: advance_hand_def set_hand_def increment_clock_hand_def small_config_def)
  show ?thesis
    using clock_takes_first_unused [OF run, of "(0, 1)" "\<lambda>k p s. Inr s" ?s1 ?s2] adv
    by (auto simp: small_config_def set_hand_def)
qed

theorem clock_walks_off_witness:
  "two_clock_turns (clock_memory True) 0 False (\<lambda>k p s. Inr s) = Inl NullDeref"
proof -
  have run: "used_run 0 0 [(0, 0), (0, 1)] (clock_memory True)"
    by (simp add: used_run_def less_Suc_eq)
  show ?thesis by (rule clock_walks_off [OF run]) (simp_all add: small_config_def)
qed

theorem first_page_fault_witness:
  "load_page \<lparr>swap_block = [], frame_record = 0\<rparr> (small_memory\<lparr>processes_frames := [two_frames]\<rparr>) 0 (0, 0) 7
     = Inl NullDeref"
proof -
  let ?s = "small_memory\<lparr>processes_frames := [two_frames]\<rparr>"
  have c: "config ?s = small_config" by (simp add: small_memory_def memory_init_def small_config_def)
  have pf: "0 < length (processes_frames ?s)"
    "processes_frames ?s ! 0 = \<lparr>frames = frames two_frames, clock_hand = 0\<rparr>"
    by (simp_all add: two_frames_def)
  show ?thesis
    by (rule first_page_fault [OF pf]) (simp_all add: c [simplified] small_config_def two_frames_def)
qed

end
