(* ===== verification/Double.thy ===== *)
theory Double
  imports Complex_Main "HOL-Library.Log_Nat"
begin

text \<open>
  The \<open>double\<close>s of the burst estimate (\<^verbatim>\<open>kernel/src/kernel.c\<close>, line 588): a \<open>double\<close> is the real number
  it stands for, and each operation of the source is the operation on reals followed by
  \<open>round_double\<close>, the rounding of IEEE 754 binary64: to the nearest number with 53 significant bits
  whose last bit is not below \<open>2\<close> to the \<open>-1074\<close>, ties to the even one. Overflow, infinities and NaNs
  are left out: the results of the estimate are below \<open>2 ^ 34\<close>.
\<close>

definition round_half_even :: "real \<Rightarrow> int" where
  "round_half_even z =
     (let n = \<lfloor>z\<rfloor>; d = z - of_int n
      in if d < 1 / 2 \<or> (d = 1 / 2 \<and> even n) then n else n + 1)"

definition last_bit :: nat where "last_bit = 1074"

text \<open>The bits of \<open>x\<close>, counted from the last one a \<open>double\<close> may have, that do not fit in 53.\<close>

definition lost_bits :: "real \<Rightarrow> nat" where
  "lost_bits x = floorlog 2 (nat \<lfloor>\<bar>x\<bar> * 2 ^ last_bit\<rfloor>) - 53"

definition round_double :: "real \<Rightarrow> real" where
  "round_double x =
     (let unit = 2 ^ lost_bits x / 2 ^ last_bit in of_int (round_half_even (x / unit)) * unit)"

lemma round_half_even_near: "\<bar>of_int (round_half_even z) - z\<bar> \<le> 1 / 2"
proof -
  have "of_int \<lfloor>z\<rfloor> \<le> z" "z < of_int \<lfloor>z\<rfloor> + 1" by linarith+
  then show ?thesis unfolding round_half_even_def Let_def by (auto simp: abs_le_iff)
qed

lemma lost_bits_le:
  assumes "\<bar>x\<bar> < 2 ^ m"
  shows "lost_bits x \<le> m + last_bit - 53"
proof -
  have "\<bar>x\<bar> * 2 ^ last_bit < of_int (2 ^ (m + last_bit))" using assms by (simp add: power_add)
  then have "\<lfloor>\<bar>x\<bar> * 2 ^ last_bit\<rfloor> < 2 ^ (m + last_bit)" unfolding floor_less_iff .
  then have "nat \<lfloor>\<bar>x\<bar> * 2 ^ last_bit\<rfloor> < 2 ^ (m + last_bit)" by (simp add: nat_less_iff)
  then have "floorlog 2 (nat \<lfloor>\<bar>x\<bar> * 2 ^ last_bit\<rfloor>) \<le> m + last_bit" by (simp add: floorlog_le_iff)
  then show ?thesis by (simp add: lost_bits_def)
qed

lemma round_double_error:
  assumes "\<bar>x\<bar> < 2 ^ m"
  shows "\<bar>round_double x - x\<bar> \<le> 2 ^ m / 2 ^ 54"
proof -
  define u :: real where "u = 2 ^ lost_bits x / 2 ^ last_bit"
  have u0: "0 < u" by (simp add: u_def)
  have "53 + lost_bits x \<le> m + last_bit" using lost_bits_le [OF assms] by (simp add: last_bit_def)
  then have "(2 :: real) ^ (53 + lost_bits x) \<le> 2 ^ (m + last_bit)" by (rule power_increasing) simp
  then have "(2 :: real) ^ 53 * 2 ^ lost_bits x \<le> 2 ^ m * 2 ^ last_bit" by (simp only: power_add)
  then have u: "u \<le> 2 ^ m / 2 ^ 53" by (simp add: u_def field_simps)
  have "round_double x - x = (of_int (round_half_even (x / u)) - x / u) * u"
    using u0 unfolding round_double_def u_def [symmetric] Let_def by (simp add: left_diff_distrib)
  then have "\<bar>round_double x - x\<bar> = \<bar>of_int (round_half_even (x / u)) - x / u\<bar> * u"
    using u0 by (simp add: abs_mult)
  also have "\<dots> \<le> 1 / 2 * u" using round_half_even_near u0 by (intro mult_right_mono) auto
  finally show ?thesis using u by simp
qed

text \<open>A rounding by its 53 bits: the scaled number lies between \<open>2 ^ 52\<close> and \<open>2 ^ 53\<close>.\<close>

lemma round_double_scaled:
  assumes "2 ^ 52 \<le> \<bar>z\<bar>" and "\<bar>z\<bar> < 2 ^ 53" and "s \<le> 1074"
  shows "round_double (z / 2 ^ s) = of_int (round_half_even z) / 2 ^ s"
proof -
  define t where "t = last_bit - s"
  have s: "(2 :: real) ^ last_bit = 2 ^ s * 2 ^ t"
    using assms(3) by (simp add: t_def last_bit_def flip: power_add)
  have X: "\<bar>z / 2 ^ s\<bar> * 2 ^ last_bit = \<bar>z\<bar> * 2 ^ t" unfolding s by simp
  have lo: "of_int (2 ^ (52 + t)) \<le> \<bar>z\<bar> * 2 ^ t" and hi: "\<bar>z\<bar> * 2 ^ t < of_int (2 ^ (53 + t))"
    using assms(1,2) by (simp_all add: power_add)
  have "2 ^ (52 + t) \<le> nat \<lfloor>\<bar>z\<bar> * 2 ^ t\<rfloor>"
    using lo unfolding le_floor_iff [symmetric] by (simp add: le_nat_iff)
  then have "53 + t \<le> floorlog 2 (nat \<lfloor>\<bar>z\<bar> * 2 ^ t\<rfloor>)" by (intro floorlog_geI) simp_all
  moreover have "nat \<lfloor>\<bar>z\<bar> * 2 ^ t\<rfloor> < 2 ^ (53 + t)"
    using hi unfolding floor_less_iff [symmetric] by (simp add: nat_less_iff)
  then have "floorlog 2 (nat \<lfloor>\<bar>z\<bar> * 2 ^ t\<rfloor>) \<le> 53 + t" by (simp add: floorlog_le_iff)
  ultimately have k: "lost_bits (z / 2 ^ s) = t" unfolding lost_bits_def X by simp
  have u: "(2 :: real) ^ t / 2 ^ last_bit = 1 / 2 ^ s" unfolding s by simp
  show ?thesis unfolding round_double_def k Let_def u by simp
qed

lemma round_double_zero [simp]: "round_double 0 = 0"
  by (simp add: round_double_def round_half_even_def)

end
