(* ===== verification/Kernel.thy ===== *)
theory Kernel
  imports Complex_Main Double Process_Utils Networking Socket_Headers PQueue "HOL-Library.Multiset"
begin

text \<open>
  \<^verbatim>\<open>kernel/src/kernel.c\<close> and \<^verbatim>\<open>kernel/src/utils.c\<close>: the kernel, its queues of pcbs, its three
  schedulers and the handlers of what consoles, CPU and memory send.

  \<^item> Pcbs are shared through pointers, so they live in a \<open>heap\<close>; queues and threads hold addresses.
    Reading a freed pcb is \<open>UseAfterFree\<close>.
  \<^item> Each detached thread is a machine whose control point is the blocking call it is at; what it
    does from one blocking call to the next is one step, a function with result \<open>None\<close> when it
    waits. The handlers of received packets are functions too, of the shape the server loop takes.
  \<^item> Times are the \<open>int\<close> milliseconds of the source, 32-bit words; the current time of a call of
    \<open>gettimeofday\<close> is a parameter. \<open>usleep\<close> is recorded in \<open>io_slept\<close>, in microseconds.
  \<^item> \<open>list_sort\<close> of the commons library is the parameter \<open>srt\<close>, and an object from \<open>malloc\<close> starts
    as the parameter \<open>junk\<close>.
  \<^item> The operations on \<open>double\<close> in the burst estimate are those on \<open>real\<close>s, each followed by \<open>round_double\<close>.
  \<^item> An operation of a queue is one step here; the theories \<open>PQueue\<close> and \<open>Hand_Off\<close> take them apart.
\<close>

datatype e_sortingAlgorithm = FIFO | SRT

datatype to_ready_pc =
    TR_WaitAny | TR_WaitMultiprogram | TR_Check
  | TR_Sent nat                    \<comment> \<open>\<open>new_to_ready\<close> asked memory, about to queue the pcb\<close>
  | TR_WaitTable nat               \<comment> \<open>\<open>new_to_ready\<close> waits for memory\<close>
  | TR_Put nat bool                \<comment> \<open>about to lock in \<open>put_to_ready\<close>; called by \<open>new_to_ready\<close>?\<close>
  | TR_WaitInterrupt nat bool
  | TR_Log nat                     \<comment> \<open>the log call at the end of \<open>new_to_ready\<close>\<close>

datatype to_exec_pc = TE_WaitReady | TE_WaitCpu | TE_Lock | TE_Take

datatype io_pc =
    IO_Wait | IO_Run
  | IO_Put nat | IO_WaitInterrupt nat
  | IO_WaitSuspension nat

datatype exit_pc =
    EX_Wait | EX_Take
  | EX_Sent nat                    \<comment> \<open>asked memory, about to queue the pcb\<close>

datatype thread = ToReady | ToExec | IoListener

record kernel =
  heap :: "nat \<Rightarrow> t_pcb option"
  next_addr :: nat
  new_q :: "nat t_pQueue"
  ready_q :: "nat t_pQueue"
  memory_init_q :: "nat t_pQueue"
  memory_exit_q :: "nat t_pQueue"
  blocked_q :: "nat t_pQueue"
  suspended_ready_q :: "nat t_pQueue"
  suspended_block_q :: "nat t_pQueue"
  exit_q :: "nat t_pQueue"
  to_exit :: nat
  sem_multiprogram :: nat
  interrupt_ready :: nat
  any_for_ready :: nat
  process_for_IO :: nat
  ready_for_exec :: nat
  cpu_free :: nat
  pcb_table_ready :: nat
  waiting_for_suspension :: nat
  execution_mutex :: "thread option"
  last_pid :: int
  toExecTime :: u32
  sortingAlgorithm :: e_sortingAlgorithm
  initialEstimate :: u32
  alpha :: real
  maxBlockedTime :: int
  cpu_dispatch_socket :: int
  memory_socket :: int
  to_ready_at :: to_ready_pc
  to_exec_at :: to_exec_pc
  io_at :: io_pc
  exit_at :: exit_pc
  cpu_out :: "t_packet list"
  interrupts_out :: "u8 list"
  memory_out :: "t_packet list"
  console_out :: "(u32 \<times> u8) list"
  io_slept :: "u32 list"
  terminated :: bool

section \<open>Start\<close>

definition choose_scheduler :: "string \<Rightarrow> e_sortingAlgorithm" where
  "choose_scheduler name =
     (if name = ''SRT'' then SRT else if name = ''FIFO'' then FIFO else FIFO)"

text \<open>The globals as \<open>main\<close> sets them before it connects.\<close>

definition kernel_init :: "string \<Rightarrow> u32 \<Rightarrow> real \<Rightarrow> nat \<Rightarrow> int \<Rightarrow> kernel" where
  "kernel_init schedulerAlgorithm estimate a multiprogrammingLevel maxBlocked =
     \<lparr>heap = (\<lambda>_. None), next_addr = 0,
      new_q = pQueue_create, ready_q = pQueue_create, memory_init_q = pQueue_create,
      memory_exit_q = pQueue_create, blocked_q = pQueue_create,
      suspended_ready_q = pQueue_create, suspended_block_q = pQueue_create, exit_q = pQueue_create,
      to_exit = 0, sem_multiprogram = multiprogrammingLevel, interrupt_ready = 0,
      any_for_ready = 0, process_for_IO = 0, ready_for_exec = 0, cpu_free = 1,
      pcb_table_ready = 0, waiting_for_suspension = 1, execution_mutex = None,
      last_pid = 0, toExecTime = 0, sortingAlgorithm = choose_scheduler schedulerAlgorithm,
      initialEstimate = estimate, alpha = a, maxBlockedTime = maxBlocked,
      cpu_dispatch_socket = 0, memory_socket = 0, to_ready_at = TR_WaitAny, to_exec_at = TE_WaitReady, io_at = IO_Wait, exit_at = EX_Wait,
      cpu_out = [], interrupts_out = [], memory_out = [], console_out = [], io_slept = [],
      terminated = False\<rparr>"

text \<open>The configuration file is read by the commons library, a parameter.\<close>

record t_kernel_config =
  kc_memoryIP :: string
  kc_memoryPort :: string
  kc_cpuIP :: string
  kc_cpuPortDispatch :: string
  kc_cpuPortInterrupt :: string
  kc_listenPort :: string
  kc_schedulerAlgorithm :: string
  kc_initialEstimate :: u32
  kc_alpha :: real
  kc_multiprogrammingLevel :: int
  kc_maxBlockedTime :: int

definition getKernelConfig ::
  "(string \<Rightarrow> string) \<Rightarrow> (string \<Rightarrow> int) \<Rightarrow> (string \<Rightarrow> real) \<Rightarrow> t_kernel_config" where
  "getKernelConfig get_string get_int get_double =
     \<lparr>kc_memoryIP = get_string ''IP_MEMORIA'',
      kc_memoryPort = get_string ''PUERTO_MEMORIA'',
      kc_cpuIP = get_string ''IP_CPU'',
      kc_cpuPortDispatch = get_string ''PUERTO_CPU_DISPATCH'',
      kc_cpuPortInterrupt = get_string ''PUERTO_CPU_INTERRUPT'',
      kc_listenPort = get_string ''PUERTO_ESCUCHA'',
      kc_schedulerAlgorithm = get_string ''ALGORITMO_PLANIFICACION'',
      kc_initialEstimate = of_int (get_int ''ESTIMACION_INICIAL''),
      kc_alpha = get_double ''ALFA'',
      kc_multiprogrammingLevel = get_int ''GRADO_MULTIPROGRAMACION'',
      kc_maxBlockedTime = get_int ''TIEMPO_MAXIMO_BLOQUEADO''\<rparr>"

text \<open>
  \<open>terminate_kernel\<close> is also the signal handler: it has a case for \<open>SIGINT\<close>, which releases everything
  and exits, and none for the other values it is called with.
\<close>

definition terminate_kernel :: "int \<Rightarrow> kernel \<Rightarrow> kernel" where
  "terminate_kernel x s = (if x = SIGINT then s\<lparr>terminated := True\<rparr> else s)"

text \<open>
  \<open>main\<close> up to its accept loop, given the sockets it got: the threads it starts are where
  \<open>kernel_init\<close> puts them, at their first blocking call. The level of multiprogramming is not negative,
  as \<open>sem_init\<close> asks.
\<close>

definition kernel_main :: "t_kernel_config \<Rightarrow> int \<Rightarrow> int \<Rightarrow> int \<Rightarrow> int \<Rightarrow> kernel" where
  "kernel_main cfg cpu_dispatch cpu_interrupt memory server =
     (let s = kernel_init (kc_schedulerAlgorithm cfg) (kc_initialEstimate cfg) (kc_alpha cfg)
                (nat (kc_multiprogrammingLevel cfg)) (kc_maxBlockedTime cfg);
          s = s\<lparr>cpu_dispatch_socket := cpu_dispatch, memory_socket := memory\<rparr>;
          s = (if cpu_dispatch = -1 \<or> cpu_interrupt = -1 \<or> memory = -1
               then terminate_kernel 1 s else s)
      in if server = -1 then terminate_kernel 1 s else s)"

text \<open>A kernel that could not connect to anything goes on.\<close>

lemma kernel_main_never_ends: "terminated (kernel_main cfg a b c d) = False"
  by (simp add: kernel_main_def terminate_kernel_def SIGINT_def kernel_init_def Let_def)

section \<open>Pcbs on the heap\<close>

definition load_pcb :: "kernel \<Rightarrow> nat \<Rightarrow> t_pcb res" where
  "load_pcb s a = (case heap s a of None \<Rightarrow> Inl UseAfterFree | Some p \<Rightarrow> Inr p)"

definition store_pcb :: "nat \<Rightarrow> t_pcb \<Rightarrow> kernel \<Rightarrow> kernel" where
  "store_pcb a p s = s\<lparr>heap := (heap s)(a \<mapsto> p)\<rparr>"

definition alloc_pcb :: "t_pcb \<Rightarrow> kernel \<Rightarrow> nat \<times> kernel" where
  "alloc_pcb p s = (next_addr s, s\<lparr>heap := (heap s)(next_addr s \<mapsto> p), next_addr := next_addr s + 1\<rparr>)"

definition pcb_destroy :: "nat \<Rightarrow> kernel \<Rightarrow> kernel res" where
  "pcb_destroy a s = bindE (load_pcb s a) (\<lambda>_. Inr (s\<lparr>heap := (heap s)(a := None)\<rparr>))"

text \<open>A \<open>pQueue_take\<close> whose caller goes on to read the pcb it got; \<open>None\<close> when it waits.\<close>

definition take_pcb_from :: "nat t_pQueue \<Rightarrow> kernel \<Rightarrow> (nat \<times> t_pcb \<times> nat t_pQueue) option res" where
  "take_pcb_from q s =
     (case pQueue_take q of
        None \<Rightarrow> Inr None
      | Some (None, q) \<Rightarrow> Inl NullDeref
      | Some (Some a, q) \<Rightarrow> bindE (load_pcb s a) (\<lambda>pcb. Inr (Some (a, pcb, q))))"

definition when_taken ::
  "(nat \<times> t_pcb \<times> nat t_pQueue) option res \<Rightarrow> (nat \<Rightarrow> t_pcb \<Rightarrow> nat t_pQueue \<Rightarrow> kernel res) \<Rightarrow> kernel option res"
where
  "when_taken r f =
     bindE r (\<lambda>t. case t of
       None \<Rightarrow> Inr None
     | Some (a, pcb, q) \<Rightarrow> bindE (f a pcb q) (\<lambda>s. Inr (Some s)))"

definition memory_request :: "memory_headers \<Rightarrow> u32 list \<Rightarrow> t_packet" where
  "memory_request h args =
     fold (\<lambda>v p. add_u32 p v) args (create_packet (memory_code h) INITIAL_STREAM_SIZE)"

definition send_memory_request :: "memory_headers \<Rightarrow> u32 list \<Rightarrow> kernel \<Rightarrow> kernel" where
  "send_memory_request h args s =
     s\<lparr>memory_out := (if memory_socket s \<noteq> -1 then memory_out s @ [memory_request h args] else memory_out s)\<rparr>"

section \<open>Putting a process in the ready queue\<close>

definition SJF_sort :: "t_pcb \<Rightarrow> t_pcb \<Rightarrow> bool" where
  "SJF_sort pcb1 pcb2 \<longleftrightarrow> sint (left_burst_estimation pcb1) \<le> sint (left_burst_estimation pcb2)"

type_synonym sorter = "(nat \<Rightarrow> nat \<Rightarrow> bool) \<Rightarrow> nat list \<Rightarrow> nat list"

definition sort_ready :: "sorter \<Rightarrow> kernel \<Rightarrow> kernel res" where
  "sort_ready srt s =
     bindE (guardE (\<forall>a \<in> set (lib_queue (ready_q s)). heap s a \<noteq> None) UseAfterFree) (\<lambda>_.
       Inr (s\<lparr>ready_q := pQueue_sort srt (ready_q s)
                (\<lambda>a b. SJF_sort (the (heap s a)) (the (heap s b)))\<rparr>))"

text \<open>
  \<open>put_to_ready\<close> from its lock on: \<open>False\<close> in the result when it now waits for \<open>interrupt_ready\<close>
  with the mutex held; \<open>put_to_ready_finish\<close> is what follows that wait.
\<close>

definition put_to_ready_unlock :: "kernel \<Rightarrow> kernel" where
  "put_to_ready_unlock s = s\<lparr>execution_mutex := None, ready_for_exec := ready_for_exec s + 1\<rparr>"

definition put_to_ready :: "sorter \<Rightarrow> thread \<Rightarrow> nat \<Rightarrow> kernel \<Rightarrow> (bool \<times> kernel) res" where
  "put_to_ready srt me a s =
     (let s = s\<lparr>execution_mutex := Some me, ready_q := pQueue_put (ready_q s) a\<rparr>
      in if sortingAlgorithm s = FIFO then Inr (True, put_to_ready_unlock s)
         else if cpu_free s = 0 then
           bindE (load_pcb s a) (\<lambda>_.
             Inr (False, s\<lparr>interrupts_out := interrupts_out s @ [cpu_code INTERRUPT]\<rparr>))
         else bindE (sort_ready srt s) (\<lambda>s. Inr (True, put_to_ready_unlock s)))"

definition put_to_ready_finish :: "sorter \<Rightarrow> kernel \<Rightarrow> kernel res" where
  "put_to_ready_finish srt s =
     bindE (sort_ready srt (s\<lparr>interrupt_ready := interrupt_ready s - 1\<rparr>)) (\<lambda>s.
       Inr (put_to_ready_unlock s))"

section \<open>Long and medium term scheduler: the thread \<open>to_ready\<close>\<close>

text \<open>
  \<open>new_to_ready\<close> up to the sending of its request. The answer may arrive before the pcb is in
  \<open>memory_init_q\<close>, so putting it there is a step of its own.
\<close>

definition ask_tables :: "nat \<Rightarrow> t_pcb \<Rightarrow> nat t_pQueue \<Rightarrow> kernel \<Rightarrow> kernel" where
  "ask_tables a pcb q s =
     (send_memory_request PROCESS_NEW [pid pcb, pcb_size pcb] (s\<lparr>new_q := q\<rparr>))
       \<lparr>to_ready_at := TR_Sent a\<rparr>"

definition new_to_ready :: "kernel \<Rightarrow> kernel option res" where
  "new_to_ready s =
     when_taken (take_pcb_from (new_q s) s) (\<lambda>a pcb q. Inr (ask_tables a pcb q s))"

definition suspended_to_ready :: "kernel \<Rightarrow> kernel option res" where
  "suspended_to_ready s =
     when_taken (take_pcb_from (suspended_ready_q s) s) (\<lambda>a pcb q.
       Inr (s\<lparr>suspended_ready_q := q, to_ready_at := TR_Put a False\<rparr>))"

definition to_ready_step :: "sorter \<Rightarrow> kernel \<Rightarrow> kernel option res" where
  "to_ready_step srt s =
     (case to_ready_at s of
        TR_WaitAny \<Rightarrow>
          Inr (if any_for_ready s = 0 then None
               else Some (s\<lparr>any_for_ready := any_for_ready s - 1, to_ready_at := TR_WaitMultiprogram\<rparr>))
      | TR_WaitMultiprogram \<Rightarrow>
          Inr (if sem_multiprogram s = 0 then None
               else Some (s\<lparr>sem_multiprogram := sem_multiprogram s - 1, to_ready_at := TR_Check\<rparr>))
      | TR_Check \<Rightarrow>
          if \<not> pQueue_is_empty (suspended_ready_q s) then suspended_to_ready s
          else if \<not> pQueue_is_empty (new_q s) then new_to_ready s
          else Inr (Some (s\<lparr>to_ready_at := TR_WaitAny\<rparr>))
      | TR_Sent a \<Rightarrow>
          Inr (Some (s\<lparr>memory_init_q := pQueue_put (memory_init_q s) a, to_ready_at := TR_WaitTable a\<rparr>))
      | TR_WaitTable a \<Rightarrow>
          Inr (if pcb_table_ready s = 0 then None
               else Some (s\<lparr>pcb_table_ready := pcb_table_ready s - 1, to_ready_at := TR_Put a True\<rparr>))
      | TR_Put a is_new \<Rightarrow>
          if execution_mutex s \<noteq> None then Inr None
          else bindE (put_to_ready srt ToReady a s) (\<lambda>(finished, s).
            Inr (Some (s\<lparr>to_ready_at := if \<not> finished then TR_WaitInterrupt a is_new
                                        else if is_new then TR_Log a else TR_WaitAny\<rparr>)))
      | TR_WaitInterrupt a is_new \<Rightarrow>
          if interrupt_ready s = 0 then Inr None
          else bindE (put_to_ready_finish srt s) (\<lambda>s.
            Inr (Some (s\<lparr>to_ready_at := if is_new then TR_Log a else TR_WaitAny\<rparr>)))
      | TR_Log a \<Rightarrow>
          bindE (load_pcb s a) (\<lambda>_. Inr (Some (s\<lparr>to_ready_at := TR_WaitAny\<rparr>))))"

section \<open>Short term scheduler: the thread \<open>to_exec\<close>\<close>

definition pcb_packet :: "t_pcb \<Rightarrow> t_packet" where
  "pcb_packet pcb =
     (let packet = create_packet (cpu_code PCB_TO_CPU) INITIAL_STREAM_SIZE
      in packet\<lparr>payload := stream_add_pcb (payload packet) pcb\<rparr>)"

definition dispatch :: "u32 \<Rightarrow> nat \<Rightarrow> t_pcb \<Rightarrow> nat t_pQueue \<Rightarrow> kernel \<Rightarrow> kernel res" where
  "dispatch now a pcb q s =
     (let s = s\<lparr>ready_q := q, toExecTime := now,
                cpu_out := (if cpu_dispatch_socket s \<noteq> -1 then cpu_out s @ [pcb_packet pcb] else cpu_out s)\<rparr>
      in bindE (pcb_destroy a s) (\<lambda>s.
         Inr (s\<lparr>execution_mutex := None, to_exec_at := TE_WaitReady\<rparr>)))"

definition to_exec_step :: "u32 \<Rightarrow> kernel \<Rightarrow> kernel option res" where
  "to_exec_step now s =
     (case to_exec_at s of
        TE_WaitReady \<Rightarrow>
          Inr (if ready_for_exec s = 0 then None
               else Some (s\<lparr>ready_for_exec := ready_for_exec s - 1, to_exec_at := TE_WaitCpu\<rparr>))
      | TE_WaitCpu \<Rightarrow>
          Inr (if cpu_free s = 0 then None
               else Some (s\<lparr>cpu_free := cpu_free s - 1, to_exec_at := TE_Lock\<rparr>))
      | TE_Lock \<Rightarrow>
          Inr (if execution_mutex s \<noteq> None then None
               else Some (s\<lparr>execution_mutex := Some ToExec, to_exec_at := TE_Take\<rparr>))
      | TE_Take \<Rightarrow>
          when_taken (take_pcb_from (ready_q s) s) (\<lambda>a pcb q. dispatch now a pcb q s))"

section \<open>Blocked processes: the thread \<open>io_listener\<close>\<close>

text \<open>
  The times of one turn, \<open>pcb\<close> the process taken: how long it may still be blocked in memory, and
  whether its I/O fits.
\<close>

definition sleep_ms :: "u32 \<Rightarrow> int \<Rightarrow> t_pcb \<Rightarrow> int" where
  "sleep_ms now maxBlocked pcb = maxBlocked - sint (now - blocked_time pcb)"

definition remaining_io_time :: "u32 \<Rightarrow> int \<Rightarrow> t_pcb \<Rightarrow> int" where
  "remaining_io_time now maxBlocked pcb =
     sint (of_int (sleep_ms now maxBlocked pcb) - pending_io_time pcb)"

text \<open>What follows the wait for memory's confirmation.\<close>

definition suspend_blocked :: "nat \<Rightarrow> kernel \<Rightarrow> kernel" where
  "suspend_blocked a s =
     s\<lparr>suspended_block_q := pQueue_put (suspended_block_q s) a,
       sem_multiprogram := sem_multiprogram s + 1, process_for_IO := process_for_IO s + 1, io_at := IO_Wait\<rparr>"

definition io_blocked :: "u32 \<Rightarrow> nat \<Rightarrow> t_pcb \<Rightarrow> kernel \<Rightarrow> kernel" where
  "io_blocked now a pcb s =
     (if 0 \<le> remaining_io_time now (maxBlockedTime s) pcb then
        s\<lparr>io_slept := io_slept s @ [pending_io_time pcb * 1000], io_at := IO_Put a\<rparr>
      else
        let ms = sleep_ms now (maxBlockedTime s) pcb;
            pcb = pcb\<lparr>pending_io_time := pending_io_time pcb - of_int ms\<rparr>;
            s = store_pcb a pcb (s\<lparr>io_slept := io_slept s @ [of_int (ms * 1000)]\<rparr>);
            s = send_memory_request PROCESS_SUSPEND
                  [pid pcb, page_table pcb, process_frames_index pcb] s
        in if memory_socket s \<noteq> -1 then s\<lparr>io_at := IO_WaitSuspension a\<rparr> else suspend_blocked a s)"

definition io_suspended :: "nat \<Rightarrow> t_pcb \<Rightarrow> nat t_pQueue \<Rightarrow> kernel \<Rightarrow> kernel" where
  "io_suspended a pcb q s =
     s\<lparr>suspended_block_q := q, io_slept := io_slept s @ [pending_io_time pcb * 1000],
       suspended_ready_q := pQueue_put (suspended_ready_q s) a,
       any_for_ready := any_for_ready s + 1, io_at := IO_Wait\<rparr>"

definition io_run :: "u32 \<Rightarrow> kernel \<Rightarrow> kernel option res" where
  "io_run now s =
     (if \<not> pQueue_is_empty (blocked_q s) then
        when_taken (take_pcb_from (blocked_q s) s) (\<lambda>a pcb q.
          Inr (io_blocked now a pcb (s\<lparr>blocked_q := q\<rparr>)))
      else
        when_taken (take_pcb_from (suspended_block_q s) s) (\<lambda>a pcb q. Inr (io_suspended a pcb q s)))"

definition io_step :: "sorter \<Rightarrow> u32 \<Rightarrow> kernel \<Rightarrow> kernel option res" where
  "io_step srt now s =
     (case io_at s of
        IO_Wait \<Rightarrow>
          Inr (if process_for_IO s = 0 then None
               else Some (s\<lparr>process_for_IO := process_for_IO s - 1, io_at := IO_Run\<rparr>))
      | IO_Run \<Rightarrow> io_run now s
      | IO_Put a \<Rightarrow>
          if execution_mutex s \<noteq> None then Inr None
          else bindE (put_to_ready srt IoListener a s) (\<lambda>(finished, s).
            Inr (Some (s\<lparr>io_at := if finished then IO_Wait else IO_WaitInterrupt a\<rparr>)))
      | IO_WaitInterrupt a \<Rightarrow>
          if interrupt_ready s = 0 then Inr None
          else bindE (put_to_ready_finish srt s) (\<lambda>s. Inr (Some (s\<lparr>io_at := IO_Wait\<rparr>)))
      | IO_WaitSuspension a \<Rightarrow>
          Inr (if waiting_for_suspension s = 0 then None
               else Some (suspend_blocked a (s\<lparr>waiting_for_suspension := waiting_for_suspension s - 1\<rparr>))))"

section \<open>The thread \<open>exit_process\<close>\<close>

definition ask_exit :: "nat \<Rightarrow> t_pcb \<Rightarrow> nat t_pQueue \<Rightarrow> kernel \<Rightarrow> kernel" where
  "ask_exit a pcb q s =
     (send_memory_request PROCESS_EXIT
        [pid pcb, page_table pcb, process_frames_index pcb] (s\<lparr>exit_q := q\<rparr>))
       \<lparr>exit_at := EX_Sent a\<rparr>"

definition exit_step :: "kernel \<Rightarrow> kernel option res" where
  "exit_step s =
     (case exit_at s of
        EX_Wait \<Rightarrow>
          Inr (if to_exit s = 0 then None
               else Some (s\<lparr>to_exit := to_exit s - 1, exit_at := EX_Take\<rparr>))
      | EX_Take \<Rightarrow>
          when_taken (take_pcb_from (exit_q s) s) (\<lambda>a pcb q. Inr (ask_exit a pcb q s))
      | EX_Sent a \<Rightarrow>
          Inr (Some (s\<lparr>memory_exit_q := pQueue_put (memory_exit_q s) a, exit_at := EX_Wait\<rparr>)))"

section \<open>The handlers\<close>

definition take_pcb :: "t_packet \<Rightarrow> t_pcb res" where
  "take_pcb petition = bindE (stream_take_pcb (payload petition)) (\<lambda>(p, _). Inr p)"

text \<open>
  \<open>receive_process\<close> up to its \<open>pQueue_put\<close>, with the address of the pcb; the log call after it reads
  the pcb again, which other threads can reach by then; last is the post of \<open>any_for_ready\<close>.
\<close>

definition receive_process_put :: "t_pcb \<Rightarrow> u32 \<Rightarrow> t_packet \<Rightarrow> kernel \<Rightarrow> (nat \<times> kernel) res" where
  "receive_process_put junk console_socket petition s =
     bindE (stream_take_process (payload petition)) (\<lambda>(received_process, _).
     let new_pcb = create_pcb junk;
         new_pcb = new_pcb\<lparr>instructions := instructions new_pcb @ proc_instructions received_process,
                           pcb_size := proc_size received_process\<rparr>;
         s = s\<lparr>last_pid := last_pid s + 1\<rparr>;
         new_pcb = new_pcb\<lparr>pid := of_int (last_pid s), client_socket := console_socket,
                           program_counter := 0, burst_estimation := initialEstimate s,
                           left_burst_estimation := initialEstimate s\<rparr>;
         (a, s) = alloc_pcb new_pcb s
     in Inr (a, s\<lparr>new_q := pQueue_put (new_q s) a\<rparr>))"

definition receive_process_log :: "nat \<Rightarrow> kernel \<Rightarrow> u32 res" where
  "receive_process_log a s = bindE (load_pcb s a) (\<lambda>pcb. Inr (pid pcb))"

definition receive_process :: "t_pcb \<Rightarrow> u32 \<Rightarrow> kernel handler" where
  "receive_process junk console_socket petition s =
     bindE (receive_process_put junk console_socket petition s) (\<lambda>(a, s).
     bindE (receive_process_log a s) (\<lambda>_.
       Inr (True, s\<lparr>any_for_ready := any_for_ready s + 1\<rparr>)))"

text \<open>The burst a process ran in total, and the next estimate from it.\<close>

definition real_burst :: "u32 \<Rightarrow> u32 \<Rightarrow> t_pcb \<Rightarrow> int" where
  "real_burst from to pcb = sint (burst_estimation pcb - left_burst_estimation pcb + from - to)"

definition next_estimate :: "real \<Rightarrow> int \<Rightarrow> u32 \<Rightarrow> u32 res" where
  "next_estimate a rl burst =
     (let e = round_double (round_double (a * of_int rl) + round_double (round_double (1 - a) * of_int (uint burst)))
      in bindE (guardE (-1 < e \<and> e < 2 ^ 32) BadConversion) (\<lambda>_.
         Inr (of_int (if 0 \<le> e then \<lfloor>e\<rfloor> else 0))))"

definition io_op :: "u32 \<Rightarrow> kernel handler" where
  "io_op now petition s =
     bindE (take_pcb petition) (\<lambda>received_pcb.
     bindE (next_estimate (alpha s) (real_burst now (toExecTime s) received_pcb)
              (burst_estimation received_pcb)) (\<lambda>estimation.
     let received_pcb = received_pcb\<lparr>burst_estimation := estimation,
                                     left_burst_estimation := estimation, blocked_time := now\<rparr>;
         (a, s) = alloc_pcb received_pcb s
     in Inr (True, s\<lparr>blocked_q := pQueue_put (blocked_q s) a, cpu_free := cpu_free s + 1,
                     process_for_IO := process_for_IO s + 1\<rparr>)))"

definition exit_op :: "kernel handler" where
  "exit_op petition s =
     bindE (take_pcb petition) (\<lambda>received_pcb.
     let (a, s) = alloc_pcb received_pcb s
     in Inr (True, s\<lparr>exit_q := pQueue_put (exit_q s) a, to_exit := to_exit s + 1,
                     cpu_free := cpu_free s + 1\<rparr>))"

definition handle_interruption :: "u32 \<Rightarrow> kernel handler" where
  "handle_interruption now petition s =
     bindE (take_pcb petition) (\<lambda>received_pcb.
     let received_pcb = received_pcb\<lparr>left_burst_estimation :=
           left_burst_estimation received_pcb - (now - toExecTime s)\<rparr>;
         (a, s) = alloc_pcb received_pcb s
     in Inr (True, s\<lparr>ready_q := pQueue_put (ready_q s) a, ready_for_exec := ready_for_exec s + 1,
                     cpu_free := cpu_free s + 1, interrupt_ready := interrupt_ready s + 1\<rparr>))"

text \<open>
  \<open>table_index_success\<close>: the closure runs on every pcb that waits for its page table, and takes one
  from the queue for every match. It would wait for ever there with the queue locked, a self deadlock.
\<close>

definition memory_data_to_pid :: "u32 \<Rightarrow> u32 \<Rightarrow> u32 \<Rightarrow> nat \<Rightarrow> bool \<times> kernel \<Rightarrow> (bool \<times> kernel) res" where
  "memory_data_to_pid p table frames_index a r =
     (case r of (found, s) \<Rightarrow>
       bindE (load_pcb s a) (\<lambda>pcb.
       if pid pcb = p then
         (let s = store_pcb a (pcb\<lparr>page_table := table, process_frames_index := frames_index\<rparr>) s
          in case pQueue_take (memory_init_q s) of
               None \<Rightarrow> Inl SelfDeadlock
             | Some (_, q) \<Rightarrow> Inr (True, s\<lparr>memory_init_q := q\<rparr>))
       else Inr (found, s)))"

definition table_index_success :: "kernel handler" where
  "table_index_success petition s =
     bindE (take_u32 petition) (\<lambda>(p, petition).
     bindE (take_u32 petition) (\<lambda>(level1_table_index, petition).
     bindE (take_u32 petition) (\<lambda>(frames_index, petition).
     bindE (pQueue_iterate (memory_init_q s) (memory_data_to_pid p level1_table_index frames_index)
              (False, s)) (\<lambda>(found, s).
       Inr (False, if found then s\<lparr>pcb_table_ready := pcb_table_ready s + 1\<rparr>
                   else terminate_kernel 1 s)))))"

definition suspension_success :: "kernel handler" where
  "suspension_success petition s =
     Inr (False, s\<lparr>waiting_for_suspension := waiting_for_suspension s + 1\<rparr>)"

text \<open>\<open>exit_process_success\<close> frees the pcbs with the pid and leaves them in \<open>memory_exit_q\<close>.\<close>

definition page_table_to_pid :: "u32 \<Rightarrow> nat \<Rightarrow> u32 \<times> kernel \<Rightarrow> (u32 \<times> kernel) res" where
  "page_table_to_pid p a r =
     (case r of (console_socket, s) \<Rightarrow>
       bindE (load_pcb s a) (\<lambda>pcb.
       if pid pcb = p then bindE (pcb_destroy a s) (\<lambda>s. Inr (client_socket pcb, s))
       else Inr (console_socket, s)))"

definition exit_process_success :: "kernel handler" where
  "exit_process_success petition s =
     bindE (take_u32 petition) (\<lambda>(p, petition).
     bindE (pQueue_iterate (memory_exit_q s) (page_table_to_pid p) (0, s)) (\<lambda>(console_socket, s).
     let s = (if console_socket \<noteq> 0
              then s\<lparr>console_out := console_out s @ [(console_socket, console_code PROCESS_OK)]\<rparr>
              else terminate_kernel 1 s)
     in Inr (False, s\<lparr>sem_multiprogram := sem_multiprogram s + 1\<rparr>)))"

definition kernel_handlers :: "t_pcb \<Rightarrow> u32 \<Rightarrow> u32 \<Rightarrow> kernel handler option list" where
  "kernel_handlers junk now sock =
     [Some (receive_process junk sock), Some (io_op now), Some exit_op,
      Some (handle_interruption now), None, Some table_index_success,
      Some exit_process_success, Some suspension_success]"

section \<open>The threads that read the sockets\<close>

text \<open>
  A console's thread runs \<open>packet_handler\<close> once. The listeners of the CPU and of memory run it again
  whenever it returns, as it does after every answer of memory, whose handlers return false.
\<close>

definition kernel_packet_handler ::
  "nat \<Rightarrow> t_pcb \<Rightarrow> u32 \<Rightarrow> u32 \<Rightarrow> u8 \<Rightarrow> recv_event list \<Rightarrow> kernel
     \<Rightarrow> (bool \<times> kernel \<times> recv_event list) res option" where
  "kernel_packet_handler fuel junk_pcb now sock junk es s =
     packet_handler fuel (kernel_handlers junk_pcb now sock) junk es s"

definition cpu_dispatch_listener ::
  "nat \<Rightarrow> nat \<Rightarrow> t_pcb \<Rightarrow> u32 \<Rightarrow> u32 \<Rightarrow> u8 \<Rightarrow> recv_event list \<Rightarrow> kernel \<Rightarrow> (kernel \<times> recv_event list) res option" where
  "cpu_dispatch_listener n fuel junk_pcb now sock junk es s =
     listener n fuel (kernel_handlers junk_pcb now sock) junk es s"

definition memory_listener ::
  "nat \<Rightarrow> nat \<Rightarrow> t_pcb \<Rightarrow> u32 \<Rightarrow> u32 \<Rightarrow> u8 \<Rightarrow> recv_event list \<Rightarrow> kernel \<Rightarrow> (kernel \<times> recv_event list) res option" where
  "memory_listener n fuel junk_pcb now sock junk es s =
     listener n fuel (kernel_handlers junk_pcb now sock) junk es s"

end
