(* ===== verification/Kernel_Inv.thy ===== *)
theory Kernel_Inv
  imports Kernel
begin

text \<open>
  The kernel as a system of interleaved threads and handlers, and what holds in every state it
  reaches whatever packets arrive: queues and semaphores agree, every pcb is in one place, and the
  execution mutex is held exactly while a process is being put into or taken out of the ready queue.
\<close>

section \<open>Steps and reachable states\<close>

inductive kernel_step :: "sorter \<Rightarrow> kernel \<Rightarrow> kernel \<Rightarrow> bool" for srt where
  to_ready: "to_ready_step srt s = Inr (Some s') \<Longrightarrow> kernel_step srt s s'"
| to_exec: "to_exec_step now s = Inr (Some s') \<Longrightarrow> kernel_step srt s s'"
| io: "io_step srt now s = Inr (Some s') \<Longrightarrow> kernel_step srt s s'"
| exit: "exit_step s = Inr (Some s') \<Longrightarrow> kernel_step srt s s'"
| packet: "call_handler (kernel_handlers junk now sock) p s = Inr (serve, s') \<Longrightarrow> kernel_step srt s s'"

inductive kernel_reachable :: "sorter \<Rightarrow> nat \<Rightarrow> kernel \<Rightarrow> bool" for srt level where
  start: "d \<noteq> -1 \<Longrightarrow> m \<noteq> -1 \<Longrightarrow> kernel_reachable srt level
    ((kernel_init alg est a level maxb)\<lparr>cpu_dispatch_socket := d, memory_socket := m\<rparr>)"
| step: "kernel_reachable srt level s \<Longrightarrow> kernel_step srt s s' \<Longrightarrow> kernel_reachable srt level s'"

section \<open>The invariant\<close>

text \<open>Queues: each semaphore counts its list.\<close>

definition queues_ok :: "kernel \<Rightarrow> bool" where
  "queues_ok s \<longleftrightarrow> pq_ok (new_q s) \<and> pq_ok (ready_q s) \<and> pq_ok (memory_init_q s)
     \<and> pq_ok (memory_exit_q s) \<and> pq_ok (blocked_q s) \<and> pq_ok (suspended_ready_q s)
     \<and> pq_ok (suspended_block_q s) \<and> pq_ok (exit_q s)"

text \<open>Tokens: what the counting semaphores of the scheduler stand for.\<close>

fun tr_interrupted :: "to_ready_pc \<Rightarrow> bool" where
  "tr_interrupted (TR_WaitInterrupt a b) = True"
| "tr_interrupted _ = False"

fun io_interrupted :: "io_pc \<Rightarrow> bool" where
  "io_interrupted (IO_WaitInterrupt a) = True"
| "io_interrupted _ = False"

fun tr_held :: "to_ready_pc \<Rightarrow> nat list" where
  "tr_held (TR_Sent a) = [a]"
| "tr_held (TR_WaitTable a) = [a]"
| "tr_held (TR_Put a b) = [a]"
| "tr_held _ = []"

fun io_held :: "io_pc \<Rightarrow> nat list" where
  "io_held (IO_Put a) = [a]"
| "io_held (IO_WaitSuspension a) = [a]"
| "io_held _ = []"

fun ex_held :: "exit_pc \<Rightarrow> nat list" where
  "ex_held (EX_Sent a) = [a]"
| "ex_held _ = []"

definition tokens_ok :: "kernel \<Rightarrow> bool" where
  "tokens_ok s \<longleftrightarrow>
     length (lib_queue (ready_q s)) = ready_for_exec s + of_bool (to_exec_at s \<noteq> TE_WaitReady)
       + of_bool (tr_interrupted (to_ready_at s)) + of_bool (io_interrupted (io_at s))
   \<and> length (lib_queue (exit_q s)) = to_exit s + of_bool (exit_at s = EX_Take)
   \<and> length (lib_queue (blocked_q s)) + length (lib_queue (suspended_block_q s))
       = process_for_IO s + of_bool (io_at s = IO_Run)
   \<and> length (lib_queue (new_q s)) + length (lib_queue (suspended_ready_q s))
       = any_for_ready s + of_bool (to_ready_at s \<in> {TR_WaitMultiprogram, TR_Check})"

text \<open>At most one process waits for its page table.\<close>

fun tr_table :: "to_ready_pc \<Rightarrow> nat list" where
  "tr_table (TR_WaitTable a) = [a]"
| "tr_table _ = []"

definition init_ok :: "kernel \<Rightarrow> bool" where
  "init_ok s \<longleftrightarrow>
     lib_queue (memory_init_q s) = tr_table (to_ready_at s) \<and> pcb_table_ready s = 0
   \<or> lib_queue (memory_init_q s) = [] \<and> pcb_table_ready s = 1 \<and> tr_table (to_ready_at s) \<noteq> []"

definition mutex_ok :: "kernel \<Rightarrow> bool" where
  "mutex_ok s \<longleftrightarrow>
     (execution_mutex s = Some ToReady \<longleftrightarrow> tr_interrupted (to_ready_at s))
   \<and> (execution_mutex s = Some IoListener \<longleftrightarrow> io_interrupted (io_at s))
   \<and> (execution_mutex s = Some ToExec \<longleftrightarrow> to_exec_at s = TE_Take)"

text \<open>Ownership: the pcbs in the queues and in the hands of the threads.\<close>

definition owned :: "kernel \<Rightarrow> nat multiset" where
  "owned s = mset (lib_queue (new_q s)) + mset (lib_queue (ready_q s)) + mset (lib_queue (blocked_q s))
     + mset (lib_queue (suspended_ready_q s)) + mset (lib_queue (suspended_block_q s))
     + mset (lib_queue (exit_q s)) + mset (tr_held (to_ready_at s)) + mset (io_held (io_at s))
     + mset (ex_held (exit_at s))"

text \<open>
  \<open>M\<close> are the owned pcbs and \<open>E\<close> those whose exit memory was asked for: no pcb is in two places, the
  owned ones are alive, and none is lost.
\<close>

definition placed :: "nat multiset \<Rightarrow> nat list \<Rightarrow> (nat \<Rightarrow> t_pcb option) \<Rightarrow> nat \<Rightarrow> bool" where
  "placed M E h n \<longleftrightarrow> (\<forall>a. count (M + mset E) a \<le> 1) \<and> (\<forall>a \<in># M. h a \<noteq> None)
     \<and> (\<forall>a \<in># M + mset E. a < n) \<and> (\<forall>a. h a \<noteq> None \<longrightarrow> a \<in># M + mset E)"

definition own_ok :: "kernel \<Rightarrow> bool" where
  "own_ok s \<longleftrightarrow> placed (owned s) (lib_queue (memory_exit_q s)) (heap s) (next_addr s)"

text \<open>\<open>main\<close> has connected to CPU and memory.\<close>

definition connected :: "kernel \<Rightarrow> bool" where
  "connected s \<longleftrightarrow> cpu_dispatch_socket s \<noteq> -1 \<and> memory_socket s \<noteq> -1"

definition kernel_inv :: "kernel \<Rightarrow> bool" where
  "kernel_inv s \<longleftrightarrow> queues_ok s \<and> tokens_ok s \<and> init_ok s \<and> mutex_ok s \<and> own_ok s \<and> connected s"

lemma kernel_inv_init: "d \<noteq> -1 \<Longrightarrow> m \<noteq> -1 \<Longrightarrow>
    kernel_inv ((kernel_init alg est a level maxb)\<lparr>cpu_dispatch_socket := d, memory_socket := m\<rparr>)"
  by (simp add: kernel_inv_def connected_def kernel_init_def queues_ok_def tokens_ok_def init_ok_def mutex_ok_def
      own_ok_def owned_def placed_def) (simp add: pQueue_create_def)

section \<open>How pcbs move\<close>

lemma placed_alive: "placed M E h n \<Longrightarrow> a \<in># M \<Longrightarrow> \<exists>pcb. h a = Some pcb"
  by (auto simp: placed_def)

lemma placed_exit: "placed (add_mset a M) E h n \<Longrightarrow> placed M (E @ [a]) h n"
  by (auto simp: placed_def)

lemma placed_fresh: "placed M E h n \<Longrightarrow> n \<notin># M \<and> n \<notin> set E"
  by (auto simp: placed_def)

lemma placed_alloc:
  assumes "placed M E h n"
  shows "placed (add_mset n M) E (h(n \<mapsto> p)) (Suc n)"
proof -
  have "count (M + mset E) n = 0"
    using placed_fresh [OF assms] by (simp add: count_eq_zero_iff)
  with assms show ?thesis by (auto simp: placed_def less_Suc_eq)
qed

lemma placed_store: "placed M E h n \<Longrightarrow> a \<in># M + mset E \<Longrightarrow> placed M E (h(a \<mapsto> p)) n"
  by (auto simp: placed_def)

lemma placed_free:
  assumes "placed (add_mset a M) E h n"
  shows "placed M E (h(a := None)) n"
proof -
  have le: "count (add_mset a M + mset E) x \<le> 1" for x using assms by (simp add: placed_def)
  have "count M a = 0" using le [of a] by simp
  then have "a \<notin># M" by (simp add: count_eq_zero_iff)
  moreover have "count (M + mset E) x \<le> 1" for x
    by (rule order_trans [OF _ le [of x]]) simp
  ultimately show ?thesis using assms by (auto simp: placed_def)
qed

section \<open>Every step keeps the invariant\<close>

definition popped_to :: "'a list \<Rightarrow> 'a t_pQueue \<Rightarrow> 'a t_pQueue" where
  "popped_to xs q = q\<lparr>sem := length xs, lib_queue := xs\<rparr>"

lemma popped_to_simps [simp]: "lib_queue (popped_to xs q) = xs" "pq_ok (popped_to xs q)"
  by (simp_all add: popped_to_def pq_ok_def)

text \<open>Taking from a well-kept queue of live pcbs never faults, and waits only when the queue is empty.\<close>

lemma take_pcb_from_eq:
  assumes "pq_ok q" and "\<forall>a \<in> set (lib_queue q). heap s a \<noteq> None"
  shows "take_pcb_from q s =
    (case lib_queue q of
       [] \<Rightarrow> Inr None
     | a # xs \<Rightarrow> Inr (Some (a, the (heap s a), popped_to xs q)))"
  using assms pq.take_blocks [of q]
  by (auto simp: take_pcb_from_def load_pcb_def pQueue_take_Cons popped_to_def split: list.split)

lemma when_taken_simps [simp]:
  "when_taken (Inr None) f = Inr None"
  "when_taken (Inr (Some (a, pcb, q))) f = bindE (f a pcb q) (\<lambda>s. Inr (Some s))"
  by (simp_all add: when_taken_def)

lemma pq_ok_sort: "sorts srt \<Longrightarrow> pq_ok q \<Longrightarrow> pq_ok (pQueue_sort srt q le)"
  by (simp add: pq_ok_def pQueue_sort_def sorts_length)

lemma lib_queue_sort [simp]: "lib_queue (pQueue_sort srt q le) = srt le (lib_queue q)"
  by (simp add: pQueue_sort_def)

lemmas kernel_inv_defs =
  kernel_inv_def queues_ok_def tokens_ok_def init_ok_def mutex_ok_def own_ok_def connected_def

lemma queues_alive:
  assumes "kernel_inv s"
  shows "\<forall>a \<in> set (lib_queue (new_q s)). heap s a \<noteq> None"
    and "\<forall>a \<in> set (lib_queue (ready_q s)). heap s a \<noteq> None"
    and "\<forall>a \<in> set (lib_queue (blocked_q s)). heap s a \<noteq> None"
    and "\<forall>a \<in> set (lib_queue (suspended_ready_q s)). heap s a \<noteq> None"
    and "\<forall>a \<in> set (lib_queue (suspended_block_q s)). heap s a \<noteq> None"
    and "\<forall>a \<in> set (lib_queue (exit_q s)). heap s a \<noteq> None"
    and "\<forall>a \<in> set (tr_held (to_ready_at s)). heap s a \<noteq> None"
    and "\<forall>a \<in> set (io_held (io_at s)). heap s a \<noteq> None"
    and "\<forall>a \<in> set (ex_held (exit_at s)). heap s a \<noteq> None"
  using assms by (auto simp: kernel_inv_def own_ok_def placed_def owned_def)

lemma queues_alive_owned: "kernel_inv s \<Longrightarrow> a \<in># owned s \<Longrightarrow> heap s a \<noteq> None"
  by (auto simp: kernel_inv_def own_ok_def placed_def)

lemma queues_okD:
  assumes "kernel_inv s"
  shows "pq_ok (new_q s)" "pq_ok (ready_q s)" "pq_ok (blocked_q s)" "pq_ok (suspended_ready_q s)"
    "pq_ok (suspended_block_q s)" "pq_ok (exit_q s)" "pq_ok (memory_init_q s)" "pq_ok (memory_exit_q s)"
  using assms by (simp_all add: kernel_inv_def queues_ok_def)

lemma mutex_owners:
  assumes "kernel_inv s"
  shows "tr_interrupted (to_ready_at s) \<Longrightarrow> execution_mutex s = Some ToReady"
    and "io_interrupted (io_at s) \<Longrightarrow> execution_mutex s = Some IoListener"
    and "to_exec_at s = TE_Take \<Longrightarrow> execution_mutex s = Some ToExec"
    and "tr_interrupted (to_ready_at s) \<Longrightarrow> \<not> io_interrupted (io_at s) \<and> to_exec_at s \<noteq> TE_Take"
    and "io_interrupted (io_at s) \<Longrightarrow> \<not> tr_interrupted (to_ready_at s) \<and> to_exec_at s \<noteq> TE_Take"
    and "to_exec_at s = TE_Take \<Longrightarrow> \<not> tr_interrupted (to_ready_at s) \<and> \<not> io_interrupted (io_at s)"
  using assms by (auto simp: kernel_inv_def mutex_ok_def)

text \<open>A take from a well kept queue of live pcbs that is not empty.\<close>

lemma take_nonempty:
  assumes "pq_ok q" and "\<forall>a \<in> set (lib_queue q). heap s a \<noteq> None" and "lib_queue q \<noteq> []"
  obtains a xs pcb where "lib_queue q = a # xs" and "heap s a = Some pcb"
    and "take_pcb_from q s = Inr (Some (a, pcb, popped_to xs q))"
proof -
  obtain a xs where "lib_queue q = a # xs" using assms(3) by (cases "lib_queue q") auto
  moreover from this obtain pcb where "heap s a = Some pcb" using assms(2) by auto
  ultimately show ?thesis using that assms(1,2) by (simp add: take_pcb_from_eq)
qed

lemma exit_take:
  assumes inv: "kernel_inv s" and at: "exit_at s = EX_Take"
  obtains a xs pcb where "lib_queue (exit_q s) = a # xs" and "heap s a = Some pcb"
    and "exit_step s = Inr (Some (ask_exit a pcb (popped_to xs (exit_q s)) s))"
proof -
  have "lib_queue (exit_q s) \<noteq> []" using inv at by (auto simp: kernel_inv_def tokens_ok_def)
  then show ?thesis
    by (rule take_nonempty [OF queues_okD(6) [OF inv] queues_alive(6) [OF inv]])
      (use that at in \<open>simp add: exit_step_def\<close>)
qed

lemma exit_step_E:
  assumes "kernel_inv s" and "exit_step s = Inr (Some s')"
  obtains
    (wait) "exit_at s = EX_Wait" "0 < to_exit s" "s' = s\<lparr>to_exit := to_exit s - 1, exit_at := EX_Take\<rparr>"
  | (ask) a xs pcb where "exit_at s = EX_Take" "lib_queue (exit_q s) = a # xs" "heap s a = Some pcb"
      "s' = s\<lparr>exit_q := popped_to xs (exit_q s), memory_out := memory_out s @
         [memory_request PROCESS_EXIT [pid pcb, page_table pcb, process_frames_index pcb]], exit_at := EX_Sent a\<rparr>"
  | (put) a where "exit_at s = EX_Sent a"
      "s' = s\<lparr>memory_exit_q := pQueue_put (memory_exit_q s) a, exit_at := EX_Wait\<rparr>"
proof (cases "exit_at s")
  case EX_Wait
  with assms(2) show ?thesis by (intro wait) (auto simp: exit_step_def split: if_splits)
next
  case EX_Take
  obtain a xs pcb where "lib_queue (exit_q s) = a # xs" "heap s a = Some pcb"
    and "exit_step s = Inr (Some (ask_exit a pcb (popped_to xs (exit_q s)) s))"
    by (rule exit_take [OF assms(1) EX_Take])
  moreover have "memory_socket s \<noteq> -1" using assms(1) by (simp add: kernel_inv_def connected_def)
  ultimately show ?thesis
    using assms(2) EX_Take by (intro ask) (auto simp: ask_exit_def send_memory_request_def)
next
  case (EX_Sent a)
  with assms(2) show ?thesis by (intro put) (auto simp: exit_step_def)
qed

lemma exit_step_inv:
  assumes inv: "kernel_inv s" and st: "exit_step s = Inr (Some s')"
  shows "kernel_inv s'"
  using inv st
proof (cases rule: exit_step_E)
  case wait
  with inv show ?thesis by (simp add: kernel_inv_defs owned_def)
next
  case (ask a xs pcb)
  then have "owned s = owned s'"
    by (simp add: owned_def)
  with inv ask show ?thesis
    by (simp add: kernel_inv_defs)
next
  case (put a)
  then have "owned s = add_mset a (owned s')" by (simp add: owned_def)
  with inv put show ?thesis by (simp add: kernel_inv_defs placed_exit)
qed

lemma exec_take:
  assumes inv: "kernel_inv s" and at: "to_exec_at s = TE_Take"
  obtains a xs pcb where "lib_queue (ready_q s) = a # xs" and "heap s a = Some pcb"
    and "to_exec_step now s = bindE (dispatch now a pcb (popped_to xs (ready_q s)) s) (\<lambda>s. Inr (Some s))"
proof -
  have "lib_queue (ready_q s) \<noteq> []" using inv at by (auto simp: kernel_inv_def tokens_ok_def)
  then show ?thesis
    by (rule take_nonempty [OF queues_okD(2) [OF inv] queues_alive(2) [OF inv]])
      (use that at in \<open>simp add: to_exec_step_def\<close>)
qed

lemma to_exec_step_E:
  assumes "kernel_inv s" and "to_exec_step now s = Inr (Some s')"
  obtains
    (ready) "to_exec_at s = TE_WaitReady" "0 < ready_for_exec s"
      "s' = s\<lparr>ready_for_exec := ready_for_exec s - 1, to_exec_at := TE_WaitCpu\<rparr>"
  | (cpu) "to_exec_at s = TE_WaitCpu" "0 < cpu_free s"
      "s' = s\<lparr>cpu_free := cpu_free s - 1, to_exec_at := TE_Lock\<rparr>"
  | (lock) "to_exec_at s = TE_Lock" "execution_mutex s = None"
      "s' = s\<lparr>execution_mutex := Some ToExec, to_exec_at := TE_Take\<rparr>"
  | (dispatch) a xs pcb where "to_exec_at s = TE_Take" "lib_queue (ready_q s) = a # xs"
      "heap s a = Some pcb"
      "s' = s\<lparr>ready_q := popped_to xs (ready_q s), cpu_out := cpu_out s @ [pcb_packet pcb],
        toExecTime := now, heap := (heap s)(a := None), execution_mutex := None,
        to_exec_at := TE_WaitReady\<rparr>"
proof (cases "to_exec_at s")
  case TE_WaitReady
  with assms(2) show ?thesis by (intro ready) (auto simp: to_exec_step_def split: if_splits)
next
  case TE_WaitCpu
  with assms(2) show ?thesis by (intro cpu) (auto simp: to_exec_step_def split: if_splits)
next
  case TE_Lock
  with assms(2) show ?thesis by (intro lock) (auto simp: to_exec_step_def split: if_splits)
next
  case TE_Take
  obtain a xs pcb where xs: "lib_queue (ready_q s) = a # xs" "heap s a = Some pcb"
    and "to_exec_step now s = bindE (Kernel.dispatch now a pcb (popped_to xs (ready_q s)) s) (\<lambda>s. Inr (Some s))"
    by (rule exec_take [OF assms(1) TE_Take])
  moreover have "cpu_dispatch_socket s \<noteq> -1" using assms(1) by (simp add: kernel_inv_def connected_def)
  ultimately show ?thesis
    using assms(2) by (intro dispatch [OF TE_Take xs]) (auto simp: dispatch_def pcb_destroy_def load_pcb_def)
qed

lemma to_exec_step_inv:
  assumes inv: "kernel_inv s" and st: "to_exec_step now s = Inr (Some s')"
  shows "kernel_inv s'"
  using inv st
proof (cases rule: to_exec_step_E)
  case (dispatch a xs pcb)
  then have "owned s = add_mset a (owned s')" by (simp add: owned_def)
  with inv dispatch mutex_owners(3,6) [OF inv] show ?thesis by (simp add: kernel_inv_defs placed_free)
qed (use inv in \<open>simp_all add: kernel_inv_defs owned_def\<close>)

lemma sort_ready_eq:
  assumes "\<forall>a \<in> set (lib_queue (ready_q s)). heap s a \<noteq> None"
  shows "sort_ready srt s = Inr (s\<lparr>ready_q := pQueue_sort srt (ready_q s)
    (\<lambda>a b. SJF_sort (the (heap s a)) (the (heap s b)))\<rparr>)"
  using assms by (simp add: sort_ready_def)

lemma put_to_ready_outcome:
  assumes "sorts srt" and "pq_ok (ready_q s)"
    and "\<forall>b \<in> set (lib_queue (ready_q s)). heap s b \<noteq> None" and "heap s a \<noteq> None"
  obtains (finished) q where "pq_ok q" and "mset (lib_queue q) = add_mset a (mset (lib_queue (ready_q s)))"
      and "put_to_ready srt me a s = Inr (True, s\<lparr>ready_q := q, execution_mutex := None,
             ready_for_exec := ready_for_exec s + 1\<rparr>)"
  | (waits) "put_to_ready srt me a s = Inr (False, s\<lparr>execution_mutex := Some me,
             ready_q := pQueue_put (ready_q s) a,
             interrupts_out := interrupts_out s @ [cpu_code INTERRUPT]\<rparr>)"
proof (cases "sortingAlgorithm s = FIFO \<or> cpu_free s \<noteq> 0")
  case True
  let ?q = "if sortingAlgorithm s = FIFO then pQueue_put (ready_q s) a
    else pQueue_sort srt (pQueue_put (ready_q s) a) (\<lambda>a b. SJF_sort (the (heap s a)) (the (heap s b)))"
  have "put_to_ready srt me a s = Inr (True, s\<lparr>ready_q := ?q, execution_mutex := None,
             ready_for_exec := ready_for_exec s + 1\<rparr>)"
    using True assms(3,4) by (auto simp: put_to_ready_def Let_def put_to_ready_unlock_def sort_ready_eq)
  then show ?thesis
    by (rule finished [rotated 2]) (use assms in \<open>simp_all add: pq_ok_sort sorts_mset\<close>)
next
  case False
  obtain p where "heap s a = Some p" using assms(4) by auto
  with False show ?thesis using assms(3,4) by (intro waits) (simp add: put_to_ready_def Let_def load_pcb_def)
qed

lemma put_to_ready_finish_outcome:
  assumes "sorts srt" and "pq_ok (ready_q s)"
    and "\<forall>b \<in> set (lib_queue (ready_q s)). heap s b \<noteq> None"
  obtains q where "pq_ok q" and "mset (lib_queue q) = mset (lib_queue (ready_q s))"
      and "put_to_ready_finish srt s = Inr (s\<lparr>interrupt_ready := interrupt_ready s - 1,
             ready_q := q, execution_mutex := None, ready_for_exec := ready_for_exec s + 1\<rparr>)"
proof -
  show ?thesis 
   by (rule that [where q="pQueue_sort srt (ready_q s) (\<lambda>a b. SJF_sort (the (heap s a)) (the (heap s b)))"])
    (use assms in \<open>simp_all add: pq_ok_sort sorts_mset put_to_ready_finish_def put_to_ready_unlock_def sort_ready_eq\<close>)
qed

lemma length_of_mset: "mset xs = add_mset a (mset ys) \<Longrightarrow> length xs = Suc (length ys)"
  by (metis size_add_mset size_mset)

text \<open>The cases of a step of each thread, in a state that satisfies the invariant.\<close>

text \<open>With both tokens, \<open>to_ready\<close> finds a process to admit.\<close>

lemma ready_take:
  assumes inv: "kernel_inv s" and at: "to_ready_at s = TR_Check"
  obtains (suspended) a xs where "lib_queue (suspended_ready_q s) = a # xs"
      "to_ready_step srt s = Inr (Some (s\<lparr>suspended_ready_q := popped_to xs (suspended_ready_q s),
         to_ready_at := TR_Put a False\<rparr>))"
    | (new) a xs pcb where "lib_queue (new_q s) = a # xs"
      "to_ready_step srt s = Inr (Some (ask_tables a pcb (popped_to xs (new_q s)) s))"
proof (cases "lib_queue (suspended_ready_q s) = []")
  case False
  obtain a xs pcb where "lib_queue (suspended_ready_q s) = a # xs"
    and "take_pcb_from (suspended_ready_q s) s = Inr (Some (a, pcb, popped_to xs (suspended_ready_q s)))"
    by (rule take_nonempty [OF queues_okD(4) [OF inv] queues_alive(4) [OF inv] False])
  with at show ?thesis
    by (intro suspended) (simp_all add: to_ready_step_def suspended_to_ready_def pQueue_is_empty_def)
next
  case True
  then have "lib_queue (new_q s) \<noteq> []" using inv at by (auto simp: kernel_inv_def tokens_ok_def)
  then obtain a xs pcb where "lib_queue (new_q s) = a # xs"
    and "take_pcb_from (new_q s) s = Inr (Some (a, pcb, popped_to xs (new_q s)))"
    by (rule take_nonempty [OF queues_okD(1) [OF inv] queues_alive(1) [OF inv]])
  with at True show ?thesis
    by (intro new) (simp_all add: to_ready_step_def new_to_ready_def pQueue_is_empty_def)
qed

lemma to_ready_step_E:
  assumes inv: "kernel_inv s" and srt: "sorts srt" and st: "to_ready_step srt s = Inr (Some s')"
  obtains
    (any) "to_ready_at s = TR_WaitAny" "0 < any_for_ready s"
      "s' = s\<lparr>any_for_ready := any_for_ready s - 1, to_ready_at := TR_WaitMultiprogram\<rparr>"
  | (level) "to_ready_at s = TR_WaitMultiprogram" "0 < sem_multiprogram s"
      "s' = s\<lparr>sem_multiprogram := sem_multiprogram s - 1, to_ready_at := TR_Check\<rparr>"
  | (suspended) a xs where "to_ready_at s = TR_Check" "lib_queue (suspended_ready_q s) = a # xs"
      "s' = s\<lparr>suspended_ready_q := popped_to xs (suspended_ready_q s), to_ready_at := TR_Put a False\<rparr>"
  | (new) a xs pcb where "to_ready_at s = TR_Check" "lib_queue (new_q s) = a # xs"
      "s' = s\<lparr>new_q := popped_to xs (new_q s),
         memory_out := memory_out s @ [memory_request PROCESS_NEW [pid (pcb :: t_pcb), pcb_size pcb]], to_ready_at := TR_Sent a\<rparr>"
  | (sent) a where "to_ready_at s = TR_Sent a"
      "s' = s\<lparr>memory_init_q := pQueue_put (memory_init_q s) a, to_ready_at := TR_WaitTable a\<rparr>"
  | (tables) a where "to_ready_at s = TR_WaitTable a" "0 < pcb_table_ready s"
      "s' = s\<lparr>pcb_table_ready := pcb_table_ready s - 1, to_ready_at := TR_Put a True\<rparr>"
  | (put) a b q where "to_ready_at s = TR_Put a b" "execution_mutex s = None" "pq_ok q"
      "mset (lib_queue q) = add_mset a (mset (lib_queue (ready_q s)))"
      "s' = s\<lparr>ready_q := q, execution_mutex := None, ready_for_exec := ready_for_exec s + 1,
             to_ready_at := if b then TR_Log a else TR_WaitAny\<rparr>"
  | (interrupt) a b where "to_ready_at s = TR_Put a b" "execution_mutex s = None"
      "s' = s\<lparr>execution_mutex := Some ToReady, ready_q := pQueue_put (ready_q s) a,
             interrupts_out := interrupts_out s @ [cpu_code INTERRUPT], to_ready_at := TR_WaitInterrupt a b\<rparr>"
  | (resume) a b q where "to_ready_at s = TR_WaitInterrupt a b" "0 < interrupt_ready s" "pq_ok q"
      "mset (lib_queue q) = mset (lib_queue (ready_q s))"
      "s' = s\<lparr>interrupt_ready := interrupt_ready s - 1, ready_q := q, execution_mutex := None,
             ready_for_exec := ready_for_exec s + 1, to_ready_at := if b then TR_Log a else TR_WaitAny\<rparr>"
  | (log) a where "to_ready_at s = TR_Log a" "s' = s\<lparr>to_ready_at := TR_WaitAny\<rparr>"
proof (cases "to_ready_at s")
  case TR_WaitAny
  with st show ?thesis by (intro any) (auto simp: to_ready_step_def split: if_splits)
next
  case TR_WaitMultiprogram
  with st show ?thesis by (intro level) (auto simp: to_ready_step_def split: if_splits)
next
  case TR_Check
  from inv this show ?thesis
  proof (cases rule: ready_take [where srt = srt])
    case (suspended a xs)
    with st show ?thesis by (intro that(3) [OF TR_Check]) auto
  next
    case (new a xs pcb)
    moreover have "memory_socket s \<noteq> -1" using inv by (simp add: kernel_inv_def connected_def)
    ultimately show ?thesis
      using st by (intro that(4) [OF TR_Check, where pcb = pcb]) (auto simp: ask_tables_def send_memory_request_def)
  qed
next
  case (TR_Sent a)
  with st show ?thesis by (intro sent) (auto simp: to_ready_step_def)
next
  case (TR_WaitTable a)
  with st show ?thesis by (intro tables) (auto simp: to_ready_step_def split: if_splits)
next
  case (TR_Put a b)
  then have m: "execution_mutex s = None" using st by (auto simp: to_ready_step_def split: if_splits)
  have h: "heap s a \<noteq> None" using queues_alive(7) [OF inv] TR_Put by simp
  show ?thesis
  proof (cases rule: put_to_ready_outcome
      [OF srt queues_okD(2) [OF inv] queues_alive(2) [OF inv] h, of ToReady])
    case (1 q)
    with st TR_Put m show ?thesis by (intro put [OF TR_Put m 1(1,2)]) (auto simp: to_ready_step_def)
  next
    case 2
    with st TR_Put m show ?thesis by (intro interrupt [OF TR_Put m]) (auto simp: to_ready_step_def)
  qed
next
  case (TR_WaitInterrupt a b)
  with st have n: "0 < interrupt_ready s" by (auto simp: to_ready_step_def split: if_splits)
  obtain q where q: "pq_ok q" "mset (lib_queue q) = mset (lib_queue (ready_q s))"
      and "put_to_ready_finish srt s = Inr (s\<lparr>interrupt_ready := interrupt_ready s - 1,
             ready_q := q, execution_mutex := None, ready_for_exec := ready_for_exec s + 1\<rparr>)"
    by (rule put_to_ready_finish_outcome [OF srt queues_okD(2) [OF inv] queues_alive(2) [OF inv]])
  with st TR_WaitInterrupt n show ?thesis
    by (intro resume [OF TR_WaitInterrupt n q]) (auto simp: to_ready_step_def)
next
  case (TR_Log a)
  with st show ?thesis by (intro log) (auto simp: to_ready_step_def bindE_iffs)
qed

lemma to_ready_step_inv:
  assumes inv: "kernel_inv s" and srt: "sorts srt" and st: "to_ready_step srt s = Inr (Some s')"
  shows "kernel_inv s'"
  using inv srt st
proof (cases rule: to_ready_step_E)
  case (tables a)
  with inv show ?thesis by (auto simp: kernel_inv_defs owned_def)
next
  case (put a b q)
  with inv show ?thesis by (simp add: kernel_inv_defs owned_def length_of_mset)
next
  case (resume a b q)
  then have "length (lib_queue q) = length (lib_queue (ready_q s))" by (metis size_mset)
  with resume inv mutex_owners(1,4) [OF inv] show ?thesis by (simp add: kernel_inv_defs owned_def)
qed (use inv in \<open>simp_all add: kernel_inv_defs owned_def ask_tables_def send_memory_request_def\<close>)

text \<open>With a token in hand, \<open>io_listener\<close> finds a blocked or a suspended process.\<close>

lemma io_take:
  assumes inv: "kernel_inv s" and at: "io_at s = IO_Run"
  obtains (blocked) a xs pcb where "lib_queue (blocked_q s) = a # xs" "heap s a = Some pcb"
      "io_step srt now s = Inr (Some (io_blocked now a pcb (s\<lparr>blocked_q := popped_to xs (blocked_q s)\<rparr>)))"
    | (suspended) a xs pcb where "lib_queue (blocked_q s) = []" "lib_queue (suspended_block_q s) = a # xs"
      "io_step srt now s = Inr (Some (io_suspended a pcb (popped_to xs (suspended_block_q s)) s))"
proof (cases "lib_queue (blocked_q s) = []")
  case False
  obtain a xs pcb where "lib_queue (blocked_q s) = a # xs" "heap s a = Some pcb"
    and "take_pcb_from (blocked_q s) s = Inr (Some (a, pcb, popped_to xs (blocked_q s)))"
    by (rule take_nonempty [OF queues_okD(3) [OF inv] queues_alive(3) [OF inv] False])
  with at show ?thesis by (intro blocked) (simp_all add: io_step_def io_run_def pQueue_is_empty_def)
next
  case True
  then have "lib_queue (suspended_block_q s) \<noteq> []"
    using inv at by (auto simp: kernel_inv_def tokens_ok_def)
  then obtain a xs pcb where "lib_queue (suspended_block_q s) = a # xs"
    and "take_pcb_from (suspended_block_q s) s = Inr (Some (a, pcb, popped_to xs (suspended_block_q s)))"
    by (rule take_nonempty [OF queues_okD(5) [OF inv] queues_alive(5) [OF inv]])
  with at True show ?thesis by (intro suspended) (simp_all add: io_step_def io_run_def pQueue_is_empty_def)
qed

lemma io_step_E:
  assumes inv: "kernel_inv s" and srt: "sorts srt" and st: "io_step srt now s = Inr (Some s')"
  obtains
    (wait) "io_at s = IO_Wait" "0 < process_for_IO s"
      "s' = s\<lparr>process_for_IO := process_for_IO s - 1, io_at := IO_Run\<rparr>"
  | (blocked) a xs pcb where "io_at s = IO_Run" "lib_queue (blocked_q s) = a # xs" "heap s a = Some pcb" "memory_socket s \<noteq> -1"
      "s' = io_blocked now a pcb (s\<lparr>blocked_q := popped_to xs (blocked_q s)\<rparr>)"
  | (suspended) a xs pcb where "io_at s = IO_Run" "lib_queue (blocked_q s) = []"
      "lib_queue (suspended_block_q s) = a # xs"
      "s' = io_suspended a pcb (popped_to xs (suspended_block_q s)) s"
  | (put) a q where "io_at s = IO_Put a" "execution_mutex s = None" "pq_ok q"
      "mset (lib_queue q) = add_mset a (mset (lib_queue (ready_q s)))"
      "s' = s\<lparr>ready_q := q, execution_mutex := None, ready_for_exec := ready_for_exec s + 1, io_at := IO_Wait\<rparr>"
  | (interrupt) a where "io_at s = IO_Put a" "execution_mutex s = None"
      "s' = s\<lparr>execution_mutex := Some IoListener, ready_q := pQueue_put (ready_q s) a,
             interrupts_out := interrupts_out s @ [cpu_code INTERRUPT], io_at := IO_WaitInterrupt a\<rparr>"
  | (resume) a q where "io_at s = IO_WaitInterrupt a" "0 < interrupt_ready s" "pq_ok q"
      "mset (lib_queue q) = mset (lib_queue (ready_q s))"
      "s' = s\<lparr>interrupt_ready := interrupt_ready s - 1, ready_q := q, execution_mutex := None,
             ready_for_exec := ready_for_exec s + 1, io_at := IO_Wait\<rparr>"
  | (suspension) a where "io_at s = IO_WaitSuspension a" "0 < waiting_for_suspension s"
      "s' = s\<lparr>waiting_for_suspension := waiting_for_suspension s - 1,
             suspended_block_q := pQueue_put (suspended_block_q s) a,
             sem_multiprogram := sem_multiprogram s + 1,
             process_for_IO := process_for_IO s + 1, io_at := IO_Wait\<rparr>"
proof (cases "io_at s")
  case IO_Wait
  with st show ?thesis by (intro wait) (auto simp: io_step_def split: if_splits)
next
  case IO_Run
  from inv this show ?thesis
  proof (cases rule: io_take [where srt = srt and now = now])
    case (blocked a xs pcb)
    with st show ?thesis using inv by (intro that(2) [OF IO_Run]) (auto simp: kernel_inv_def connected_def)
  next
    case (suspended a xs pcb)
    with st show ?thesis by (intro that(3) [OF IO_Run, where pcb = pcb]) auto
  qed
next
  case (IO_Put a)
  then have m: "execution_mutex s = None" using st by (auto simp: io_step_def split: if_splits)
  have h: "heap s a \<noteq> None" using queues_alive(8) [OF inv] IO_Put by simp
  show ?thesis
  proof (cases rule: put_to_ready_outcome
      [OF srt queues_okD(2) [OF inv] queues_alive(2) [OF inv] h, of IoListener])
    case (1 q)
    with st IO_Put m show ?thesis by (intro put [OF IO_Put m 1(1,2)]) (auto simp: io_step_def)
  next
    case 2
    with st IO_Put m show ?thesis by (intro interrupt [OF IO_Put m]) (auto simp: io_step_def)
  qed
next
  case (IO_WaitInterrupt a)
  with st have n: "0 < interrupt_ready s" by (auto simp: io_step_def split: if_splits)
  obtain q where q: "pq_ok q" "mset (lib_queue q) = mset (lib_queue (ready_q s))"
      and "put_to_ready_finish srt s = Inr (s\<lparr>interrupt_ready := interrupt_ready s - 1,
             ready_q := q, execution_mutex := None, ready_for_exec := ready_for_exec s + 1\<rparr>)"
    by (rule put_to_ready_finish_outcome [OF srt queues_okD(2) [OF inv] queues_alive(2) [OF inv]])
  with st IO_WaitInterrupt n show ?thesis
    by (intro resume [OF IO_WaitInterrupt n q]) (auto simp: io_step_def)
next
  case (IO_WaitSuspension a)
  with st show ?thesis by (intro suspension) (auto simp: io_step_def suspend_blocked_def split: if_splits)
qed

lemma io_step_inv:
  assumes inv: "kernel_inv s" and srt: "sorts srt" and st: "io_step srt now s = Inr (Some s')"
  shows "kernel_inv s'"
  using inv srt st
proof (cases rule: io_step_E)
  case (blocked a xs pcb)
  with inv show ?thesis
    by (simp add: kernel_inv_defs owned_def io_blocked_def send_memory_request_def store_pcb_def
        Let_def placed_store)
next
  case (put a q)
  with inv show ?thesis by (simp add: kernel_inv_defs owned_def length_of_mset)
next
  case (resume a q)
  then have "length (lib_queue q) = length (lib_queue (ready_q s))" by (metis size_mset)
  with resume inv mutex_owners(2,5) [OF inv] show ?thesis by (simp add: kernel_inv_defs owned_def)
qed (use inv in \<open>simp_all add: kernel_inv_defs owned_def io_suspended_def\<close>)

lemma alloc_inv:
  assumes "own_ok s"
  shows "placed (add_mset (next_addr s) (owned s)) (lib_queue (memory_exit_q s))
     ((heap s)(next_addr s \<mapsto> p)) (Suc (next_addr s))"
  using assms by (simp add: own_ok_def placed_alloc)

lemma receive_process_E:
  assumes "receive_process junk sock petition s = Inr (b, s')"
  obtains p where "s' = s\<lparr>last_pid := last_pid s + 1, heap := (heap s)(next_addr s \<mapsto> p),
      next_addr := Suc (next_addr s), new_q := pQueue_put (new_q s) (next_addr s),
      any_for_ready := any_for_ready s + 1\<rparr>"
  using assms by (auto simp: receive_process_def receive_process_put_def receive_process_log_def load_pcb_def bindE_eq_Inr Let_def alloc_pcb_def)

lemma io_op_E:
  assumes "io_op now petition s = Inr (b, s')"
  obtains p where "s' = s\<lparr>heap := (heap s)(next_addr s \<mapsto> p),
      next_addr := Suc (next_addr s), blocked_q := pQueue_put (blocked_q s) (next_addr s),
      cpu_free := cpu_free s + 1, process_for_IO := process_for_IO s + 1\<rparr>"
  using assms by (auto simp: io_op_def bindE_eq_Inr Let_def alloc_pcb_def)

lemma exit_op_E:
  assumes "exit_op petition s = Inr (b, s')"
  obtains p where "s' = s\<lparr>heap := (heap s)(next_addr s \<mapsto> p),
      next_addr := Suc (next_addr s), exit_q := pQueue_put (exit_q s) (next_addr s),
      to_exit := to_exit s + 1, cpu_free := cpu_free s + 1\<rparr>"
  using assms by (auto simp: exit_op_def bindE_eq_Inr Let_def alloc_pcb_def)

lemma handle_interruption_E:
  assumes "handle_interruption now petition s = Inr (b, s')"
  obtains p where "s' = s\<lparr>heap := (heap s)(next_addr s \<mapsto> p),
      next_addr := Suc (next_addr s), ready_q := pQueue_put (ready_q s) (next_addr s),
      ready_for_exec := ready_for_exec s + 1, cpu_free := cpu_free s + 1,
      interrupt_ready := interrupt_ready s + 1\<rparr>"
  using assms by (auto simp: handle_interruption_def bindE_eq_Inr Let_def alloc_pcb_def)

lemma alloc_handlers_inv:
  assumes inv: "kernel_inv s"
  shows "receive_process junk sock petition s = Inr (b, s') \<Longrightarrow> kernel_inv s'"
    and "io_op now petition s = Inr (b, s') \<Longrightarrow> kernel_inv s'"
    and "exit_op petition s = Inr (b, s') \<Longrightarrow> kernel_inv s'"
    and "handle_interruption now petition s = Inr (b, s') \<Longrightarrow> kernel_inv s'"
proof -
  have al: "placed (add_mset (next_addr s) (owned s)) (lib_queue (memory_exit_q s))
      ((heap s)(next_addr s \<mapsto> p)) (Suc (next_addr s))" for p
    using inv alloc_inv by (simp add: kernel_inv_def)
  show "kernel_inv s'" if "receive_process junk sock petition s = Inr (b, s')"
    by (rule receive_process_E [OF that]) (use inv al in \<open>simp add: kernel_inv_defs owned_def\<close>)
  show "kernel_inv s'" if "io_op now petition s = Inr (b, s')"
    by (rule io_op_E [OF that]) (use inv al in \<open>simp add: kernel_inv_defs owned_def\<close>)
  show "kernel_inv s'" if "exit_op petition s = Inr (b, s')"
    by (rule exit_op_E [OF that]) (use inv al in \<open>simp add: kernel_inv_defs owned_def\<close>)
  show "kernel_inv s'" if "handle_interruption now petition s = Inr (b, s')"
    by (rule handle_interruption_E [OF that]) (use inv al in \<open>simp add: kernel_inv_defs owned_def\<close>)
qed

lemma terminate_kernel_1 [simp]: "terminate_kernel 1 s = s"
  by (simp add: terminate_kernel_def SIGINT_def)

lemma table_index_iter:
  assumes "pq_ok (memory_init_q s)" and "lib_queue (memory_init_q s) = [a]" and "heap s a = Some pcb"
  shows "pQueue_iterate (memory_init_q s) (memory_data_to_pid p table fi) (False, s)
    = Inr (if pid pcb = p
           then (True, s\<lparr>heap := (heap s)(a \<mapsto> pcb\<lparr>page_table := table, process_frames_index := fi\<rparr>),
                         memory_init_q := popped_to [] (memory_init_q s)\<rparr>)
           else (False, s))"
  using assms pQueue_take_Cons [OF assms(1,2)]
  by (simp add: pQueue_iterate_def memory_data_to_pid_def load_pcb_def store_pcb_def popped_to_def)

lemma table_index_success_E:
  assumes inv: "kernel_inv s" and st: "table_index_success petition s = Inr (b, s')"
  obtains (lost) "s' = s"
  | (found) a p where "to_ready_at s = TR_WaitTable a" "lib_queue (memory_init_q s) = [a]"
      "pcb_table_ready s = 0" "heap s a \<noteq> None"
      "s' = s\<lparr>heap := (heap s)(a \<mapsto> p), memory_init_q := popped_to [] (memory_init_q s),
             pcb_table_ready := pcb_table_ready s + 1\<rparr>"
proof -
  from st obtain p table fi fnd s1 where
    it: "pQueue_iterate (memory_init_q s) (memory_data_to_pid p table fi) (False, s) = Inr (fnd, s1)"
    and s': "s' = (if fnd then s1\<lparr>pcb_table_ready := pcb_table_ready s1 + 1\<rparr> else s1)"
    by (auto simp: table_index_success_def bindE_eq_Inr)
  consider a where "to_ready_at s = TR_WaitTable a" "lib_queue (memory_init_q s) = [a]" "pcb_table_ready s = 0"
    | "lib_queue (memory_init_q s) = []"
    using inv by (cases "to_ready_at s") (auto simp: kernel_inv_def init_ok_def)
  then show ?thesis
  proof cases
    case 1
    obtain pcb where h: "heap s a = Some pcb" using queues_alive(7) [OF inv] 1 by auto
    note eq = table_index_iter [OF queues_okD(7) [OF inv] 1(2) h, of p table fi]
    show ?thesis
    proof (cases "pid pcb = p")
      case True
      with eq it h show ?thesis by (intro found [OF 1]) (auto simp: s')
    next
      case False
      with eq it show ?thesis by (intro lost) (simp add: s')
    qed
  next
    case 2
    with it show ?thesis by (intro lost) (simp add: pQueue_iterate_def s')
  qed
qed

lemma table_index_success_inv:
  assumes inv: "kernel_inv s" and st: "table_index_success petition s = Inr (b, s')"
  shows "kernel_inv s'"
  using inv st
proof (cases rule: table_index_success_E)
  case (found a p)
  with inv show ?thesis by (simp add: kernel_inv_defs owned_def placed_store del: fun_upd_apply)
qed (use inv in simp)

text \<open>\<open>exit_process_success\<close> frees pcbs of \<open>memory_exit_q\<close>, all those with the pid if it ends.\<close>

lemma page_table_to_pid_step:
  "page_table_to_pid p a (cs, s) =
     (case heap s a of
        None \<Rightarrow> Inl UseAfterFree
      | Some pcb \<Rightarrow> Inr (if pid pcb = p then (client_socket pcb, s\<lparr>heap := (heap s)(a := None)\<rparr>) else (cs, s)))"
  by (auto simp: page_table_to_pid_def pcb_destroy_def load_pcb_def split: option.split)

lemma page_table_to_pid_iter:
  assumes "iterE (page_table_to_pid p) xs (cs, s) = Inr (cs', s')" and "distinct xs"
  shows "\<exists>h. s' = s\<lparr>heap := h\<rparr> \<and> (\<forall>x. h x = heap s x \<or> h x = None \<and> x \<in> set xs)
    \<and> (\<forall>x \<in> set xs. \<exists>pcb. heap s x = Some pcb \<and> (pid pcb = p \<longrightarrow> h x = None))"
  using assms
proof (induction xs arbitrary: cs s)
  case (Cons a xs)
  then obtain pcb where pcb: "heap s a = Some pcb"
    by (auto simp: page_table_to_pid_step split: option.splits)
  let ?h = "if pid pcb = p then (heap s)(a := None) else heap s"
  obtain cs1 where "iterE (page_table_to_pid p) xs (cs1, s\<lparr>heap := ?h\<rparr>) = Inr (cs', s')"
    using Cons.prems(1) pcb
    by (cases "pid pcb = p") (auto simp: page_table_to_pid_step)
  then obtain h where h: "s' = s\<lparr>heap := h\<rparr>" "\<forall>x. h x = ?h x \<or> h x = None \<and> x \<in> set xs"
      "\<forall>x \<in> set xs. \<exists>pcb. ?h x = Some pcb \<and> (pid pcb = p \<longrightarrow> h x = None)"
    using Cons.IH Cons.prems(2) by fastforce
  have "h a = ?h a" using spec [OF h(2), of a] Cons.prems(2) by auto
  with h pcb Cons.prems(2) show ?case
    by (intro exI [of _ h]) (auto split: if_splits)
next
  case Nil
  then show ?case by (intro exI [of _ "heap s"]) simp
qed

lemma memory_exit_distinct:
  assumes "kernel_inv s"
  shows "distinct (lib_queue (memory_exit_q s))" and "\<And>a. a \<in># owned s \<Longrightarrow> a \<notin> set (lib_queue (memory_exit_q s))"
proof -
  have c: "count (owned s) a + count (mset (lib_queue (memory_exit_q s))) a \<le> 1" for a
    using assms by (simp add: kernel_inv_def own_ok_def placed_def)
  show "distinct (lib_queue (memory_exit_q s))"
    unfolding distinct_count_atmost_1 using c by (metis add_leD2 count_mset le_SucE le_zero_eq One_nat_def
      count_greater_zero_iff less_one not_gr_zero set_mset_mset)
  show "a \<notin> set (lib_queue (memory_exit_q s))" if "a \<in># owned s" for a
    using c [of a] that by (metis One_nat_def Suc_le_eq add_mono_thms_linordered_field(5)
      count_greater_zero_iff not_le one_add_one plus_1_eq_Suc set_mset_mset less_eq_Suc_le numeral_2_eq_2 add_leE le_antisym not_less_eq_eq)
qed

lemma exit_process_success_E:
  assumes inv: "kernel_inv s" and st: "exit_process_success petition s = Inr (b, s')"
  obtains p petition' h out where "take_u32 petition = Inr (p, petition')"
    and "s' = s\<lparr>heap := h, console_out := out, sem_multiprogram := sem_multiprogram s + 1\<rparr>"
    and "\<forall>x. h x = heap s x \<or> h x = None \<and> x \<in> set (lib_queue (memory_exit_q s))"
    and "\<forall>x \<in> set (lib_queue (memory_exit_q s)). \<exists>pcb. heap s x = Some pcb \<and> (pid pcb = p \<longrightarrow> h x = None)"
proof -
  from st obtain p petition' cs s1 where p: "take_u32 petition = Inr (p, petition')"
    and it: "iterE (page_table_to_pid p) (lib_queue (memory_exit_q s)) (0, s) = Inr (cs, s1)"
    and s': "s' = (if cs \<noteq> 0 then s1\<lparr>console_out := console_out s1 @ [(cs, console_code PROCESS_OK)]\<rparr> else s1)
      \<lparr>sem_multiprogram := sem_multiprogram s1 + 1\<rparr>"
    by (auto simp: exit_process_success_def pQueue_iterate_def bindE_eq_Inr Let_def)
  from page_table_to_pid_iter [OF it memory_exit_distinct(1) [OF inv]] obtain h where
    h: "s1 = s\<lparr>heap := h\<rparr>" "\<forall>x. h x = heap s x \<or> h x = None \<and> x \<in> set (lib_queue (memory_exit_q s))"
    "\<forall>x \<in> set (lib_queue (memory_exit_q s)). \<exists>pcb. heap s x = Some pcb \<and> (pid pcb = p \<longrightarrow> h x = None)"
    by auto
  show ?thesis
    by (rule that [OF p, where h = h and out = "if cs \<noteq> 0 then console_out s @ [(cs, console_code PROCESS_OK)] else console_out s"])
     (use h s' in auto)
qed

lemma exit_process_success_inv:
  assumes inv: "kernel_inv s" and st: "exit_process_success petition s = Inr (b, s')"
  shows "kernel_inv s'"
proof (rule exit_process_success_E [OF inv st])
  fix p petition' h out
  assume s': "s' = s\<lparr>heap := h, console_out := out, sem_multiprogram := sem_multiprogram s + 1\<rparr>"
    and h: "\<forall>x. h x = heap s x \<or> h x = None \<and> x \<in> set (lib_queue (memory_exit_q s))"
  have "h x \<noteq> None" if "x \<in># owned s" for x
    using h memory_exit_distinct(2) [OF inv that] queues_alive_owned [OF inv that] by metis
  moreover have "x \<in># owned s + mset (lib_queue (memory_exit_q s))" if "h x \<noteq> None" for x
  proof -
    have "heap s x \<noteq> None" using h that by metis
    then show ?thesis using inv unfolding kernel_inv_def own_ok_def placed_def by blast
  qed
  ultimately have "placed (owned s) (lib_queue (memory_exit_q s)) h (next_addr s)"
    using inv unfolding kernel_inv_def own_ok_def placed_def by blast
  with inv show ?thesis by (simp add: s' kernel_inv_defs owned_def)
qed

lemma suspension_success_inv:
  assumes inv: "kernel_inv s" and st: "suspension_success petition s = Inr (b, s')"
  shows "kernel_inv s'"
proof -
  have "s' = s\<lparr>waiting_for_suspension := waiting_for_suspension s + 1\<rparr>"
    using st by (simp add: suspension_success_def)
  with inv show ?thesis by (simp add: kernel_inv_defs owned_def)
qed

lemma kernel_step_inv:
  assumes "kernel_step srt s s'" and "sorts srt" and "kernel_inv s"
  shows "kernel_inv s'"
  using assms
proof (induction rule: kernel_step.induct)
  case (packet junk now sock p s serve s')
  from packet.hyps obtain h where "Some h \<in> set (kernel_handlers junk now sock)"
      and h: "h p s = Inr (serve, s')"
    by (rule call_handler_in)
  then have "h \<in> {receive_process junk sock, io_op now, exit_op, handle_interruption now,
      table_index_success, exit_process_success, suspension_success}"
    by (simp add: kernel_handlers_def)
  with h packet.prems(2) show ?case
    by (auto intro: alloc_handlers_inv table_index_success_inv exit_process_success_inv suspension_success_inv)
qed (auto intro: to_ready_step_inv to_exec_step_inv io_step_inv exit_step_inv)

lemma kernel_reachable_inv:
  assumes "kernel_reachable srt level s" and "sorts srt"
  shows "kernel_inv s"
  using assms
  by (induction rule: kernel_reachable.induct) (auto intro: kernel_inv_init kernel_step_inv)

end
