(* ===== verification/Kernel_Degree.thy ===== *)
theory Kernel_Degree
  imports Kernel_Inv
begin

text \<open>
  Runs of the kernel in which CPU and memory keep to the protocol, with the number of pcbs that are at
  the CPU beside the kernel's state, and the degree of multiprogramming in them: the processes that
  have memory and the free places of \<open>sem_multiprogram\<close> never exceed the configured level.
  Runs can be given as lists of events and executed, the packets in them built by the encoders.
\<close>

text \<open>
  A run in which CPU and memory keep to the protocol, with two counts beside the kernel: the CPU sends
  back a pcb only for one it was given, \<open>n\<close> of which it has, and memory confirms an exit only when
  it was asked to, \<open>e\<close> confirmations being due. A confirmation may come before \<open>exit_process\<close> has put
  the pcb on \<open>memory_exit_q\<close>.
\<close>

definition from_cpu :: "u8 set" where
  "from_cpu = {kernel_code IO_CALL, kernel_code EXIT_CALL, kernel_code INTERRUPT_DISPATCH}"

definition names_exiting :: "t_packet \<Rightarrow> kernel \<Rightarrow> bool" where
  "names_exiting p s \<longleftrightarrow>
     (case take_u32 p of
        Inl e \<Rightarrow> False
      | Inr (v, _) \<Rightarrow> \<exists>a \<in> set (lib_queue (memory_exit_q s)).
          case heap s a of None \<Rightarrow> False | Some pcb \<Rightarrow> pid pcb = v)"

lemma kernel_packet_E:
  assumes "call_handler (kernel_handlers junk now sock) p s = Inr r"
  obtains (process) "header p = kernel_code NEW_PROCESS" "receive_process junk sock p s = Inr r"
    | (io) "header p = kernel_code IO_CALL" "io_op now p s = Inr r"
    | (exit) "header p = kernel_code EXIT_CALL" "exit_op p s = Inr r"
    | (interruption) "header p = kernel_code INTERRUPT_DISPATCH" "handle_interruption now p s = Inr r"
    | (tables) "header p = kernel_code PROCESS_MEMORY_READY" "table_index_success p s = Inr r"
    | (exited) "header p = kernel_code PROCESS_EXIT_READY" "exit_process_success p s = Inr r"
    | (suspension) "header p = kernel_code PROCESS_SUSPENSION_READY" "suspension_success p s = Inr r"
proof -
  have n: "unat (header p) < 8"
    using assms by (auto simp: call_handler_def kernel_handlers_def bindE_iffs)
  have w: "unat (header p) = k \<Longrightarrow> header p = of_nat k" for k
    by (metis of_nat_unat ucast_id)
  from n consider "header p = 0" | "header p = 1" | "header p = 2" | "header p = 3" | "header p = 4"
    | "header p = 5" | "header p = 6" | "header p = 7"
    by (auto simp: less_Suc_eq numeral_eq_Suc dest!: w)
  then show ?thesis
    by cases (use assms that in \<open>simp_all add: call_handler_def kernel_handlers_def\<close>)
qed

type_synonym conf = "kernel \<times> nat \<times> nat"

inductive conf_step :: "sorter \<Rightarrow> conf \<Rightarrow> conf \<Rightarrow> bool" for srt where
  to_ready: "to_ready_step srt s = Inr (Some s') \<Longrightarrow> conf_step srt (s, n, e) (s', n, e)"
| to_exec: "to_exec_step now s = Inr (Some s') \<Longrightarrow>
    conf_step srt (s, n, e) (s', n + (length (cpu_out s') - length (cpu_out s)), e)"
| io: "io_step srt now s = Inr (Some s') \<Longrightarrow> conf_step srt (s, n, e) (s', n, e)"
| exit: "exit_step s = Inr (Some s') \<Longrightarrow>
    conf_step srt (s, n, e) (s', n, e + (length (memory_out s') - length (memory_out s)))"
| cpu: "header p \<in> from_cpu \<Longrightarrow> call_handler (kernel_handlers junk now sock) p s = Inr (b, s') \<Longrightarrow>
    conf_step srt (s, Suc n, e) (s', n, e)"
| exited: "header p = kernel_code PROCESS_EXIT_READY \<Longrightarrow>
    call_handler (kernel_handlers junk now sock) p s = Inr (b, s') \<Longrightarrow>
    conf_step srt (s, n, Suc e) (s', n, e)"
| packet: "header p \<notin> from_cpu \<Longrightarrow> header p \<noteq> kernel_code PROCESS_EXIT_READY \<Longrightarrow>
    call_handler (kernel_handlers junk now sock) p s = Inr (b, s') \<Longrightarrow> conf_step srt (s, n, e) (s', n, e)"

inductive conf_reachable :: "sorter \<Rightarrow> nat \<Rightarrow> conf \<Rightarrow> bool" for srt level where
  start: "d \<noteq> -1 \<Longrightarrow> m \<noteq> -1 \<Longrightarrow> conf_reachable srt level
    ((kernel_init alg est a level maxb)\<lparr>cpu_dispatch_socket := d, memory_socket := m\<rparr>, 0, 0)"
| step: "conf_reachable srt level c \<Longrightarrow> conf_step srt c c' \<Longrightarrow> conf_reachable srt level c'"

text \<open>The sockets of \<open>kernel_init\<close> are such numbers.\<close>

lemma conf_reachable_init: "conf_reachable srt level (kernel_init alg est a level maxb, 0, 0)"
proof -
  have eq: "(kernel_init alg est a level maxb)\<lparr>cpu_dispatch_socket := 0, memory_socket := 0\<rparr> = kernel_init alg est a level maxb"
    by (simp add: kernel_init_def)
  have ne: "(0 :: int) \<noteq> -1" by simp
  from conf_reachable.start [OF ne ne, of srt level alg est a maxb] show ?thesis unfolding eq .
qed

lemma conf_step_kernel_step: "conf_step srt c c' \<Longrightarrow> kernel_step srt (fst c) (fst c')"
  by (induction rule: conf_step.induct) (auto intro: kernel_step.intros)

fun tr_admitted :: "to_ready_pc \<Rightarrow> bool" where
  "tr_admitted TR_Check = True"
| "tr_admitted (TR_Sent a) = True"
| "tr_admitted (TR_WaitTable a) = True"
| "tr_admitted (TR_Put a b) = True"
| "tr_admitted _ = False"

text \<open>The processes that have memory: ready, blocked, leaving, at the CPU, or in a thread's hands.\<close>

definition in_memory :: "conf \<Rightarrow> nat" where
  "in_memory c = (case c of (s, n, e) \<Rightarrow>
     length (lib_queue (ready_q s)) + length (lib_queue (blocked_q s)) + length (lib_queue (exit_q s))
     + n + e + of_bool (tr_admitted (to_ready_at s)) + length (io_held (io_at s)))"

definition degree_ok :: "nat \<Rightarrow> conf \<Rightarrow> bool" where
  "degree_ok level c \<longleftrightarrow> sem_multiprogram (fst c) + in_memory c \<le> level"

lemmas degree_defs = degree_ok_def in_memory_def

lemma degree_to_ready:
  assumes "kernel_inv s" and "sorts srt" and "to_ready_step srt s = Inr (Some s')"
   and d: "degree_ok level (s, n, e)"
  shows "degree_ok level (s', n, e)"
  using assms(1-3)
proof (cases rule: to_ready_step_E)
  case (resume a b q)
  then have "length (lib_queue q) = length (lib_queue (ready_q s))" by (metis size_mset)
  with resume d show ?thesis by (simp add: degree_defs)
qed (use d in \<open>simp_all add: degree_defs length_of_mset ask_tables_def send_memory_request_def\<close>)

lemma degree_to_exec:
  assumes "kernel_inv s" and "to_exec_step now s = Inr (Some s')" and d: "degree_ok level (s, n, e)"
  shows "degree_ok level (s', n + (length (cpu_out s') - length (cpu_out s)), e)"
  using assms(1,2) by (cases rule: to_exec_step_E) (use d in \<open>simp_all add: degree_defs\<close>)

lemma degree_io:
  assumes "kernel_inv s" and "sorts srt" and "io_step srt now s = Inr (Some s')"
   and d: "degree_ok level (s, n, e)"
  shows "degree_ok level (s', n, e)"
  using assms(1-3)
proof (cases rule: io_step_E)
  case (blocked a xs pcb)
  with d show ?thesis by (simp add: degree_defs io_blocked_def Let_def send_memory_request_def store_pcb_def)
next
  case (resume a q)
  then have "length (lib_queue q) = length (lib_queue (ready_q s))" by (metis size_mset)
  with resume d show ?thesis by (simp add: degree_defs)
qed (use d in \<open>simp_all add: degree_defs length_of_mset io_suspended_def\<close>)

lemma degree_exit:
  assumes "kernel_inv s" and "exit_step s = Inr (Some s')" and d: "degree_ok level (s, n, e)"
  shows "degree_ok level (s', n, e + (length (memory_out s') - length (memory_out s)))"
  using assms(1,2)
  by (cases rule: exit_step_E) (use d in \<open>simp_all add: degree_defs ask_exit_def send_memory_request_def\<close>)

lemma degree_handlers:
  assumes inv: "kernel_inv s"
  shows "receive_process junk sock p s = Inr (b, s') \<Longrightarrow> degree_ok level (s, n, e) \<Longrightarrow> degree_ok level (s', n, e)"
    and "io_op now p s = Inr (b, s') \<Longrightarrow> degree_ok level (s, Suc n, e) \<Longrightarrow> degree_ok level (s', n, e)"
    and "exit_op p s = Inr (b, s') \<Longrightarrow> degree_ok level (s, Suc n, e) \<Longrightarrow> degree_ok level (s', n, e)"
    and "handle_interruption now p s = Inr (b, s') \<Longrightarrow> degree_ok level (s, Suc n, e) \<Longrightarrow> degree_ok level (s', n, e)"
    and "table_index_success p s = Inr (b, s') \<Longrightarrow> degree_ok level (s, n, e) \<Longrightarrow> degree_ok level (s', n, e)"
    and "suspension_success p s = Inr (b, s') \<Longrightarrow> degree_ok level (s, n, e) \<Longrightarrow> degree_ok level (s', n, e)"
    and "exit_process_success p s = Inr (b, s') \<Longrightarrow> degree_ok level (s, n, Suc e) \<Longrightarrow> degree_ok level (s', n, e)"
proof -
  show "receive_process junk sock p s = Inr (b, s') \<Longrightarrow> degree_ok level (s, n, e) \<Longrightarrow> degree_ok level (s', n, e)"
    by (elim receive_process_E) (simp add: degree_defs)
  show "io_op now p s = Inr (b, s') \<Longrightarrow> degree_ok level (s, Suc n, e) \<Longrightarrow> degree_ok level (s', n, e)"
    by (elim io_op_E) (simp add: degree_defs)
  show "exit_op p s = Inr (b, s') \<Longrightarrow> degree_ok level (s, Suc n, e) \<Longrightarrow> degree_ok level (s', n, e)"
    by (elim exit_op_E) (simp add: degree_defs)
  show "handle_interruption now p s = Inr (b, s') \<Longrightarrow> degree_ok level (s, Suc n, e) \<Longrightarrow> degree_ok level (s', n, e)"
    by (elim handle_interruption_E) (simp add: degree_defs)
  show "suspension_success p s = Inr (b, s') \<Longrightarrow> degree_ok level (s, n, e) \<Longrightarrow> degree_ok level (s', n, e)"
    by (auto simp: suspension_success_def degree_defs)
  show "degree_ok level (s', n, e)" if "table_index_success p s = Inr (b, s')" "degree_ok level (s, n, e)"
    using inv that(1) by (cases rule: table_index_success_E) (use that in \<open>simp_all add: degree_defs\<close>)
  show "degree_ok level (s', n, e)" if "exit_process_success p s = Inr (b, s')" "degree_ok level (s, n, Suc e)"
    by (rule exit_process_success_E [OF inv that(1)]) (use that(2) in \<open>simp add: degree_defs\<close>)
qed

lemma conf_step_degree:
  assumes "conf_step srt c c'" and "sorts srt" and "kernel_inv (fst c)" and "degree_ok level c"
  shows "degree_ok level c'"
  using assms
proof (induction rule: conf_step.induct)
  case (cpu p junk now sock s b s' n e)
  from cpu.hyps(2) show ?case
    by (cases rule: kernel_packet_E) (use cpu degree_handlers(2,3,4) in \<open>auto simp: from_cpu_def\<close>)
next
  case (exited p junk now sock s b s' n e)
  from exited.hyps(2) show ?case
    by (cases rule: kernel_packet_E) (use exited degree_handlers(7) in auto)
next
  case (packet p junk now sock s b s' n e)
  from packet.hyps(3) show ?case
    by (cases rule: kernel_packet_E) (use packet degree_handlers(1,5,6) in \<open>auto simp: from_cpu_def\<close>)
qed (auto intro: degree_to_ready degree_to_exec degree_io degree_exit)

lemma conf_reachable_ok:
  assumes "conf_reachable srt level c" and "sorts srt"
  shows "kernel_inv (fst c) \<and> degree_ok level c"
  using assms
proof (induction rule: conf_reachable.induct)
  case (start d m alg est a maxb)
  then show ?case by (simp add: kernel_inv_init) (simp add: degree_defs kernel_init_def pQueue_create_def)
next
  case (step c c')
  then show ?case using kernel_step_inv [OF conf_step_kernel_step] conf_step_degree by blast
qed

section \<open>Runs as lists of events\<close>

datatype event = Run_to_ready | Run_to_exec u32 | Run_io u32 | Run_exit | Arrive u32 u32 t_packet

definition blank_pcb :: t_pcb where
  "blank_pcb = \<lparr>pid = 0, pcb_size = 0, client_socket = 0, instructions = [], program_counter = 0,
     page_table = 0, process_frames_index = 0, burst_estimation = 0, blocked_time = 0,
     pending_io_time = 0, left_burst_estimation = 0\<rparr>"

definition stepped :: "kernel option res \<Rightarrow> kernel option" where
  "stepped r = (case r of Inl e \<Rightarrow> None | Inr s \<Rightarrow> s)"

fun do_event :: "sorter \<Rightarrow> event \<Rightarrow> conf \<Rightarrow> conf option" where
  "do_event srt Run_to_ready (s, n, e) = map_option (\<lambda>s'. (s', n, e)) (stepped (to_ready_step srt s))"
| "do_event srt (Run_to_exec now) (s, n, e) =
     map_option (\<lambda>s'. (s', n + (length (cpu_out s') - length (cpu_out s)), e)) (stepped (to_exec_step now s))"
| "do_event srt (Run_io now) (s, n, e) = map_option (\<lambda>s'. (s', n, e)) (stepped (io_step srt now s))"
| "do_event srt Run_exit (s, n, e) =
     map_option (\<lambda>s'. (s', n, e + (length (memory_out s') - length (memory_out s)))) (stepped (exit_step s))"
| "do_event srt (Arrive now sock p) (s, n, e) =
     (case call_handler (kernel_handlers blank_pcb now sock) p s of
        Inl f \<Rightarrow> None
      | Inr (b, s') \<Rightarrow>
          if header p \<in> from_cpu then (if n = 0 then None else Some (s', n - 1, e))
          else if header p = kernel_code PROCESS_EXIT_READY then (if e = 0 then None else Some (s', n, e - 1))
          else Some (s', n, e))"

fun run :: "sorter \<Rightarrow> event list \<Rightarrow> conf \<Rightarrow> conf option" where
  "run srt [] c = Some c"
| "run srt (e # es) c = Option.bind (do_event srt e c) (run srt es)"

lemma stepped_Some [simp]: "stepped r = Some s \<longleftrightarrow> r = Inr (Some s)"
  by (cases r) (auto simp: stepped_def)

lemma do_event_step: "do_event srt ev c = Some c' \<Longrightarrow> conf_step srt c c'"
proof (induction srt ev c rule: do_event.induct)
  case (5 srt now sock p s n e)
  then obtain b s' where h: "call_handler (kernel_handlers blank_pcb now sock) p s = Inr (b, s')"
    by (auto split: sum.splits)
  consider "header p \<in> from_cpu" | "header p \<notin> from_cpu" "header p = kernel_code PROCESS_EXIT_READY"
    | "header p \<notin> from_cpu" "header p \<noteq> kernel_code PROCESS_EXIT_READY"
    by blast
  then show ?case
  proof cases
    case 1
    with 5 h obtain m where "n = Suc m" "c' = (s', m, e)" by (cases n) (auto split: if_splits)
    with 1 h show ?thesis by (auto intro: conf_step.cpu)
  next
    case 2
    with 5 h obtain d where "e = Suc d" "c' = (s', n, d)" by (cases e) (auto split: if_splits)
    with 2 h show ?thesis by (auto intro: conf_step.exited)
  next
    case 3
    with 5 h have "c' = (s', n, e)" by (auto split: if_splits)
    with 3 h show ?thesis by (auto intro: conf_step.packet)
  qed
qed (auto intro: conf_step.intros)

lemma run_reachable: "conf_reachable srt level c \<Longrightarrow> run srt es c = Some c' \<Longrightarrow> conf_reachable srt level c'"
proof (induction es arbitrary: c)
  case (Cons e es)
  then obtain c1 where "do_event srt e c = Some c1" "run srt es c1 = Some c'"
    by (cases "do_event srt e c") auto
  with Cons show ?case using conf_reachable.step do_event_step by blast
qed simp

lemma run_steps: "run srt es c = Some c' \<Longrightarrow> (conf_step srt)\<^sup>*\<^sup>* c c'"
proof (induction es arbitrary: c)
  case (Cons e es)
  then obtain c1 where "do_event srt e c = Some c1" "run srt es c1 = Some c'"
    by (cases "do_event srt e c") auto
  with Cons.IH show ?case by (meson converse_rtranclp_into_rtranclp do_event_step)
qed simp

lemma conf_kernel_reachable: "conf_reachable srt level c \<Longrightarrow> kernel_reachable srt level (fst c)"
  by (induction rule: conf_reachable.induct)
    (auto intro: kernel_reachable.intros dest: conf_step_kernel_step)

lemma received_process:
  assumes "wf_process p" and "length (process_bytes p) < 2 ^ 32"
  shows "stream_take_process (payload (received h (process_bytes p)))
    = Inr (p, advance (length (process_bytes p)) (payload (received h (process_bytes p))))"
  using process_get_ahead [OF assms(1), of _ "[]"] ahead_received [OF assms(2)] by simp

lemma received_pcb:
  assumes "wf_pcb p" and "length (pcb_bytes p) < 2 ^ 32"
  shows "take_pcb (received h (pcb_bytes p)) = Inr p"
  using pcb_get_ahead [OF assms(1), of _ "[]"] ahead_received [OF assms(2)] by (simp add: take_pcb_def)

definition words_packet :: "kernel_headers \<Rightarrow> u32 list \<Rightarrow> t_packet" where
  "words_packet h ws = word_packet (kernel_code h) ws"

definition process_packet :: "t_process \<Rightarrow> t_packet" where
  "process_packet p = received (kernel_code NEW_PROCESS) (process_bytes p)"

definition pcb_call :: "kernel_headers \<Rightarrow> t_pcb \<Rightarrow> t_packet" where
  "pcb_call h p = received (kernel_code h) (pcb_bytes p)"

lemma take_pcb_call: "wf_pcb p \<Longrightarrow> length (pcb_bytes p) < 2 ^ 32 \<Longrightarrow> take_pcb (pcb_call h p) = Inr p"
  by (simp add: pcb_call_def received_pcb)

lemma headers [simp]:
  "header (words_packet h ws) = kernel_code h" "header (process_packet p) = kernel_code NEW_PROCESS"
  "header (pcb_call h pcb) = kernel_code h"
  by (simp_all add: words_packet_def process_packet_def pcb_call_def)

lemma take_one_word: "\<exists>p'. take_u32 (words_packet h [a]) = Inr (a, p')"
  using take_u32_left [OF words_left_packet, of a "[]"] by (auto simp: words_packet_def)

lemma take_three_words:
  "bindE (take_u32 (words_packet h [a, b, c])) (\<lambda>(a, p). bindE (take_u32 p) (\<lambda>(b, p).
     bindE (take_u32 p) (\<lambda>(c, p). f a b c))) = f a b c"
  unfolding words_packet_def by (rule take_words(3)) (simp add: words_left_packet)

lemma call_kernel:
  "call_handler (kernel_handlers junk now sock) (process_packet p) s = receive_process junk sock (process_packet p) s"
  "call_handler (kernel_handlers junk now sock) (words_packet PROCESS_MEMORY_READY ws) s
     = table_index_success (words_packet PROCESS_MEMORY_READY ws) s"
  "call_handler (kernel_handlers junk now sock) (words_packet PROCESS_EXIT_READY ws) s
     = exit_process_success (words_packet PROCESS_EXIT_READY ws) s"
  "call_handler (kernel_handlers junk now sock) (pcb_call IO_CALL pcb) s = io_op now (pcb_call IO_CALL pcb) s"
  "call_handler (kernel_handlers junk now sock) (pcb_call EXIT_CALL pcb) s = exit_op (pcb_call EXIT_CALL pcb) s"
  "call_handler (kernel_handlers junk now sock) (pcb_call INTERRUPT_DISPATCH pcb) s
     = handle_interruption now (pcb_call INTERRUPT_DISPATCH pcb) s"
  by (simp_all add: call_handler_def kernel_handlers_def)

text \<open>Arrivals, evaluated.\<close>

definition new_pcb :: "t_pcb \<Rightarrow> u32 \<Rightarrow> t_process \<Rightarrow> kernel \<Rightarrow> t_pcb" where
  "new_pcb junk sock p s = junk\<lparr>instructions := proc_instructions p, pcb_size := proc_size p,
     pid := of_int (last_pid s + 1), client_socket := sock, program_counter := 0,
     burst_estimation := initialEstimate s, left_burst_estimation := initialEstimate s\<rparr>"

lemma receive_process_eq:
  assumes "wf_process p" and "length (process_bytes p) < 2 ^ 32"
  shows "receive_process junk sock (process_packet p) s = Inr (True, s\<lparr>last_pid := last_pid s + 1,
      heap := (heap s)(next_addr s \<mapsto> new_pcb junk sock p s), next_addr := next_addr s + 1,
      new_q := pQueue_put (new_q s) (next_addr s), any_for_ready := any_for_ready s + 1\<rparr>)"
  using received_process [OF assms]
  by (simp add: receive_process_def receive_process_put_def receive_process_log_def load_pcb_def process_packet_def create_pcb_def alloc_pcb_def new_pcb_def Let_def)

lemma table_index_success_eq:
  assumes "kernel_inv s" and "to_ready_at s = TR_WaitTable a" and "pcb_table_ready s = 0"
    and "heap s a = Some pcb"
  shows "table_index_success (words_packet PROCESS_MEMORY_READY [pid pcb, t, f]) s =
    Inr (False, s\<lparr>heap := (heap s)(a \<mapsto> pcb\<lparr>page_table := t, process_frames_index := f\<rparr>),
                  memory_init_q := popped_to [] (memory_init_q s), pcb_table_ready := 1\<rparr>)"
proof -
  have q: "lib_queue (memory_init_q s) = [a]"
    using assms by (auto simp: kernel_inv_def init_ok_def)
  show ?thesis
    using table_index_iter [OF queues_okD(7) [OF assms(1)] q assms(4)] assms(3)
    by (simp add: table_index_success_def take_three_words)
qed

end
