(* ===== verification/Kernel_Props.thy ===== *)
theory Kernel_Props
  imports Kernel_Degree
begin

text \<open>
  Properties of the kernel: no thread faults, one log call excepted, and the two threads that alone take
  from their queue never wait there; the degree of multiprogramming; where every pcb is; the burst
  estimate and the order of shortest remaining burst; and what goes wrong: the deadlock of replanning,
  the dangling pcbs of \<open>memory_exit_q\<close>, the answers of memory that come too early, and the log calls
  that read a pcb other threads may have freed.

  The runs below are lists of events evaluated by the simplifier, on a process of no instructions.
\<close>

definition small_process :: t_process where
  "small_process = \<lparr>proc_size = 8, proc_instructions = []\<rparr>"

lemma small_process_ok: "wf_process small_process" "length (process_bytes small_process) < 2 ^ 32"
  by (simp_all add: small_process_def wf_process_def process_bytes_def enc_LIST_def)

definition admit :: "u32 \<Rightarrow> event list" where
  "admit p = [Arrive 0 9 (process_packet small_process), Run_to_ready, Run_to_ready, Run_to_ready, Run_to_ready,
     Arrive 0 0 (words_packet PROCESS_MEMORY_READY [p, 0, 0]), Run_to_ready, Run_to_ready]"

definition dispatch_run :: "event list" where
  "dispatch_run = [Run_to_exec 0, Run_to_exec 0, Run_to_exec 0, Run_to_exec 0]"

lemmas step_defs = to_ready_step_def to_exec_step_def io_step_def exit_step_def
  suspended_to_ready_def new_to_ready_def take_pcb_from_def when_taken_def ask_tables_def
  send_memory_request_def put_to_ready_def put_to_ready_unlock_def put_to_ready_finish_def
  sort_ready_def dispatch_def pcb_destroy_def load_pcb_def store_pcb_def ask_exit_def
  pQueue_take_def queue_pop_def pQueue_is_empty_def pQueue_create_def pQueue_put_def pQueue_sort_def
  table_index_success_def pQueue_iterate_def memory_data_to_pid_def SJF_sort_def

lemmas run_simps = step_defs stepped_def from_cpu_def names_exiting_def Let_def
  call_kernel receive_process_eq [OF small_process_ok] take_three_words new_pcb_def

text \<open>A state in which the kernel is about to dispatch a process.\<close>

lemma dispatching_state:
  "\<exists>s. conf_reachable insertion_sort 2 (s, 0, 0) \<and> to_exec_at s = TE_Take \<and> exit_at s = EX_Wait"
proof -
  have "\<exists>s. run insertion_sort (admit 1 @ take 3 dispatch_run) (kernel_init ''FIFO'' 10 0 2 100, 0, 0) = Some (s, 0, 0)
      \<and> to_exec_at s = TE_Take \<and> exit_at s = EX_Wait"
    unfolding admit_def dispatch_run_def kernel_init_def choose_scheduler_def by (simp add: run_simps)
  then show ?thesis using run_reachable [OF conf_reachable_init] by blast
qed

text \<open>
  C11. The two threads that alone take from their queue never wait in its pQueue_take, in any
  interleaving: exit_process, once it has a token of to_exit, takes the process that has waited
  longest and asks memory to free it; to_exec, once it has its tokens and the lock, takes the
  first ready process, sends it to the CPU, frees its pcb and gives the lock back.
\<close>

theorem exit_and_dispatch_never_wait:
  assumes "sorts srt" and "kernel_reachable srt level s"
  shows "(exit_at s = EX_Take \<longrightarrow> (\<exists>s' a xs pcb. exit_step s = Inr (Some s') \<and> exit_at s' = EX_Sent a
        \<and> lib_queue (exit_q s) = a # xs \<and> lib_queue (exit_q s') = xs \<and> heap s a = Some pcb
        \<and> memory_out s' = memory_out s
            @ [memory_request PROCESS_EXIT [pid pcb, page_table pcb, process_frames_index pcb]]))
    \<and> (to_exec_at s = TE_Take \<longrightarrow> (\<exists>s' a xs pcb. to_exec_step now s = Inr (Some s') \<and> to_exec_at s' = TE_WaitReady
        \<and> lib_queue (ready_q s) = a # xs \<and> lib_queue (ready_q s') = xs \<and> heap s a = Some pcb \<and> heap s' a = None
        \<and> cpu_out s' = cpu_out s @ [pcb_packet pcb] \<and> execution_mutex s' = None))"
proof (intro conjI impI)
  have inv: "kernel_inv s" using assms kernel_reachable_inv by blast
  then have c: "memory_socket s \<noteq> -1" "cpu_dispatch_socket s \<noteq> -1" by (simp_all add: kernel_inv_def connected_def)
  show "\<exists>s' a xs pcb. exit_step s = Inr (Some s') \<and> exit_at s' = EX_Sent a
      \<and> lib_queue (exit_q s) = a # xs \<and> lib_queue (exit_q s') = xs \<and> heap s a = Some pcb
      \<and> memory_out s' = memory_out s
          @ [memory_request PROCESS_EXIT [pid pcb, page_table pcb, process_frames_index pcb]]" if "exit_at s = EX_Take"
    by (rule exit_take [OF inv that]) (use c in \<open>simp add: ask_exit_def send_memory_request_def\<close>)
  show "\<exists>s' a xs pcb. to_exec_step now s = Inr (Some s') \<and> to_exec_at s' = TE_WaitReady
      \<and> lib_queue (ready_q s) = a # xs \<and> lib_queue (ready_q s') = xs \<and> heap s a = Some pcb \<and> heap s' a = None
      \<and> cpu_out s' = cpu_out s @ [pcb_packet pcb] \<and> execution_mutex s' = None" if "to_exec_at s = TE_Take"
    by (rule exec_take [OF inv that, of now]) (use c in \<open>simp add: dispatch_def pcb_destroy_def load_pcb_def Let_def\<close>)
qed

theorem exit_and_dispatch_never_wait_witness:
  "\<exists>s s'. kernel_reachable insertion_sort 2 s \<and> to_exec_at s = TE_Take
     \<and> to_exec_step 0 s = Inr (Some s') \<and> execution_mutex s' = None"
proof -
  obtain s where s: "conf_reachable insertion_sort 2 (s, 0, 0)" "to_exec_at s = TE_Take"
    using dispatching_state by blast
  then have r: "kernel_reachable insertion_sort 2 s" using conf_kernel_reachable by fastforce
  show ?thesis
    using exit_and_dispatch_never_wait [OF sorts_insertion_sort r, of 0] r s(2) by blast
qed

lemma exit_step_safe:
  assumes inv: "kernel_inv s"
  shows "exit_step s \<noteq> Inl e"
proof (cases "exit_at s")
  case EX_Take
  show ?thesis by (rule exit_take [OF inv EX_Take]) simp
qed (simp_all add: exit_step_def)

lemma to_exec_step_safe:
  assumes inv: "kernel_inv s"
  shows "to_exec_step now s \<noteq> Inl e"
proof (cases "to_exec_at s")
  case TE_Take
  show ?thesis
    by (rule exec_take [OF inv TE_Take, of now]) (simp add: dispatch_def pcb_destroy_def load_pcb_def)
qed (simp_all add: to_exec_step_def)

lemma io_step_safe:
  assumes "sorts srt" and inv: "kernel_inv s"
  shows "io_step srt now s \<noteq> Inl e"
proof (cases "io_at s")
  case IO_Run
  show ?thesis by (rule io_take [OF inv IO_Run, of srt now]) simp_all
next
  case (IO_Put a)
  then have h: "heap s a \<noteq> None" using queues_alive(8) [OF inv] by simp
  show ?thesis
    by (rule put_to_ready_outcome [OF assms(1) queues_okD(2) [OF inv] queues_alive(2) [OF inv] h, of IoListener])
      (simp_all add: io_step_def IO_Put)
next
  case (IO_WaitInterrupt a)
  show ?thesis
    by (rule put_to_ready_finish_outcome [OF assms(1) queues_okD(2) [OF inv] queues_alive(2) [OF inv]])
      (simp add: io_step_def IO_WaitInterrupt)
qed (simp_all add: io_step_def)

lemma to_ready_step_fault:
  assumes "sorts srt" and inv: "kernel_inv s" and st: "to_ready_step srt s = Inl e"
  shows "e = UseAfterFree \<and> (\<exists>a. to_ready_at s = TR_Log a \<and> heap s a = None)"
proof (cases "to_ready_at s")
  case TR_Check
  show ?thesis by (rule ready_take [OF inv TR_Check, of srt]) (use st in simp_all)
next
  case (TR_Put a b)
  then have h: "heap s a \<noteq> None" using queues_alive(7) [OF inv] by simp
  show ?thesis
    by (rule put_to_ready_outcome [OF assms(1) queues_okD(2) [OF inv] queues_alive(2) [OF inv] h, of ToReady])
      (use st in \<open>auto simp: to_ready_step_def TR_Put split: if_splits\<close>)
next
  case (TR_WaitInterrupt a b)
  show ?thesis
    by (rule put_to_ready_finish_outcome [OF assms(1) queues_okD(2) [OF inv] queues_alive(2) [OF inv]])
      (use st in \<open>auto simp: to_ready_step_def TR_WaitInterrupt split: if_splits\<close>)
next
  case (TR_Log a)
  with st show ?thesis by (auto simp: to_ready_step_def load_pcb_def split: option.splits)
qed (use st in \<open>auto simp: to_ready_step_def\<close>)

text \<open>
  C12. In every reachable state of the kernel a thread step ends without a fault, but for the
  log call at the end of new_to_ready, which reads a pcb that the dispatcher has freed.
\<close>

theorem kernel_threads_never_fault:
  assumes "sorts srt" and "kernel_reachable srt level s"
  shows "to_exec_step now s \<noteq> Inl e \<and> io_step srt now s \<noteq> Inl e \<and> exit_step s \<noteq> Inl e
    \<and> (to_ready_step srt s = Inl e \<longrightarrow> e = UseAfterFree \<and> (\<exists>a. to_ready_at s = TR_Log a \<and> heap s a = None))"
proof -
  have inv: "kernel_inv s" using assms kernel_reachable_inv by blast
  show ?thesis
    using to_exec_step_safe [OF inv] io_step_safe [OF assms(1) inv] exit_step_safe [OF inv]
      to_ready_step_fault [OF assms(1) inv] by blast
qed

theorem kernel_threads_never_fault_witness:
  "\<exists>s. kernel_reachable insertion_sort 2 s \<and> to_exec_at s = TE_Take \<and> to_exec_step 0 s \<noteq> Inl UseAfterFree"
proof -
  obtain s where s: "conf_reachable insertion_sort 2 (s, 0, 0)" "to_exec_at s = TE_Take"
    using dispatching_state by blast
  then have r: "kernel_reachable insertion_sort 2 s" using conf_kernel_reachable by fastforce
  show ?thesis
    using kernel_threads_never_fault [OF sorts_insertion_sort r, of 0 UseAfterFree] r s(2) by blast
qed

theorem new_to_ready_log_race:
  "\<exists>s. kernel_reachable insertion_sort 2 s \<and> to_ready_step insertion_sort s = Inl UseAfterFree"
proof -
  have "\<exists>s n. run insertion_sort (admit 1 @ dispatch_run) (kernel_init ''FIFO'' 10 0 2 100, 0, 0) = Some (s, n, 0)
      \<and> to_ready_step insertion_sort s = Inl UseAfterFree"
    unfolding admit_def dispatch_run_def kernel_init_def choose_scheduler_def by (simp add: run_simps)
  then show ?thesis using run_reachable [OF conf_reachable_init] conf_kernel_reachable by fastforce
qed

text \<open>
  receive_process logs the pcb after it put it on new_q: by then the token of another console's
  process can have sent it through the CPU's dispatch, which frees it.
\<close>

theorem receive_process_log_race:
  "\<exists>a s s' n. receive_process_put blank_pcb 9 (process_packet small_process) (kernel_init ''FIFO'' 10 0 2 100) = Inr (a, s)
    \<and> (conf_step insertion_sort)\<^sup>*\<^sup>* (s, 0, 0) (s', n, 0) \<and> receive_process_log a s' = Inl UseAfterFree"
proof -
  let ?k = "kernel_init ''FIFO'' 10 0 2 100"
  let ?s = "?k\<lparr>last_pid := 1, heap := [0 \<mapsto> new_pcb blank_pcb 9 small_process ?k], next_addr := 1, new_q := pQueue_put pQueue_create 0\<rparr>"
  have put: "receive_process_put blank_pcb 9 (process_packet small_process) ?k = Inr (0, ?s)"
    using received_process [OF small_process_ok]
    by (simp add: receive_process_put_def process_packet_def kernel_init_def create_pcb_def alloc_pcb_def new_pcb_def Let_def)
  have "\<exists>s' n. run insertion_sort (admit 1 @ dispatch_run) (?s, 0, 0) = Some (s', n, 0)
      \<and> receive_process_log 0 s' = Inl UseAfterFree"
    unfolding admit_def dispatch_run_def kernel_init_def choose_scheduler_def
    by (simp add: run_simps receive_process_log_def)
  with put show ?thesis using run_steps by blast
qed

text \<open>
  C4. As long as the CPU returns only pcbs it was given and memory confirms only exits it was
  asked for, even when the confirmation overtakes the queueing of the pcb, the free slots of
  sem_multiprogram and the processes in memory together never exceed the configured level, in
  every interleaving of the kernel's threads and handlers.
\<close>

theorem degree_of_multiprogramming:
  assumes "sorts srt" and "conf_reachable srt level (s, n, e)"
  shows "sem_multiprogram s + in_memory (s, n, e) \<le> level"
  using conf_reachable_ok [OF assms(2,1)] by (simp add: degree_ok_def)

definition stuck :: "kernel \<Rightarrow> bool" where
  "stuck s \<longleftrightarrow> to_exec_at s = TE_Lock \<and> tr_interrupted (to_ready_at s) \<and> interrupt_ready s = 0"

lemma stuck_step:
  assumes inv: "kernel_inv s" and srt: "sorts srt" and st: "stuck s"
    and step: "conf_step srt (s, 0, e) (s', n, e')"
  shows "stuck s' \<and> n = 0 \<and> cpu_out s' = cpu_out s"
proof -
  obtain a b where at: "to_ready_at s = TR_WaitInterrupt a b"
    using st by (cases "to_ready_at s") (auto simp: stuck_def)
  have m: "execution_mutex s = Some ToReady" using st mutex_owners(1) [OF inv] by (simp add: stuck_def)
  have no_io: "\<not> io_interrupted (io_at s)" using st mutex_owners(4) [OF inv] by (simp add: stuck_def)
  from step show ?thesis
  proof cases
    case to_ready
    then show ?thesis using st at by (simp add: to_ready_step_def stuck_def)
  next
    case (to_exec now)
    then show ?thesis using st m by (simp add: to_exec_step_def stuck_def)
  next
    case (io now)
    from inv srt io(3) have "to_exec_at s' = to_exec_at s \<and> to_ready_at s' = to_ready_at s
        \<and> interrupt_ready s' = interrupt_ready s \<and> cpu_out s' = cpu_out s"
      by (cases rule: io_step_E)
        (use m no_io in \<open>auto simp: io_blocked_def io_suspended_def send_memory_request_def store_pcb_def Let_def\<close>)
    with io st show ?thesis by (simp add: stuck_def)
  next
    case exit
    from inv exit(3) have "to_exec_at s' = to_exec_at s \<and> to_ready_at s' = to_ready_at s
        \<and> interrupt_ready s' = interrupt_ready s \<and> cpu_out s' = cpu_out s"
      by (cases rule: exit_step_E) (auto simp: ask_exit_def send_memory_request_def)
    with exit st show ?thesis by (simp add: stuck_def)
  next
    case (exited p junk now sock bb)
    from exited(4) have "to_exec_at s' = to_exec_at s \<and> to_ready_at s' = to_ready_at s
        \<and> interrupt_ready s' = interrupt_ready s \<and> cpu_out s' = cpu_out s"
    proof (cases rule: kernel_packet_E)
      case exited
      show ?thesis by (rule exit_process_success_E [OF inv exited(2)]) simp
    qed (use exited in auto)
    with exited st show ?thesis by (simp add: stuck_def)
  next
    case (packet p junk now sock bb)
    from packet(5) have "to_exec_at s' = to_exec_at s \<and> to_ready_at s' = to_ready_at s
        \<and> interrupt_ready s' = interrupt_ready s \<and> cpu_out s' = cpu_out s"
    proof (cases rule: kernel_packet_E)
      case process
      from process(2) show ?thesis by (rule receive_process_E) simp
    next
      case tables
      from inv tables(2) show ?thesis by (cases rule: table_index_success_E) auto
    qed (use packet in \<open>auto simp: from_cpu_def suspension_success_def\<close>)
    with packet st show ?thesis by (simp add: stuck_def)
  qed
qed

theorem degree_of_multiprogramming_witness:
  "\<exists>s. conf_reachable insertion_sort 2 (s, 0, 0) \<and> to_exec_at s = TE_Take
     \<and> sem_multiprogram s + in_memory (s, 0, 0) \<le> 2"
  using dispatching_state degree_of_multiprogramming [OF sorts_insertion_sort] by meson

text \<open>
  C32. Once put_to_ready waits for an interrupt answer with the execution mutex held while the
  CPU has no process, every later state is still stuck there and nothing more is dispatched.
\<close>

theorem replanning_deadlock:
  assumes "sorts srt" and "conf_reachable srt level (s, 0, e)" and "stuck s"
    and "(conf_step srt)\<^sup>*\<^sup>* (s, 0, e) (s', n, e')"
  shows "stuck s' \<and> n = 0 \<and> cpu_out s' = cpu_out s"
proof -
  have "kernel_inv (fst c) \<and> stuck (fst c) \<and> fst (snd c) = 0 \<and> cpu_out (fst c) = cpu_out s"
    if "(conf_step srt)\<^sup>*\<^sup>* (s, 0, e) c" for c
    using that
  proof (induction rule: rtranclp_induct)
    case base
    then show ?case using conf_reachable_ok [OF assms(2,1)] assms(3) by simp
  next
    case (step c d)
    then have "conf_step srt (fst c, 0, snd (snd c)) (fst d, fst (snd d), snd (snd d))" by (metis prod.collapse)
    with step.IH stuck_step [OF _ assms(1)] kernel_step_inv [OF conf_step_kernel_step assms(1)] step.hyps(2)
    show ?case by metis
  qed
  from this [OF assms(4)] show ?thesis by simp
qed

theorem replanning_deadlock_witness:
  "\<exists>s. conf_reachable insertion_sort 2 (s, 0, 0) \<and> stuck s
     \<and> (\<forall>s' n e'. (conf_step insertion_sort)\<^sup>*\<^sup>* (s, 0, 0) (s', n, e') \<longrightarrow> stuck s' \<and> n = 0 \<and> cpu_out s' = cpu_out s)"
proof -
  have "\<exists>s. run insertion_sort (admit 1 @ [Run_to_exec 0, Run_to_exec 0, Run_to_ready] @ admit 2)
      (kernel_init ''SRT'' 10 0 2 100, 0, 0) = Some (s, 0, 0) \<and> stuck s"
    unfolding admit_def kernel_init_def choose_scheduler_def stuck_def by (simp add: run_simps)
  then obtain s where "conf_reachable insertion_sort 2 (s, 0, 0)" "stuck s"
    using run_reachable [OF conf_reachable_init] by blast
  with replanning_deadlock [OF sorts_insertion_sort this] show ?thesis by blast
qed

text \<open>A pcb that was freed on its exit stays in \<open>memory_exit_q\<close>.\<close>

definition dangling :: "kernel \<Rightarrow> bool" where
  "dangling s \<longleftrightarrow> (\<exists>a \<in> set (lib_queue (memory_exit_q s)). heap s a = None)"

lemma dangling_step:
  assumes inv: "kernel_inv s" and srt: "sorts srt" and d: "dangling s" and st: "kernel_step srt s s'"
  shows "dangling s'"
proof -
  obtain a where a: "a \<in> set (lib_queue (memory_exit_q s))" "heap s a = None"
    using d by (auto simp: dangling_def)
  have lt: "a \<noteq> next_addr s" using inv a by (auto simp: kernel_inv_def own_ok_def placed_def)
  have "a \<in> set (lib_queue (memory_exit_q s')) \<and> heap s' a = None"
    using st
  proof cases
    case to_ready
    from inv srt to_ready show ?thesis
      by (cases rule: to_ready_step_E) (use a in \<open>auto simp: ask_tables_def send_memory_request_def\<close>)
  next
    case (to_exec now)
    from inv to_exec show ?thesis by (cases rule: to_exec_step_E) (use a in auto)
  next
    case (io now)
    from inv srt io show ?thesis
      by (cases rule: io_step_E)
        (use a in \<open>auto simp: io_blocked_def io_suspended_def send_memory_request_def store_pcb_def Let_def\<close>)
  next
    case exit
    from inv exit show ?thesis
      by (cases rule: exit_step_E) (use a in \<open>auto simp: ask_exit_def send_memory_request_def\<close>)
  next
    case (packet junk now sock p serve)
    then show ?thesis
    proof (cases rule: kernel_packet_E)
      case process
      from process(2) show ?thesis by (rule receive_process_E) (use a lt in simp)
    next
      case io
      from io(2) show ?thesis by (rule io_op_E) (use a lt in simp)
    next
      case exit
      from exit(2) show ?thesis by (rule exit_op_E) (use a lt in simp)
    next
      case interruption
      from interruption(2) show ?thesis by (rule handle_interruption_E) (use a lt in simp)
    next
      case tables
      from inv tables(2) show ?thesis by (cases rule: table_index_success_E) (use a in auto)
    next
      case exited
      show ?thesis by (rule exit_process_success_E [OF inv exited(2)]) (use a in fastforce)
    next
      case suspension
      then show ?thesis using a by (auto simp: suspension_success_def)
    qed
  qed
  then show ?thesis by (auto simp: dangling_def)
qed

lemma page_table_to_pid_fault: "iterE (page_table_to_pid p) xs r = Inl e \<Longrightarrow> e = UseAfterFree"
proof (induction xs arbitrary: r)
  case (Cons a xs)
  obtain cs s where "r = (cs, s)" by fastforce
  with Cons show ?case by (auto simp: page_table_to_pid_step bindE_iffs split: option.splits)
qed simp

text \<open>
  C33. After exit_process_success has answered one console, the freed pcb stays in
  memory_exit_q, and the next PROCESS_EXIT_READY reads it: every further one faults.
\<close>

theorem second_exit_faults:
  assumes "sorts srt" and "kernel_reachable srt level s"
    and "names_exiting p s" and "exit_process_success p s = Inr (b, s1)"
    and "(kernel_step srt)\<^sup>*\<^sup>* s1 s2" and "take_u32 q = Inr (v, q')"
  shows "exit_process_success q s2 = Inl UseAfterFree"
proof -
  have inv: "kernel_inv s" using assms kernel_reachable_inv by blast
  have inv1: "kernel_inv s1" by (rule exit_process_success_inv [OF inv assms(4)])
  have "dangling s1"
    by (rule exit_process_success_E [OF inv assms(4)])
      (use assms(3) in \<open>force simp: dangling_def names_exiting_def split: sum.splits option.splits\<close>)
  with assms(5) inv1 have "kernel_inv s2 \<and> dangling s2"
    by (induction rule: rtranclp_induct) (auto intro: kernel_step_inv [OF _ assms(1)] dangling_step [OF _ assms(1)])
  then have "exit_process_success q s2 \<noteq> Inr r" for r
    by (cases r) (force simp: dangling_def elim: exit_process_success_E)
  then obtain e where "exit_process_success q s2 = Inl e" by (cases "exit_process_success q s2") auto
  moreover from this have "e = UseAfterFree"
    using assms(6) page_table_to_pid_fault
    by (fastforce simp: exit_process_success_def bindE_iffs pQueue_iterate_def Let_def)
  ultimately show ?thesis by simp
qed

text \<open>From the console's packet to the answer it gets: a process alone in the system.\<close>

definition lifecycle :: "t_process \<Rightarrow> u32 \<Rightarrow> u32 \<Rightarrow> u32 \<Rightarrow> t_pcb \<Rightarrow> event list" where
  "lifecycle p sock t f back =
     [Arrive 0 sock (process_packet p), Run_to_ready, Run_to_ready, Run_to_ready, Run_to_ready,
      Arrive 0 0 (words_packet PROCESS_MEMORY_READY [1, t, f]), Run_to_ready, Run_to_ready, Run_to_ready,
      Run_to_exec 0, Run_to_exec 0, Run_to_exec 0, Run_to_exec 0,
      Arrive 0 0 (pcb_call EXIT_CALL back), Run_exit, Run_exit, Run_exit,
      Arrive 0 0 (words_packet PROCESS_EXIT_READY [pid back])]"

lemma exit_op_eq:
  assumes "wf_pcb p" and "length (pcb_bytes p) < 2 ^ 32"
  shows "exit_op (pcb_call EXIT_CALL p) s = Inr (True, s\<lparr>heap := (heap s)(next_addr s \<mapsto> p),
      next_addr := next_addr s + 1, exit_q := pQueue_put (exit_q s) (next_addr s),
      to_exit := to_exit s + 1, cpu_free := cpu_free s + 1\<rparr>)"
  using take_pcb_call [OF assms] by (simp add: exit_op_def alloc_pcb_def Let_def)

definition small_pcb :: t_pcb where
  "small_pcb = blank_pcb\<lparr>pid := 1, client_socket := 9\<rparr>"

lemma small_pcb_ok: "wf_pcb small_pcb" "length (pcb_bytes small_pcb) < 2 ^ 32"
  by (simp_all add: small_pcb_def blank_pcb_def wf_pcb_def pcb_bytes_def enc_LIST_def)

theorem second_exit_faults_witness:
  "\<exists>s1. kernel_reachable insertion_sort 2 s1
     \<and> exit_process_success (words_packet PROCESS_EXIT_READY [1]) s1 = Inl UseAfterFree"
proof -
  obtain w where w: "take_u32 (words_packet PROCESS_EXIT_READY [1]) = Inr (1, w)"
    using take_one_word by blast
  have "client_socket small_pcb = 9" "(9 :: u32) \<noteq> 0" "pid small_pcb = 1" by (simp_all add: small_pcb_def blank_pcb_def)
  note eqs = run_simps receive_process_eq [OF small_process_ok] exit_op_eq [OF small_pcb_ok] w this
       exit_process_success_def page_table_to_pid_step blank_pcb_def
  have "\<exists>s b s1. run insertion_sort (butlast (lifecycle small_process 9 0 0 small_pcb))
      (kernel_init ''FIFO'' 10 0 2 100, 0, 0) = Some (s, 0, 1) \<and> names_exiting (words_packet PROCESS_EXIT_READY [1]) s
      \<and> exit_process_success (words_packet PROCESS_EXIT_READY [1]) s = Inr (b, s1)"
    unfolding lifecycle_def kernel_init_def choose_scheduler_def by (simp add: eqs) blast
  then obtain s b s1 where s: "conf_reachable insertion_sort 2 (s, 0, 1)"
      and n: "names_exiting (words_packet PROCESS_EXIT_READY [1]) s"
      and e: "exit_process_success (words_packet PROCESS_EXIT_READY [1]) s = Inr (b, s1)"
    using run_reachable [OF conf_reachable_init] by blast
  have r: "kernel_reachable insertion_sort 2 s" using conf_kernel_reachable [OF s] by simp
  have "kernel_step insertion_sort s s1"
    by (rule kernel_step.packet [of blank_pcb 0 0 "words_packet PROCESS_EXIT_READY [1]" s b])
      (simp only: call_kernel e)
  then have "kernel_reachable insertion_sort 2 s1" using r kernel_reachable.step by blast
  with second_exit_faults [OF sorts_insertion_sort r n e rtranclp.rtrancl_refl w] show ?thesis by blast
qed

text \<open>A weighted mean of two integers lies between them; with five roundings it is off by less than a half.\<close>

lemma mean_between:
  fixes a :: real and x y :: int
  assumes "0 \<le> a" and "a \<le> 1"
  shows "of_int (min x y) \<le> a * of_int x + (1 - a) * of_int y"
    and "a * of_int x + (1 - a) * of_int y \<le> of_int (max x y)"
proof -
  let ?m = "a * of_int x + (1 - a) * of_int y"
  have "of_int (min x y) = a * of_int (min x y) + (1 - a) * of_int (min x y)"
    by (simp add: algebra_simps)
  also have "\<dots> \<le> ?m" using assms by (intro add_mono mult_left_mono) auto
  finally show "of_int (min x y) \<le> ?m" .
  have "?m \<le> a * of_int (max x y) + (1 - a) * of_int (max x y)"
    using assms by (intro add_mono mult_left_mono) auto
  also have "\<dots> = of_int (max x y)" by (simp add: algebra_simps)
  finally show "?m \<le> of_int (max x y)" .
qed

lemma rounded_mean_near:
  fixes a x y :: real
  assumes "0 \<le> a" and "a \<le> 1" and "0 \<le> x" and "x < 2 ^ 32" and "0 \<le> y" and "y < 2 ^ 32"
  shows "\<bar>round_double (round_double (a * x) + round_double (round_double (1 - a) * y)) - (a * x + (1 - a) * y)\<bar> < 1 / 2"
proof -
  define p where "p = round_double (a * x)"
  define c where "c = round_double (1 - a)"
  define q where "q = round_double (c * y)"
  have ax: "0 \<le> a * x" "a * x < 2 ^ 32" using assms mult_left_le_one_le [of x a] by auto
  have p: "\<bar>p - a * x\<bar> \<le> 2 ^ 32 / 2 ^ 54" unfolding p_def using ax by (intro round_double_error) simp
  have "\<bar>c - (1 - a)\<bar> \<le> 2 ^ 1 / 2 ^ 54" unfolding c_def using assms by (intro round_double_error) simp
  then have c: "\<bar>c - (1 - a)\<bar> \<le> 1 / 2 ^ 53" by simp
  have "(1 :: real) / 2 ^ 53 \<le> 1" by simp
  with c have "\<bar>c - (1 - a)\<bar> \<le> 1" by (rule order_trans)
  then have c2: "\<bar>c\<bar> \<le> 2" using assms(1,2) by (simp add: abs_le_iff)
  have cy: "\<bar>c * y\<bar> < 2 ^ 34"
  proof -
    have "\<bar>c * y\<bar> \<le> 2 * y" using c2 assms(5) by (simp add: abs_mult mult_right_mono)
    then show ?thesis using assms(6) by simp
  qed
  have q: "\<bar>q - c * y\<bar> \<le> 2 ^ 34 / 2 ^ 54" unfolding q_def using cy by (rule round_double_error)
  have "\<bar>c * y - (1 - a) * y\<bar> = \<bar>c - (1 - a)\<bar> * y" using assms(5) by (simp add: abs_mult flip: left_diff_distrib)
  also have "\<dots> \<le> 1 / 2 ^ 53 * 2 ^ 32" using c assms(5,6) by (intro mult_mono) auto
  finally have d: "\<bar>c * y - (1 - a) * y\<bar> \<le> 1 / 2 ^ 21" by simp
  have p1: "\<bar>p - a * x\<bar> \<le> 1 / 16" by (rule order_trans [OF p]) simp
  have q1: "\<bar>q - c * y\<bar> \<le> 1 / 16" by (rule order_trans [OF q]) simp
  have d1: "\<bar>c * y - (1 - a) * y\<bar> \<le> 1 / 16" by (rule order_trans [OF d]) simp
  have "\<bar>c * y\<bar> < 17179869184" "a * x < 4294967296" using cy ax by simp_all
  then have "\<bar>p + q\<bar> < 68719476736" using p1 q1 ax(1) by linarith
  then have "\<bar>p + q\<bar> < 2 ^ 36" by simp
  then have "\<bar>round_double (p + q) - (p + q)\<bar> \<le> 2 ^ 36 / 2 ^ 54" by (rule round_double_error)
  then have "\<bar>round_double (p + q) - (p + q)\<bar> \<le> 1 / 16" by (rule order_trans) simp
  then have "\<bar>round_double (p + q) - (a * x + (1 - a) * y)\<bar> < 1 / 2" using p1 q1 d1 by linarith
  then show ?thesis unfolding p_def c_def q_def .
qed

text \<open>
  C29. For a weight alpha between 0 and 1 and a burst that fits 32 bits the conversion of the
  new estimate is defined, and the estimate, whose double is rounded in every operation and then
  truncated, is at most the larger of the real burst and the old estimate and at least the
  smaller one less one.
\<close>

theorem next_estimate_between:
  assumes "0 \<le> a" and "a \<le> 1" and "0 \<le> rl" and "rl < 2 ^ 32"
  shows "\<exists>e. next_estimate a rl burst = Inr e
    \<and> min rl (uint burst) - 1 \<le> uint e \<and> uint e \<le> max rl (uint burst)"
proof -
  define b where "b = uint burst"
  define m where "m = round_double (round_double (a * of_int rl) + round_double (round_double (1 - a) * of_int b))"
  have b: "0 \<le> b" "b < 2 ^ 32" using uint_lt2p [of burst] by (simp_all add: b_def)
  have "\<bar>m - (a * of_int rl + (1 - a) * of_int b)\<bar> < 1 / 2"
    unfolding m_def using assms b by (intro rounded_mean_near) auto
  then have lo: "of_int (min rl b) - 1 / 2 < m" and hi: "m < of_int (max rl b) + 1 / 2"
    using mean_between [OF assms(1,2), of rl b] by linarith+
  define e where "e = (if 0 \<le> m then \<lfloor>m\<rfloor> else 0)"
  have e: "0 \<le> e" "min rl b - 1 \<le> e" "e \<le> max rl b" "e < 2 ^ 32"
    using lo hi assms(3,4) b unfolding e_def by (auto simp: le_floor_iff floor_le_iff)
  have "max rl b \<le> 2 ^ 32 - 1" "0 \<le> min rl b" using assms(3,4) b by auto
  then have "of_int (max rl b) \<le> (of_int (2 ^ 32 - 1) :: real)" "(0 :: real) \<le> of_int (min rl b)"
    by (simp_all only: of_int_le_iff of_int_0_le_iff)
  then have "of_int (max rl b) \<le> (4294967295 :: real)" "(0 :: real) \<le> of_int (min rl b)" by simp_all
  with lo hi have "-1 < m" "m < 4294967296" by linarith+
  then have "next_estimate a rl burst = Inr (of_int e)"
    unfolding next_estimate_def Let_def b_def [symmetric] m_def [symmetric] e_def by simp
  moreover have "uint (of_int e :: u32) = e"
    using e by (simp add: uint_word_of_int_eq take_bit_int_eq_self)
  ultimately show ?thesis using e by (simp add: b_def)
qed

theorem next_estimate_between_witness:
  "\<exists>e. next_estimate (1 / 2) 10 20 = Inr e \<and> 9 \<le> uint e \<and> uint e \<le> 20"
  using next_estimate_between [of "1 / 2" 10 20] by auto

text \<open>With the \<open>double\<close> nearest to 0.3 a real burst of 3 after an estimate of 3 gives an estimate of 2.\<close>

definition three_tenths :: real where "three_tenths = 5404319552844595 / 2 ^ 54"

theorem estimate_below_both: "next_estimate three_tenths 3 3 = Inr 2"
proof -
  have p: "round_double (three_tenths * 3) = 8106479329266892 / 2 ^ 53"
    using round_double_scaled [of "16212958658533785 / 2" 53] by (simp add: three_tenths_def round_half_even_def)
  have c: "round_double (1 - three_tenths) = 6305039478318694 / 2 ^ 53"
    using round_double_scaled [of "12610078956637389 / 2" 53] by (simp add: three_tenths_def round_half_even_def)
  have q: "round_double (6305039478318694 / 2 ^ 53 * 3) = 4728779608739020 / 2 ^ 51"
    using round_double_scaled [of "18915118434956082 / 4" 51] by (simp add: round_half_even_def)
  have s: "round_double (8106479329266892 / 2 ^ 53 + 4728779608739020 / 2 ^ 51) = 6755399441055743 / 2 ^ 51"
    using round_double_scaled [of "27021597764222972 / 4" 51] by (simp add: round_half_even_def)
  have u: "uint (3 :: u32) = 3" by simp
  have "round_double (round_double (three_tenths * of_int 3)
      + round_double (round_double (1 - three_tenths) * of_int (uint (3 :: u32)))) = 6755399441055743 / 2 ^ 51"
    by (simp only: u of_int_numeral p c q s)
  then have e: "round_double (round_double (three_tenths * of_int 3)
      + round_double (round_double (1 - three_tenths) * of_int (uint (3 :: u32)))) = 6755399441055743 / 2251799813685248"
    by (simp only:) simp
  show ?thesis unfolding next_estimate_def Let_def e by simp
qed

text \<open>A process that is taken from \<open>blocked_q\<close> after more than the maximum blocked time.\<close>

theorem overdue_io_grows:
  assumes "sleep_ms now (maxBlockedTime s) pcb < 0"
    and "uint (pending_io_time pcb) - sleep_ms now (maxBlockedTime s) pcb < 2 ^ 31" and "memory_socket s \<noteq> -1"
  shows "\<exists>pcb'. heap (io_blocked now a pcb s) a = Some pcb'
    \<and> uint (pending_io_time pcb') = uint (pending_io_time pcb) - sleep_ms now (maxBlockedTime s) pcb
    \<and> io_at (io_blocked now a pcb s) = IO_WaitSuspension a
    \<and> memory_out (io_blocked now a pcb s) = memory_out s
        @ [memory_request PROCESS_SUSPEND [pid pcb, page_table pcb, process_frames_index pcb]]"
proof -
  define ms where "ms = sleep_ms now (maxBlockedTime s) pcb"
  define p where "p = uint (pending_io_time pcb)"
  have w: "pending_io_time pcb = of_int p" by (simp add: p_def)
  have b: "0 \<le> p" "ms < 0" "p - ms < 2 ^ 31" using assms by (simp_all add: p_def ms_def)
  have s: "sint (of_int (ms - p) :: u32) = ms - p"
    using b by (simp add: int_word_sint del: of_int_diff)
  then have "remaining_io_time now (maxBlockedTime s) pcb < 0"
    using b by (simp add: remaining_io_time_def ms_def [symmetric] w)
  moreover have "uint (of_int (p - ms) :: u32) = p - ms"
    using b by (simp add: uint_word_of_int_eq take_bit_int_eq_self del: of_int_diff)
  ultimately show ?thesis
    by (simp add: assms(3) io_blocked_def store_pcb_def send_memory_request_def ms_def [symmetric] p_def [symmetric] Let_def)
     (simp add: w)
qed

theorem overdue_io_grows_witness:
  "\<exists>pcb'. heap (io_blocked 200 0 (blank_pcb\<lparr>blocked_time := 50, pending_io_time := 30\<rparr>)
       (kernel_init ''FIFO'' 10 0 1 100)) 0 = Some pcb' \<and> uint (pending_io_time pcb') = 80"
proof -
  have "sleep_ms 200 (maxBlockedTime (kernel_init ''FIFO'' 10 0 1 100))
      (blank_pcb\<lparr>blocked_time := 50, pending_io_time := 30\<rparr>) = -50"
    by (simp add: sleep_ms_def kernel_init_def)
  moreover have "memory_socket (kernel_init ''FIFO'' 10 0 1 100) \<noteq> -1" by (simp add: kernel_init_def)
  ultimately show ?thesis
    using overdue_io_grows [of 200 "kernel_init ''FIFO'' 10 0 1 100"
      "blank_pcb\<lparr>blocked_time := 50, pending_io_time := 30\<rparr>" 0] by auto
qed

lemma sorts_sorted:
  assumes "sorts srt" and "\<And>x y. le x y \<or> le y x" and "\<And>x y z. le x y \<Longrightarrow> le y z \<Longrightarrow> le x z"
  shows "sorted_wrt le (srt le xs)"
  using assms unfolding sorts_def by blast

text \<open>
  C16. With SRT and a free CPU put_to_ready adds the pcb, keeps the others, and leaves the queue
  so that the next dispatch takes a pcb of minimal left burst estimation.
\<close>

theorem srt_dispatches_shortest:
  assumes "sorts srt" and "sortingAlgorithm s = SRT" and "cpu_free s \<noteq> 0"
    and "pq_ok (ready_q s)" and "\<forall>b \<in> set (lib_queue (ready_q s)). heap s b \<noteq> None" and "heap s a \<noteq> None"
  shows "\<exists>s' b pcb q. put_to_ready srt me a s = Inr (True, s')
    \<and> take_pcb_from (ready_q s') s' = Inr (Some (b, pcb, q))
    \<and> add_mset b (mset (lib_queue q)) = add_mset a (mset (lib_queue (ready_q s)))
    \<and> (\<forall>c \<in> set (lib_queue q). sint (left_burst_estimation pcb) \<le> sint (left_burst_estimation (the (heap s' c))))"
proof -
  let ?le = "\<lambda>a b. SJF_sort (the (heap s a)) (the (heap s b))"
  let ?xs = "srt ?le (lib_queue (ready_q s) @ [a])"
  let ?s' = "put_to_ready_unlock (s\<lparr>execution_mutex := Some me,
    ready_q := pQueue_sort srt (pQueue_put (ready_q s) a) ?le\<rparr>)"
  have m: "mset ?xs = add_mset a (mset (lib_queue (ready_q s)))"
    using sorts_mset [OF assms(1)] by simp
  then obtain b ys where ys: "?xs = b # ys" by (cases ?xs) auto
  have "sorted_wrt ?le ?xs" by (rule sorts_sorted [OF assms(1)]) (auto simp: SJF_sort_def)
  then have le: "\<forall>c \<in> set ys. ?le b c" by (simp add: ys)
  have alive: "\<forall>c \<in> set ?xs. heap s c \<noteq> None"
    using assms(5,6) sorts_set [OF assms(1)] by auto
  have "put_to_ready srt me a s = Inr (True, ?s')"
    using assms(2,3,5,6) by (simp add: put_to_ready_def Let_def sort_ready_eq)
  moreover have "take_pcb_from (ready_q ?s') ?s'
      = Inr (Some (b, the (heap s b), popped_to ys (ready_q ?s')))"
    using alive assms(1,4) ys by (subst take_pcb_from_eq) (simp_all add: put_to_ready_unlock_def pq_ok_sort)
  ultimately show ?thesis
    using m ys le by (fastforce simp: put_to_ready_unlock_def SJF_sort_def)
qed

definition two_jobs :: kernel where
  "two_jobs = (kernel_init ''SRT'' 10 0 1 100)\<lparr>heap := [0 \<mapsto> blank_pcb\<lparr>left_burst_estimation := 7\<rparr>,
     1 \<mapsto> blank_pcb\<lparr>left_burst_estimation := 3\<rparr>], ready_q := pQueue_put pQueue_create 0\<rparr>"

theorem srt_dispatches_shortest_witness:
  "\<exists>s' b pcb q. put_to_ready insertion_sort ToReady 1 two_jobs = Inr (True, s')
     \<and> take_pcb_from (ready_q s') s' = Inr (Some (b, pcb, q))"
proof -
  have "sortingAlgorithm two_jobs = SRT" "cpu_free two_jobs \<noteq> 0" "pq_ok (ready_q two_jobs)"
    "\<forall>b \<in> set (lib_queue (ready_q two_jobs)). heap two_jobs b \<noteq> None" "heap two_jobs 1 \<noteq> None"
    by (simp_all add: two_jobs_def kernel_init_def choose_scheduler_def pQueue_create_def pq_ok_def)
  from srt_dispatches_shortest [OF sorts_insertion_sort this] show ?thesis by blast
qed

definition live_queues :: "kernel \<Rightarrow> nat list" where
  "live_queues s = lib_queue (new_q s) @ lib_queue (ready_q s) @ lib_queue (blocked_q s)
     @ lib_queue (suspended_ready_q s) @ lib_queue (suspended_block_q s) @ lib_queue (exit_q s)"

text \<open>The pcbs a thread has taken from a queue and not yet put in another.\<close>

definition in_hands :: "kernel \<Rightarrow> nat list" where
  "in_hands s = tr_held (to_ready_at s) @ io_held (io_at s) @ ex_held (exit_at s)"

lemma distinct_if_counts: "(\<And>a. count (mset xs) a \<le> 1) \<Longrightarrow> distinct xs"
proof (induction xs)
  case (Cons x xs)
  have "count (mset xs) a \<le> 1" for a
    by (rule order_trans [OF _ Cons.prems [of a]]) simp
  moreover have "count (mset xs) x = 0" using Cons.prems [of x] by simp
  then have "x \<notin> set xs" by (simp add: count_mset_0_iff)
  ultimately show ?case using Cons.IH by simp
qed simp

text \<open>
  C8. In every reachable state of the kernel, its queue operations taken as single steps, every
  pcb on the heap is in exactly one place, a queue or the hands of a thread; what the queues of
  the schedulers and the threads hold is allocated, the pcb waiting for its tables is the one
  its thread holds, and each semaphore counts its queue.
\<close>

theorem pcbs_have_one_place:
  assumes "sorts srt" and "kernel_reachable srt level s"
  shows "distinct (live_queues s @ in_hands s @ lib_queue (memory_exit_q s))
    \<and> (\<forall>a. heap s a \<noteq> None \<longrightarrow> a \<in> set (live_queues s @ in_hands s @ lib_queue (memory_exit_q s)))
    \<and> (\<forall>a \<in> set (live_queues s @ in_hands s). heap s a \<noteq> None)
    \<and> (\<forall>q \<in> {new_q s, ready_q s, memory_init_q s, memory_exit_q s, blocked_q s, suspended_ready_q s,
         suspended_block_q s, exit_q s}. sem q = length (lib_queue q))
    \<and> set (lib_queue (memory_init_q s)) \<subseteq> set (in_hands s)"
proof -
  have inv: "kernel_inv s" using assms kernel_reachable_inv by blast
  then have p: "placed (owned s) (lib_queue (memory_exit_q s)) (heap s) (next_addr s)"
    by (simp add: kernel_inv_def own_ok_def)
  have o: "mset (live_queues s @ in_hands s) = owned s"
    by (simp add: live_queues_def in_hands_def owned_def ac_simps)
  have le: "count (mset ((live_queues s @ in_hands s) @ lib_queue (memory_exit_q s))) a \<le> 1" for a
    using p unfolding placed_def mset_append o by (metis mset_append o)
  have "distinct ((live_queues s @ in_hands s) @ lib_queue (memory_exit_q s))"
    using le by (intro distinct_if_counts) blast
  moreover have "a \<in> set (live_queues s @ in_hands s @ lib_queue (memory_exit_q s))" if "heap s a \<noteq> None" for a
  proof -
    have "a \<in># owned s + mset (lib_queue (memory_exit_q s))" using p that by (simp add: placed_def)
    then show ?thesis by (simp flip: o)
  qed
  moreover have "heap s a \<noteq> None" if "a \<in> set (live_queues s @ in_hands s)" for a
  proof -
    have "a \<in># owned s" using that o by (metis set_mset_mset)
    then show ?thesis using p by (simp add: placed_def)
  qed
  moreover have "set (lib_queue (memory_init_q s)) \<subseteq> set (in_hands s)"
  proof -
    have "set (tr_table pc) \<subseteq> set (tr_held pc)" for pc by (cases pc) auto
    then have "set (tr_table (to_ready_at s)) \<subseteq> set (in_hands s)" by (auto simp: in_hands_def)
    with inv show ?thesis by (auto simp: kernel_inv_def init_ok_def)
  qed
  ultimately show ?thesis
    using inv by (auto simp: kernel_inv_def queues_ok_def pq_ok_def)
qed

theorem pcbs_have_one_place_witness:
  "\<exists>s. kernel_reachable insertion_sort 2 s \<and> to_exec_at s = TE_Take
    \<and> distinct (live_queues s @ in_hands s @ lib_queue (memory_exit_q s))"
proof -
  obtain s where s: "conf_reachable insertion_sort 2 (s, 0, 0)" "to_exec_at s = TE_Take"
    using dispatching_state by blast
  then have r: "kernel_reachable insertion_sort 2 s" using conf_kernel_reachable by fastforce
  show ?thesis using pcbs_have_one_place [OF sorts_insertion_sort r] r s(2) by blast
qed

section \<open>Answers of memory that come too early\<close>

text \<open>A step of the kernel other than an answer of memory to PROCESS_NEW.\<close>

inductive unanswered_step :: "sorter \<Rightarrow> kernel \<Rightarrow> kernel \<Rightarrow> bool" for srt where
  to_ready: "to_ready_step srt s = Inr (Some s') \<Longrightarrow> unanswered_step srt s s'"
| to_exec: "to_exec_step now s = Inr (Some s') \<Longrightarrow> unanswered_step srt s s'"
| io: "io_step srt now s = Inr (Some s') \<Longrightarrow> unanswered_step srt s s'"
| exit: "exit_step s = Inr (Some s') \<Longrightarrow> unanswered_step srt s s'"
| packet: "header p \<noteq> kernel_code PROCESS_MEMORY_READY \<Longrightarrow>
    call_handler (kernel_handlers junk now sock) p s = Inr (serve, s') \<Longrightarrow> unanswered_step srt s s'"

lemma unanswered_kernel_step: "unanswered_step srt s s' \<Longrightarrow> kernel_step srt s s'"
  by (induction rule: unanswered_step.induct) (auto intro: kernel_step.intros)

definition waits_for_table :: "nat \<Rightarrow> kernel \<Rightarrow> bool" where
  "waits_for_table a s \<longleftrightarrow> to_ready_at s = TR_WaitTable a \<and> pcb_table_ready s = 0"

lemma waits_step:
  assumes inv: "kernel_inv s" and srt: "sorts srt" and w: "waits_for_table a s" and st: "unanswered_step srt s s'"
  shows "waits_for_table a s'"
  using st
proof cases
  case to_ready
  with w show ?thesis by (simp add: to_ready_step_def waits_for_table_def)
next
  case (to_exec now)
  from inv to_exec show ?thesis by (cases rule: to_exec_step_E) (use w in \<open>auto simp: waits_for_table_def\<close>)
next
  case (io now)
  from inv srt io show ?thesis
    by (cases rule: io_step_E) (use w in \<open>auto simp: waits_for_table_def io_blocked_def io_suspended_def
      send_memory_request_def store_pcb_def Let_def\<close>)
next
  case exit
  from inv exit show ?thesis
    by (cases rule: exit_step_E) (use w in \<open>auto simp: waits_for_table_def ask_exit_def send_memory_request_def\<close>)
next
  case (packet p junk now sock serve)
  from packet(2) show ?thesis
  proof (cases rule: kernel_packet_E)
    case process
    from process(2) show ?thesis by (rule receive_process_E) (use w in \<open>simp add: waits_for_table_def\<close>)
  next
    case io
    from io(2) show ?thesis by (rule io_op_E) (use w in \<open>simp add: waits_for_table_def\<close>)
  next
    case exit
    from exit(2) show ?thesis by (rule exit_op_E) (use w in \<open>simp add: waits_for_table_def\<close>)
  next
    case interruption
    from interruption(2) show ?thesis by (rule handle_interruption_E) (use w in \<open>simp add: waits_for_table_def\<close>)
  next
    case exited
    show ?thesis
      by (rule exit_process_success_E [OF inv exited(2)]) (use w in \<open>simp add: waits_for_table_def\<close>)
  qed (use packet w in \<open>auto simp: suspension_success_def waits_for_table_def\<close>)
qed

text \<open>
  C38. new_to_ready sends PROCESS_NEW before it puts the pcb on memory_init_q: an answer of
  memory that is handled in between finds no pcb and changes nothing, and unless memory answers
  a second time the scheduler waits for its tables for ever, in every interleaving of the other
  threads and handlers.
\<close>

theorem early_table_answer_is_lost:
  assumes "sorts srt" and "kernel_reachable srt level s" and "to_ready_at s = TR_Sent a"
  shows "\<exists>s1. table_index_success (words_packet PROCESS_MEMORY_READY [p, t, f]) s = Inr (False, s)
    \<and> to_ready_step srt s = Inr (Some s1) \<and> lib_queue (memory_init_q s1) = [a]
    \<and> (\<forall>s2. (unanswered_step srt)\<^sup>*\<^sup>* s1 s2 \<longrightarrow> to_ready_at s2 = TR_WaitTable a \<and> to_ready_step srt s2 = Inr None)"
proof -
  have inv: "kernel_inv s" using assms kernel_reachable_inv by blast
  have q: "lib_queue (memory_init_q s) = []" "pcb_table_ready s = 0"
    using inv assms(3) by (auto simp: kernel_inv_def init_ok_def)
  let ?s1 = "s\<lparr>memory_init_q := pQueue_put (memory_init_q s) a, to_ready_at := TR_WaitTable a\<rparr>"
  have st: "to_ready_step srt s = Inr (Some ?s1)" using assms(3) by (simp add: to_ready_step_def)
  have "table_index_success (words_packet PROCESS_MEMORY_READY [p, t, f]) s = Inr (False, s)"
    using q(1) by (simp add: table_index_success_def take_three_words pQueue_iterate_def terminate_kernel_1)
  moreover have "kernel_inv s2 \<and> waits_for_table a s2" if "(unanswered_step srt)\<^sup>*\<^sup>* ?s1 s2" for s2
    using that
  proof (induction rule: rtranclp_induct)
    case base
    then show ?case using to_ready_step_inv [OF inv assms(1) st] q(2) by (simp add: waits_for_table_def)
  next
    case (step s2 s3)
    then show ?case
      using waits_step [OF _ assms(1)] kernel_step_inv [OF unanswered_kernel_step assms(1)] by blast
  qed
  then have "to_ready_at s2 = TR_WaitTable a \<and> to_ready_step srt s2 = Inr None"
    if "(unanswered_step srt)\<^sup>*\<^sup>* ?s1 s2" for s2
    using that by (fastforce simp: waits_for_table_def to_ready_step_def)
  ultimately show ?thesis using st q(1) by (intro exI [of _ ?s1]) simp
qed

theorem early_table_answer_is_lost_witness:
  "\<exists>s s1. kernel_reachable insertion_sort 2 s
    \<and> table_index_success (words_packet PROCESS_MEMORY_READY [1, 0, 0]) s = Inr (False, s)
    \<and> to_ready_step insertion_sort s = Inr (Some s1) \<and> to_ready_step insertion_sort s1 = Inr None"
proof -
  have "\<exists>s a. run insertion_sort (take 4 (admit 1)) (kernel_init ''FIFO'' 10 0 2 100, 0, 0) = Some (s, 0, 0)
      \<and> to_ready_at s = TR_Sent a"
    unfolding admit_def kernel_init_def choose_scheduler_def by (simp add: run_simps)
  then obtain s a where s: "conf_reachable insertion_sort 2 (s, 0, 0)" "to_ready_at s = TR_Sent a"
    using run_reachable [OF conf_reachable_init] by blast
  have r: "kernel_reachable insertion_sort 2 s" using conf_kernel_reachable [OF s(1)] by simp
  from early_table_answer_is_lost [OF sorts_insertion_sort r s(2), of 1 0 0] r show ?thesis by blast
qed

text \<open>
  C40. exit_process sends PROCESS_EXIT before it puts the pcb on memory_exit_q: an answer of
  memory that is handled in between frees the multiprogramming slot but finds no pcb, so no
  console is told, and the pcb then stays in memory_exit_q.
\<close>

theorem early_exit_answer_is_lost:
  assumes "sorts srt" and "kernel_reachable srt level s" and "exit_at s = EX_Sent a" and "heap s a = Some old"
    and "\<forall>b \<in> set (lib_queue (memory_exit_q s)). \<exists>q. heap s b = Some q \<and> pid q \<noteq> pid old"
  shows "\<exists>s1 s2. exit_process_success (words_packet PROCESS_EXIT_READY [pid old]) s = Inr (False, s1)
    \<and> exit_step s1 = Inr (Some s2) \<and> exit_at s2 = EX_Wait
    \<and> console_out s2 = console_out s \<and> a \<in> set (lib_queue (memory_exit_q s2)) \<and> heap s2 a = Some old
    \<and> sem_multiprogram s2 = sem_multiprogram s + 1"
proof -
  obtain w where w: "take_u32 (words_packet PROCESS_EXIT_READY [pid old]) = Inr (pid old, w)"
    using take_one_word by blast
  have "iterE (page_table_to_pid (pid old)) bs (0, s) = Inr (0, s)"
    if "\<forall>b \<in> set bs. \<exists>q. heap s b = Some q \<and> pid q \<noteq> pid old" for bs
    using that by (induction bs) (auto simp: page_table_to_pid_step)
  then have "exit_process_success (words_packet PROCESS_EXIT_READY [pid old]) s
      = Inr (False, s\<lparr>sem_multiprogram := sem_multiprogram s + 1\<rparr>)"
    using assms(5) w by (simp add: exit_process_success_def pQueue_iterate_def terminate_kernel_1)
  with assms(3,4) show ?thesis by (simp add: exit_step_def)
qed

theorem early_exit_answer_is_lost_witness:
  "\<exists>s s1 s2. kernel_reachable insertion_sort 2 s
    \<and> exit_process_success (words_packet PROCESS_EXIT_READY [1]) s = Inr (False, s1)
    \<and> exit_step s1 = Inr (Some s2) \<and> exit_at s2 = EX_Wait \<and> console_out s2 = []"
proof -
  have "client_socket small_pcb = 9" "(9 :: u32) \<noteq> 0" "pid small_pcb = 1" by (simp_all add: small_pcb_def blank_pcb_def)
  note eqs = run_simps receive_process_eq [OF small_process_ok] exit_op_eq [OF small_pcb_ok] this
  have "\<exists>s a. run insertion_sort (butlast (butlast (lifecycle small_process 9 0 0 small_pcb)))
      (kernel_init ''FIFO'' 10 0 2 100, 0, 0) = Some (s, 0, 1) \<and> exit_at s = EX_Sent a \<and> heap s a = Some small_pcb
      \<and> lib_queue (memory_exit_q s) = [] \<and> console_out s = []"
    unfolding lifecycle_def kernel_init_def choose_scheduler_def by (simp add: eqs)
  then obtain s a where s: "conf_reachable insertion_sort 2 (s, 0, 1)"
      and e: "exit_at s = EX_Sent a" "heap s a = Some small_pcb" "lib_queue (memory_exit_q s) = []" "console_out s = []"
    using run_reachable [OF conf_reachable_init] by blast
  have r: "kernel_reachable insertion_sort 2 s" using conf_kernel_reachable [OF s] by simp
  have b: "\<forall>b \<in> set (lib_queue (memory_exit_q s)). \<exists>q. heap s b = Some q \<and> pid q \<noteq> pid small_pcb"
    using e(3) by simp
  have "pid small_pcb = 1" by fact
  with early_exit_answer_is_lost [OF sorts_insertion_sort r e(1,2) b] r e(4) show ?thesis by auto
qed

section \<open>The listeners\<close>

text \<open>
  C21. The kernel's listener on memory's socket handles every packet memory sends, in order and
  however the bytes are cut, although the handlers of memory's answers return false and end the
  server loop: it calls the loop again, and as many calls as there are packets are enough.
\<close>

theorem memory_listener_serves_all:
  assumes "wire es = stream_of ps" and "after es = Closed # t"
    and "list_all (\<lambda>p. length (snd p) < 2 ^ 32) ps" and "length ps < fuel" and "length ps \<le> n"
  shows "\<exists>es'. memory_listener n fuel junk_pcb now sock junk es s
    = Some (bindE (handle_all (kernel_handlers junk_pcb now sock) ps s) (\<lambda>s'. Inr (s', es')))"
  unfolding memory_listener_def by (rule listener_serves [OF assms])

theorem memory_listener_serves_all_witness:
  "\<exists>s' es'. memory_listener 2 3 blank_pcb 0 0 0 [Data [7, 0, 0], Data [0, 0, 7, 0], Data [0, 0, 0], Closed]
      (kernel_init ''FIFO'' 10 0 2 100) = Some (Inr (s', es')) \<and> waiting_for_suspension s' = 3"
proof -
  have "(of_nat 0 :: u32) = 0" "u32_bytes 0 = [0, 0, 0, 0]" by (simp_all add: u32_bytes_def upt_rec)
  then have "stream_of [(7, []), (7, [])] = [7, 0, 0, 0, 0, 7, 0, 0, 0, 0]"
    by (simp add: stream_of_def packet_bytes_def)
  then show ?thesis
    using memory_listener_serves_all [of "[Data [7, 0, 0], Data [0, 0, 7, 0], Data [0, 0, 0], Closed]"
        "[(7, []), (7, [])]" "[]" 3 2 blank_pcb 0 0 0 "kernel_init ''FIFO'' 10 0 2 100"]
    by (auto simp: handle_all_def call_handler_def kernel_handlers_def suspension_success_def kernel_init_def)
qed

end
