(* ===== verification/Tlb.thy ===== *)
theory Tlb
  imports PQueue
begin

text \<open>
  \<^verbatim>\<open>cpu/src/tlb.c\<close>: the translation lookaside buffer.

  \<^item> The entries are an array allocated once; a pointer to an entry is its index, which is what the
    queue of victims holds.
  \<^item> \<open>tlb_mutex\<close> is a default mutex: a thread that locks it while holding it never returns
    (\<open>SelfDeadlock\<close>). \<open>tlb_held\<close> says that the calling thread holds it. The loops of the source
    lock it per entry and unlock it on some paths only, so the model keeps it as state.
  \<^item> \<open>None\<close> is a call that blocks on the semaphore of the victims' queue.
\<close>

datatype tlb_algorithm = TLB_FIFO | TLB_LRU

record t_tlb_entry =
  tlb_page :: u32
  tlb_frame :: u32
  isFree :: bool

record t_tlb =
  entries :: "t_tlb_entry list"
  victims :: "nat t_pQueue"
  tlb_held :: bool
  tlb_alg :: tlb_algorithm
  tlb_hit_counter :: int
  tlb_miss_counter :: int

definition create_tlb :: "int \<Rightarrow> string \<Rightarrow> t_tlb" where
  "create_tlb tlbEntryQty alg =
     \<lparr>entries = replicate (nat tlbEntryQty) \<lparr>tlb_page = 0, tlb_frame = 0, isFree = True\<rparr>,
      victims = pQueue_create, tlb_held = False,
      tlb_alg = (if alg = ''FIFO'' then TLB_FIFO else if alg = ''LRU'' then TLB_LRU else TLB_FIFO),
      tlb_hit_counter = 0, tlb_miss_counter = 0\<rparr>"

definition tlb_lock :: "t_tlb \<Rightarrow> t_tlb res" where
  "tlb_lock t = (if tlb_held t then Inl SelfDeadlock else Inr (t\<lparr>tlb_held := True\<rparr>))"

definition tlb_unlock :: "t_tlb \<Rightarrow> t_tlb" where
  "tlb_unlock t = t\<lparr>tlb_held := False\<rparr>"

text \<open>\<open>lru_tlb\<close> hands the queue structure itself to a function of the commons list.\<close>

definition lru_tlb :: "nat \<Rightarrow> t_tlb \<Rightarrow> t_tlb res" where
  "lru_tlb entry t = Inl TypeConfusion"

text \<open>The body of the loop of \<open>get_tlb_frame\<close> on entry \<open>i\<close>; \<open>fr\<close> is the local \<open>frame\<close>.\<close>

definition get_tlb_visit :: "u32 \<Rightarrow> nat \<Rightarrow> u32 \<times> t_tlb \<Rightarrow> (u32 \<times> t_tlb) res" where
  "get_tlb_visit pg i r =
     (case r of (fr, t) \<Rightarrow>
       bindE (tlb_lock t) (\<lambda>t.
       let entry = entries t ! i
       in if tlb_page entry = pg \<and> \<not> isFree entry then
            bindE (if tlb_alg t = TLB_LRU then lru_tlb i t else Inr t) (\<lambda>t.
              Inr (tlb_frame entry,
                   (tlb_unlock t)\<lparr>tlb_hit_counter := tlb_hit_counter t + 1\<rparr>))
          else Inr (fr, t)))"

definition get_tlb_frame :: "u32 \<Rightarrow> t_tlb \<Rightarrow> (u32 \<times> t_tlb) res" where
  "get_tlb_frame pg t =
     bindE (iterE (get_tlb_visit pg) [0..<length (entries t)] (-1, t)) (\<lambda>(fr, t).
       Inr (fr, if fr = -1 then t\<lparr>tlb_miss_counter := tlb_miss_counter t + 1\<rparr> else t))"

definition set_entry :: "nat \<Rightarrow> u32 \<Rightarrow> u32 \<Rightarrow> t_tlb \<Rightarrow> t_tlb" where
  "set_entry i pg fr t =
     t\<lparr>entries := (entries t)[i := \<lparr>tlb_page = pg, tlb_frame = fr, isFree = False\<rparr>]\<rparr>"

text \<open>The search for a free entry: whether one was found, stopping there.\<close>

fun add_tlb_search :: "u32 \<Rightarrow> u32 \<Rightarrow> nat list \<Rightarrow> t_tlb \<Rightarrow> (bool \<times> t_tlb) res" where
  "add_tlb_search pg fr [] t = Inr (False, t)"
| "add_tlb_search pg fr (i # is) t =
     bindE (tlb_lock t) (\<lambda>t.
       if isFree (entries t ! i) then
         let t = set_entry i pg fr t
         in Inr (True, tlb_unlock (t\<lparr>victims := pQueue_put (victims t) i\<rparr>))
       else add_tlb_search pg fr is t)"

definition add_tlb_entry :: "u32 \<Rightarrow> u32 \<Rightarrow> t_tlb \<Rightarrow> t_tlb option res" where
  "add_tlb_entry pg fr t =
     bindE (add_tlb_search pg fr [0..<length (entries t)] t) (\<lambda>(any_free_entry, t).
       if any_free_entry then Inr (Some t)
       else bindE (tlb_lock t) (\<lambda>t.
         if \<not> pQueue_is_empty (victims t) then
           (case pQueue_take (victims t) of
              None \<Rightarrow> Inr None
            | Some (None, q) \<Rightarrow> Inl NullDeref
            | Some (Some i, q) \<Rightarrow>
                let t = set_entry i pg fr (t\<lparr>victims := q\<rparr>)
                in Inr (Some (tlb_unlock (t\<lparr>victims := pQueue_put (victims t) i\<rparr>))))
         else Inr (Some t)))"

text \<open>
  The two statements \<open>entry->page == -1\<close> and \<open>entry->frame == -1\<close> of the source compare and have no
  effect.
\<close>

fun drop_tlb_search :: "u32 \<Rightarrow> u32 \<Rightarrow> nat list \<Rightarrow> t_tlb \<Rightarrow> t_tlb res" where
  "drop_tlb_search pg fr [] t = Inr t"
| "drop_tlb_search pg fr (i # is) t =
     bindE (tlb_lock t) (\<lambda>t.
       if tlb_page (entries t ! i) = pg \<and> tlb_frame (entries t ! i) = fr then
         Inr (tlb_unlock (t\<lparr>entries := (entries t)[i := (entries t ! i)\<lparr>isFree := True\<rparr>]\<rparr>))
       else drop_tlb_search pg fr is t)"

definition drop_tlb_entry :: "u32 \<Rightarrow> u32 \<Rightarrow> t_tlb \<Rightarrow> t_tlb res" where
  "drop_tlb_entry pg fr t = drop_tlb_search pg fr [0..<length (entries t)] t"

text \<open>
  \<open>tlb_destroy\<close> frees the array of entries first and then runs on every queued victim a function that
  reads the entry.
\<close>

definition tlb_destroy :: "t_tlb \<Rightarrow> unit res" where
  "tlb_destroy t =
     (let entries_freed = True
      in pQueue_destroy (victims t) (\<lambda>i _. guardE (\<not> entries_freed) UseAfterFree) ())"

definition clean_tlb :: "t_tlb \<Rightarrow> t_tlb res" where
  "clean_tlb t =
     bindE (tlb_lock t) (\<lambda>t.
       Inr (tlb_unlock (t\<lparr>entries := map (\<lambda>e. e\<lparr>isFree := True\<rparr>) (entries t)\<rparr>)))"

section \<open>Where the lock is left taken\<close>

lemma tlb_lock_held [simp]: "tlb_held t \<Longrightarrow> tlb_lock t = Inl SelfDeadlock"
  by (simp add: tlb_lock_def)

lemma tlb_lock_free [simp]: "\<not> tlb_held t \<Longrightarrow> tlb_lock t = Inr (t\<lparr>tlb_held := True\<rparr>)"
  by (simp add: tlb_lock_def)

definition tlb_hit :: "u32 \<Rightarrow> t_tlb \<Rightarrow> nat \<Rightarrow> bool" where
  "tlb_hit pg t i \<longleftrightarrow> tlb_page (entries t ! i) = pg \<and> \<not> isFree (entries t ! i)"

text \<open>A loop of lookups that starts with the mutex taken stops at the first entry.\<close>

lemma get_tlb_iter_held: "is \<noteq> [] \<Longrightarrow> tlb_held t \<Longrightarrow> iterE (get_tlb_visit pg) is (fr, t) = Inl SelfDeadlock"
  by (cases "is") (auto simp: get_tlb_visit_def)

lemma get_tlb_iter_miss:
  "\<not> tlb_held t \<Longrightarrow> tlb_alg t = TLB_FIFO \<Longrightarrow> \<exists>i \<in> set (butlast is). \<not> tlb_hit pg t i
     \<Longrightarrow> iterE (get_tlb_visit pg) is (fr, t) = Inl SelfDeadlock"
proof (induction "is" arbitrary: fr t)
  case (Cons i "is")
  then have ne: "is \<noteq> []" by auto
  show ?case
  proof (cases "tlb_hit pg t i")
    case True
    let ?t = "t\<lparr>tlb_held := False, tlb_hit_counter := tlb_hit_counter t + 1\<rparr>"
    have "get_tlb_visit pg i (fr, t) = Inr (tlb_frame (entries t ! i), ?t)"
      using True Cons.prems by (simp add: get_tlb_visit_def tlb_hit_def tlb_unlock_def)
    moreover have "\<exists>j \<in> set (butlast is). \<not> tlb_hit pg ?t j"
      using Cons.prems True ne by (auto simp: tlb_hit_def)
    ultimately show ?thesis using Cons.IH [of ?t] Cons.prems by simp
  next
    case False
    then have "get_tlb_visit pg i (fr, t) = Inr (fr, t\<lparr>tlb_held := True\<rparr>)"
      using Cons.prems by (auto simp: get_tlb_visit_def tlb_hit_def Let_def)
    with ne show ?thesis by (simp add: get_tlb_iter_held)
  qed
qed simp

lemma add_tlb_search_held: "is \<noteq> [] \<Longrightarrow> tlb_held t \<Longrightarrow> add_tlb_search pg fr is t = Inl SelfDeadlock"
  by (cases "is") auto

lemma clean_tlb_eq:
  "\<not> tlb_held t \<Longrightarrow> clean_tlb t = Inr (t\<lparr>entries := map (\<lambda>e. e\<lparr>isFree := True\<rparr>) (entries t)\<rparr>)"
  by (simp add: clean_tlb_def tlb_unlock_def)

end
