(* ===== verification/Cpu.thy ===== *)
theory Cpu
  imports Process_Utils Networking Socket_Headers Tlb
begin

text \<open>
  \<^verbatim>\<open>cpu/src/cpu.c\<close> and \<^verbatim>\<open>cpu/src/utils.c\<close>: the CPU server.

  \<^item> \<open>cpu_state\<close> holds the globals: the loaded pcb, the semaphores, the pending interruption, what
    memory answered, and the packets written to the kernel and memory sockets.
  \<^item> The execution thread (\<open>cpu_cycle\<close>) is a machine whose control point \<open>cpu_pc\<close> is the blocking
    call, loop head or interruption check it is at. \<open>exec_step\<close> runs it to its next control point;
    \<open>None\<close> says that it waits. The mmu call of READ, WRITE and COPY blocks twice, so a control
    point inside it carries what is left to do (\<open>purpose\<close>).
  \<^item> The handlers run in other threads, between two steps. \<open>cpu_reach\<close> closes a start state under
    steps and handlers.
  \<^item> The tests \<open>memory_server_socket != -1\<close> are left out: \<open>main\<close> ends the process in that case.
    A \<open>usleep\<close> is recorded in \<open>slept\<close>, in microseconds, as the 32-bit product of the source.
\<close>

datatype operation = NO_OP | IO_OP | READ | COPY | WRITE | EXIT_OP | DEAD

definition get_op :: "string \<Rightarrow> operation" where
  "get_op op =
     (if op = ''NO_OP'' then NO_OP
      else if op = ''I/O'' then IO_OP
      else if op = ''READ'' then READ
      else if op = ''WRITE'' then WRITE
      else if op = ''COPY'' then COPY
      else if op = ''EXIT'' then EXIT_OP
      else DEAD)"

record cpu_state =
  pcb :: t_pcb
  tlb :: t_tlb
  pcb_loaded :: nat
  cpu_bussy :: nat
  waiting_second_table_number :: nat
  waiting_frame :: nat
  waiting_read_answer :: nat
  waiting_write_answer :: nat
  new_interruption :: bool
  memRead :: u32
  received_frame :: int
  tableTwoIndex :: int
  connections :: int
  kernel_client_socket :: int
  delayNoOp :: int
  cpu_pageSize :: int
  cpu_entriesPerTable :: int
  to_kernel :: "t_packet list"
  to_memory :: "t_packet list"
  slept :: "u32 list"

datatype purpose = ForRead | ForWrite u32 | ForCopyDst u32 | ForCopySrc u32

datatype cpu_pc =
    AwaitPcb | LoopHead | CheckInterrupt
  | AwaitTable2 int purpose | AwaitFrame int purpose
  | AwaitRead "u32 option" | AwaitWrite
  | AwaitIdle bool   \<comment> \<open>in \<open>pcb_to_kernel\<close>; called from the interruption check?\<close>

section \<open>Talking to kernel and memory\<close>

text \<open>\<open>pcb_to_kernel\<close> up to its \<open>sem_wait\<close>.\<close>

definition pcb_to_kernel :: "kernel_headers \<Rightarrow> bool \<Rightarrow> cpu_state \<Rightarrow> (cpu_state \<times> cpu_pc) res" where
  "pcb_to_kernel h from_check s =
     bindE (clean_tlb (tlb s)) (\<lambda>t.
     let s = s\<lparr>tlb := t\<rparr>;
         pcb_packet = create_packet (kernel_code h) INITIAL_STREAM_SIZE;
         pcb_packet = pcb_packet\<lparr>payload := stream_add_pcb (payload pcb_packet) (pcb s)\<rparr>
     in Inr (if kernel_client_socket s \<noteq> -1
             then s\<lparr>to_kernel := to_kernel s @ [pcb_packet]\<rparr> else s,
             AwaitIdle from_check))"

definition send_memory :: "t_packet \<Rightarrow> cpu_state \<Rightarrow> cpu_state" where
  "send_memory p s = s\<lparr>to_memory := to_memory s @ [p]\<rparr>"

text \<open>\<open>readMem\<close>; for COPY, \<open>dst\<close> is the physical address to write the value to.\<close>

definition readMem :: "u32 \<Rightarrow> u32 option \<Rightarrow> cpu_state \<Rightarrow> cpu_state \<times> cpu_pc" where
  "readMem fisicDir dst s =
     (let readPack = add_u32 (create_packet (memory_code READ_CALL) INITIAL_STREAM_SIZE) fisicDir
      in (send_memory readPack s, AwaitRead dst))"

definition writeMem :: "u32 \<Rightarrow> u32 \<Rightarrow> cpu_state \<Rightarrow> cpu_state \<times> cpu_pc" where
  "writeMem fisicDir value s =
     (let write = create_packet (memory_code WRITE_CALL) INITIAL_STREAM_SIZE;
          write = add_u32 write fisicDir;
          write = add_u32 write value
      in (send_memory write s, AwaitWrite))"

section \<open>The mmu\<close>

record translation =
  page_number :: int
  fstLevelEntry :: int
  scdLevelEntry :: int
  page_offset :: int

definition translate :: "int \<Rightarrow> int \<Rightarrow> int \<Rightarrow> translation res" where
  "translate page_size entries_per_table logicDir =
     bindE (guardE (page_size \<noteq> 0 \<and> entries_per_table \<noteq> 0) DivByZero) (\<lambda>_.
       let pn = logicDir sdiv page_size
       in Inr \<lparr>page_number = pn, fstLevelEntry = pn sdiv entries_per_table,
               scdLevelEntry = pn smod entries_per_table,
               page_offset = logicDir - pn * page_size\<rparr>)"

text \<open>The first half of \<open>mmu\<close>: ask for the second level table.\<close>

definition mmu :: "int \<Rightarrow> purpose \<Rightarrow> cpu_state \<Rightarrow> (cpu_state \<times> cpu_pc) res" where
  "mmu logicDir purpose s =
     bindE (translate (cpu_pageSize s) (cpu_entriesPerTable s) logicDir) (\<lambda>t.
     let fsPageTable = create_packet (memory_code LVL1_TABLE) INITIAL_STREAM_SIZE;
         fsPageTable = add_u32 fsPageTable (page_table (pcb s));
         fsPageTable = add_u32 fsPageTable (of_int (fstLevelEntry t))
     in Inr (send_memory fsPageTable s, AwaitTable2 logicDir purpose))"

text \<open>
  The second half, once the table number came. The four values of the request are added to the
  packet that was sent before, \<open>fsPageTable\<close>; the one sent here, \<open>sdPageTable\<close>, stays empty.
\<close>

definition mmu_second :: "int \<Rightarrow> purpose \<Rightarrow> cpu_state \<Rightarrow> cpu_state \<times> cpu_pc" where
  "mmu_second logicDir purpose s =
     (let sdPageTable = create_packet (memory_code LVL2_TABLE) INITIAL_STREAM_SIZE
      in (send_memory sdPageTable s, AwaitFrame logicDir purpose))"

text \<open>The return of \<open>mmu\<close> and the rest of the instruction that called it.\<close>

definition mmu_return :: "int \<Rightarrow> purpose \<Rightarrow> cpu_state \<Rightarrow> (cpu_state \<times> cpu_pc) res" where
  "mmu_return logicDir purpose s =
     bindE (translate (cpu_pageSize s) (cpu_entriesPerTable s) logicDir) (\<lambda>t.
     let physicDir = of_int (received_frame s + page_offset t)
     in case purpose of
          ForRead \<Rightarrow> Inr (readMem physicDir None s)
        | ForWrite value \<Rightarrow> Inr (writeMem physicDir value s)
        | ForCopyDst l_value_address \<Rightarrow> mmu (sint l_value_address) (ForCopySrc physicDir) s
        | ForCopySrc fisicDirWrite \<Rightarrow> Inr (readMem physicDir (Some fisicDirWrite) s))"

section \<open>Instructions\<close>

definition execute_no_op :: "u32 list \<Rightarrow> cpu_state \<Rightarrow> (cpu_state \<times> cpu_pc) res" where
  "execute_no_op ps s =
     bindE (list_get ps 0) (\<lambda>times.
       Inr (s\<lparr>slept := slept s @ [of_int (delayNoOp s * 1000) * times]\<rparr>, CheckInterrupt))"

definition execute_io :: "u32 list \<Rightarrow> cpu_state \<Rightarrow> (cpu_state \<times> cpu_pc) res" where
  "execute_io ps s =
     bindE (list_get ps 0) (\<lambda>time.
       pcb_to_kernel IO_CALL False (s\<lparr>pcb := (pcb s)\<lparr>pending_io_time := time\<rparr>\<rparr>))"

definition execute_read :: "u32 list \<Rightarrow> cpu_state \<Rightarrow> (cpu_state \<times> cpu_pc) res" where
  "execute_read ps s = bindE (list_get ps 0) (\<lambda>l_address. mmu (sint l_address) ForRead s)"

definition execute_copy :: "u32 list \<Rightarrow> cpu_state \<Rightarrow> (cpu_state \<times> cpu_pc) res" where
  "execute_copy ps s =
     bindE (list_get ps 0) (\<lambda>l_address.
     bindE (list_get ps 1) (\<lambda>l_value_address.
       mmu (sint l_address) (ForCopyDst l_value_address) s))"

definition execute_write :: "u32 list \<Rightarrow> cpu_state \<Rightarrow> (cpu_state \<times> cpu_pc) res" where
  "execute_write ps s =
     bindE (list_get ps 0) (\<lambda>l_address.
     bindE (list_get ps 1) (\<lambda>value.
       mmu (sint l_address) (ForWrite value) s))"

definition execute_exit :: "cpu_state \<Rightarrow> (cpu_state \<times> cpu_pc) res" where
  "execute_exit s = pcb_to_kernel EXIT_CALL False s"

text \<open>The table \<open>execute\<close> has six entries; \<open>DEAD\<close> indexes past it.\<close>

definition execute :: "operation \<Rightarrow> u32 list \<Rightarrow> cpu_state \<Rightarrow> (cpu_state \<times> cpu_pc) res" where
  "execute op ps s =
     (case op of
        NO_OP \<Rightarrow> execute_no_op ps s
      | IO_OP \<Rightarrow> execute_io ps s
      | READ \<Rightarrow> execute_read ps s
      | COPY \<Rightarrow> execute_copy ps s
      | WRITE \<Rightarrow> execute_write ps s
      | EXIT_OP \<Rightarrow> execute_exit s
      | DEAD \<Rightarrow> Inl BadCall)"

definition fetch_and_decode :: "cpu_state \<Rightarrow> (t_instruction \<times> operation \<times> cpu_state) res" where
  "fetch_and_decode s =
     bindE (list_get (instructions (pcb s)) (uint (program_counter (pcb s)))) (\<lambda>instruction.
       Inr (instruction, get_op (ins_id instruction),
            s\<lparr>pcb := (pcb s)\<lparr>program_counter := program_counter (pcb s) + 1\<rparr>\<rparr>))"

section \<open>The execution thread\<close>

definition bussyCpu :: "cpu_state \<Rightarrow> bool" where
  "bussyCpu s \<longleftrightarrow> 0 < cpu_bussy s"

definition exec_step :: "cpu_state \<times> cpu_pc \<Rightarrow> (cpu_state \<times> cpu_pc) option res" where
  "exec_step c =
     (case c of (s, pc) \<Rightarrow>
      (case pc of
         AwaitPcb \<Rightarrow>
           Inr (if 0 < pcb_loaded s
                then Some (s\<lparr>pcb_loaded := pcb_loaded s - 1, cpu_bussy := cpu_bussy s + 1\<rparr>, LoopHead)
                else None)
       | LoopHead \<Rightarrow>
           if bussyCpu s \<and> unat (program_counter (pcb s)) < length (instructions (pcb s)) then
             bindE (fetch_and_decode s) (\<lambda>(instruction, op, s).
             bindE (execute op (params instruction) s) (\<lambda>r. Inr (Some r)))
           else Inr (Some (s, AwaitPcb))
       | CheckInterrupt \<Rightarrow>
           if new_interruption s
           then bindE (pcb_to_kernel INTERRUPT_DISPATCH True s) (\<lambda>r. Inr (Some r))
           else Inr (Some (s, LoopHead))
       | AwaitTable2 logicDir purpose \<Rightarrow>
           Inr (if 0 < waiting_second_table_number s
                then Some (mmu_second logicDir purpose
                  (s\<lparr>waiting_second_table_number := waiting_second_table_number s - 1\<rparr>))
                else None)
       | AwaitFrame logicDir purpose \<Rightarrow>
           if 0 < waiting_frame s
           then bindE (mmu_return logicDir purpose (s\<lparr>waiting_frame := waiting_frame s - 1\<rparr>))
                  (\<lambda>r. Inr (Some r))
           else Inr None
       | AwaitRead dst \<Rightarrow>
           Inr (if 0 < waiting_read_answer s
                then let s = s\<lparr>waiting_read_answer := waiting_read_answer s - 1\<rparr>
                     in Some (case dst of
                          None \<Rightarrow> (s, CheckInterrupt)
                        | Some fisicDirWrite \<Rightarrow> writeMem fisicDirWrite (memRead s) s)
                else None)
       | AwaitWrite \<Rightarrow>
           Inr (if 0 < waiting_write_answer s
                then Some (s\<lparr>waiting_write_answer := waiting_write_answer s - 1\<rparr>, CheckInterrupt)
                else None)
       | AwaitIdle from_check \<Rightarrow>
           Inr (if 0 < cpu_bussy s
                then let s = s\<lparr>cpu_bussy := cpu_bussy s - 1\<rparr>
                     in Some (if from_check then (s\<lparr>new_interruption := False\<rparr>, LoopHead)
                              else (s, CheckInterrupt))
                else None)))"

section \<open>The handlers\<close>

definition receive_pcb :: "cpu_state handler" where
  "receive_pcb petition s =
     bindE (stream_take_pcb (payload petition)) (\<lambda>(p, _).
       Inr (True, s\<lparr>pcb := p, pcb_loaded := pcb_loaded s + 1\<rparr>))"

definition receive_interruption :: "cpu_state handler" where
  "receive_interruption petition s = Inr (True, s\<lparr>new_interruption := True\<rparr>)"

definition receive_frame :: "cpu_state handler" where
  "receive_frame petition s =
     bindE (take_u32 petition) (\<lambda>(v, _).
       Inr (True, s\<lparr>received_frame := sint v, waiting_frame := waiting_frame s + 1\<rparr>))"

definition receive_ptTwoIndex :: "cpu_state handler" where
  "receive_ptTwoIndex petition s =
     bindE (take_u32 petition) (\<lambda>(v, _).
       Inr (True, s\<lparr>tableTwoIndex := sint v,
                    waiting_second_table_number := waiting_second_table_number s + 1\<rparr>))"

definition write_answer :: "cpu_state handler" where
  "write_answer petition s = Inr (True, s\<lparr>waiting_write_answer := waiting_write_answer s + 1\<rparr>)"

definition read_answer :: "cpu_state handler" where
  "read_answer petition s =
     bindE (take_u32 petition) (\<lambda>(v, _).
       Inr (True, s\<lparr>memRead := v, waiting_read_answer := waiting_read_answer s + 1\<rparr>))"

definition cpu_handlers :: "cpu_state handler option list" where
  "cpu_handlers =
     [Some receive_pcb, Some receive_interruption, Some receive_frame, Some receive_ptTwoIndex,
      None, None, None, None, None, Some write_answer, Some read_answer]"

text \<open>The interrupt socket carries bare headers; one equal to \<open>MEM_HANDSHAKE\<close> calls the handler.\<close>

fun header_handler :: "u8 list \<Rightarrow> cpu_state \<Rightarrow> cpu_state res" where
  "header_handler [] s = Inr s"
| "header_handler (h # hs) s =
     (if h = memory_code MEM_HANDSHAKE
      then bindE (call_handler cpu_handlers (create_packet h 0) s) (\<lambda>(serve, s).
             if serve then header_handler hs s else Inr s)
      else header_handler hs s)"

text \<open>The first connection to the dispatch port is the kernel's.\<close>

definition dispatch_connected :: "int \<Rightarrow> cpu_state \<Rightarrow> cpu_state" where
  "dispatch_connected sock s =
     (let s = (if connections s = 0 then s\<lparr>kernel_client_socket := sock\<rparr> else s)
      in s\<lparr>connections := connections s + 1\<rparr>)"

definition memory_handshake :: "t_packet \<Rightarrow> cpu_state \<Rightarrow> cpu_state res" where
  "memory_handshake mem_data s =
     (if header mem_data = cpu_code TABLE_INFO_TO_CPU then
        bindE (take_u32 mem_data) (\<lambda>(ps, mem_data).
        bindE (take_u32 mem_data) (\<lambda>(ept, mem_data).
          Inr (s\<lparr>cpu_pageSize := sint ps, cpu_entriesPerTable := sint ept\<rparr>)))
      else Inr s)"

text \<open>
  While the execution thread waits inside the interruption check it holds \<open>mutex_has_interruption\<close>,
  so \<open>receive_interruption\<close> waits too.
\<close>

definition interruption_locked :: "cpu_pc \<Rightarrow> bool" where
  "interruption_locked pc \<longleftrightarrow> pc = AwaitIdle True"

inductive cpu_event :: "cpu_state \<times> cpu_pc \<Rightarrow> cpu_state \<times> cpu_pc \<Rightarrow> bool" where
  exec: "exec_step c = Inr (Some c') \<Longrightarrow> cpu_event c c'"
| handler: "call_handler cpu_handlers p s = Inr (serve, s')
    \<Longrightarrow> (header p = cpu_code INTERRUPT \<longrightarrow> \<not> interruption_locked pc) \<Longrightarrow> cpu_event (s, pc) (s', pc)"
| connect: "cpu_event (s, pc) (dispatch_connected sock s, pc)"

inductive cpu_reach :: "cpu_state \<times> cpu_pc \<Rightarrow> cpu_state \<times> cpu_pc \<Rightarrow> bool" for c where
  refl: "cpu_reach c c"
| step: "cpu_reach c c' \<Longrightarrow> cpu_event c' c'' \<Longrightarrow> cpu_reach c c''"

section \<open>Start and end of the program\<close>

text \<open>
  The values of the configuration file are read by the commons library, a parameter. The globals
  start as C sets them, zero; page size and entries per table are indeterminate (\<open>junk\<close>) until the
  handshake. The TLB is created after the handshake, before the first connection that could bring a
  pcb, so the start state has it already.
\<close>

record t_cpu_config =
  tlbEntryQty :: int
  cpu_tlb_alg :: string
  cpu_delayNoOp :: int
  memoryIP :: string
  memoryPort :: string
  dispatchListenPort :: string
  interruptListenPort :: string

definition get_cpu_config :: "(string \<Rightarrow> int) \<Rightarrow> (string \<Rightarrow> string) \<Rightarrow> t_cpu_config" where
  "get_cpu_config config_get_int_value config_get_string_value =
     \<lparr>tlbEntryQty = config_get_int_value ''ENTRADAS_TLB'',
      cpu_tlb_alg = config_get_string_value ''REEMPLAZO_TLB'',
      cpu_delayNoOp = config_get_int_value ''RETARDO_NOOP'',
      memoryIP = config_get_string_value ''IP_MEMORIA'',
      memoryPort = config_get_string_value ''PUERTO_MEMORIA'',
      dispatchListenPort = config_get_string_value ''PUERTO_ESCUCHA_DISPATCH'',
      interruptListenPort = config_get_string_value ''PUERTO_ESCUCHA_INTERRUPT''\<rparr>"

definition cpu_start :: "t_cpu_config \<Rightarrow> t_pcb \<Rightarrow> int \<times> int \<Rightarrow> cpu_state" where
  "cpu_start cfg junk_pcb junk =
     \<lparr>pcb = create_pcb junk_pcb, tlb = create_tlb (tlbEntryQty cfg) (cpu_tlb_alg cfg),
      pcb_loaded = 0, cpu_bussy = 0, waiting_second_table_number = 0, waiting_frame = 0,
      waiting_read_answer = 0, waiting_write_answer = 0, new_interruption = False, memRead = 0,
      received_frame = 0, tableTwoIndex = 0, connections = 0, kernel_client_socket = 0,
      delayNoOp = cpu_delayNoOp cfg, cpu_pageSize = fst junk, cpu_entriesPerTable = snd junk,
      to_kernel = [], to_memory = [], slept = []\<rparr>"

text \<open>
  \<open>terminate_cpu\<close> frees the TLB, NULL as long as it is not created, and the logger, and calls \<open>stats\<close>,
  which logs, when it was called by the interrupt signal. \<open>None\<close>: it returns.
\<close>

definition stats :: "bool \<Rightarrow> unit res" where
  "stats logger_alive = guardE logger_alive UseAfterFree"

definition terminate_cpu :: "int \<Rightarrow> t_tlb option \<Rightarrow> exit_code option res" where
  "terminate_cpu x tlb' =
     bindE (case tlb' of None \<Rightarrow> Inl NullDeref | Some t \<Rightarrow> tlb_destroy t) (\<lambda>_.
       let logger_alive = False
       in if x = 1 then Inr (Some EXIT_FAILURE)
          else if x = SIGINT then bindE (stats logger_alive) (\<lambda>_. Inr (Some EXIT_SUCCESS))
          else Inr None)"

text \<open>\<open>main\<close> up to its accept loop; \<open>mem_data\<close> is what comes back after the handshake header.\<close>

definition cpu_main ::
  "t_cpu_config \<Rightarrow> t_pcb \<Rightarrow> int \<times> int \<Rightarrow> int \<Rightarrow> t_packet option \<Rightarrow> (exit_code + cpu_state) res" where
  "cpu_main cfg junk_pcb junk memory_server_socket mem_data =
     bindE (if memory_server_socket = -1 then terminate_cpu 1 None else Inr None) (\<lambda>ended.
       case ended of
         Some code \<Rightarrow> Inr (Inl code)
       | None \<Rightarrow>
           (case mem_data of
              None \<Rightarrow> Inl NullDeref
            | Some answer \<Rightarrow>
                bindE (memory_handshake answer (cpu_start cfg junk_pcb junk)) (\<lambda>s. Inr (Inr s))))"

end
