(* ===== verification/Cpu_Props.thy ===== *)
theory Cpu_Props
  imports Cpu
begin

text \<open>
  What the CPU promises: addresses split into page and offset, a burst of NO_OPs that ends in exactly
  one message to the kernel, and the orders of events in which a process or the CPU itself is lost.
\<close>

section \<open>Addresses\<close>

lemma signed_nonneg:
  fixes a b :: int
  assumes "0 \<le> a" and "0 < b"
  shows "a sdiv b = a div b" and "a smod b = a mod b"
  using assms by (cases "a = 0"; simp add: signed_divide_int_def signed_modulo_int_def)+

lemma translate_nonneg:
  assumes "0 \<le> la" and "0 < ps" and "0 < ept"
  shows "translate ps ept la = Inr \<lparr>page_number = la div ps, fstLevelEntry = (la div ps) div ept,
    scdLevelEntry = (la div ps) mod ept, page_offset = la mod ps\<rparr>"
  using assms
  by (simp add: translate_def Let_def signed_nonneg pos_imp_zdiv_nonneg_iff minus_div_mult_eq_mod)

text \<open>
  C30. For a nonnegative logical address the mmu's two table indices and offset recompose to the
  address, with the second index below entries_per_table and the offset below the page size.
\<close>

theorem translate_decomposes:
  assumes "0 \<le> la" and "0 < ps" and "0 < ept"
  shows "\<exists>t. translate ps ept la = Inr t
    \<and> (fstLevelEntry t * ept + scdLevelEntry t) * ps + page_offset t = la
    \<and> 0 \<le> scdLevelEntry t \<and> scdLevelEntry t < ept \<and> 0 \<le> page_offset t \<and> page_offset t < ps"
  using translate_nonneg [OF assms] assms by simp

theorem translate_decomposes_witness:
  "\<exists>t. translate 4 2 13 = Inr t \<and> (fstLevelEntry t * 2 + scdLevelEntry t) * 4 + page_offset t = 13"
  using translate_decomposes [of 13 4 2] by auto

section \<open>Bursts\<close>

fun exec_run :: "nat \<Rightarrow> cpu_state \<times> cpu_pc \<Rightarrow> (cpu_state \<times> cpu_pc) option" where
  "exec_run 0 c = Some c"
| "exec_run (Suc n) c =
     (case exec_step c of Inr (Some c') \<Rightarrow> exec_run n c' | _ \<Rightarrow> None)"

lemma exec_run_add: "exec_run (m + n) c = Option.bind (exec_run m c) (exec_run n)"
  by (induction m arbitrary: c) (auto split: sum.splits option.splits)

definition pcb_message :: "kernel_headers \<Rightarrow> t_pcb \<Rightarrow> t_packet" where
  "pcb_message h p =
     (let pcb_packet = create_packet (kernel_code h) INITIAL_STREAM_SIZE
      in pcb_packet\<lparr>payload := stream_add_pcb (payload pcb_packet) p\<rparr>)"

text \<open>The CPU is connected to the kernel, runs a process, and no thread left the TLB locked.\<close>

definition running :: "cpu_state \<Rightarrow> bool" where
  "running s \<longleftrightarrow> kernel_client_socket s \<noteq> -1 \<and> 0 < cpu_bussy s \<and> \<not> tlb_held (tlb s)"

definition cleaned :: "t_tlb \<Rightarrow> t_tlb" where
  "cleaned t = t\<lparr>entries := map (\<lambda>e. e\<lparr>isFree := True\<rparr>) (entries t)\<rparr>"

lemma pcb_to_kernel_eq:
  "running s \<Longrightarrow> pcb_to_kernel h c s = Inr (s\<lparr>tlb := cleaned (tlb s),
     to_kernel := to_kernel s @ [pcb_message h (pcb s)]\<rparr>, AwaitIdle c)"
  by (simp add: pcb_to_kernel_def running_def clean_tlb_eq cleaned_def pcb_message_def Let_def)

definition is_noop :: "t_instruction \<Rightarrow> bool" where
  "is_noop i \<longleftrightarrow> ins_id i = ''NO_OP'' \<and> params i \<noteq> []"

definition at_counter :: "nat \<Rightarrow> cpu_state \<Rightarrow> bool" where
  "at_counter k s \<longleftrightarrow> program_counter (pcb s) = of_nat k \<and> k < 2 ^ 32"

definition next_instruction :: "cpu_state \<Rightarrow> cpu_state" where
  "next_instruction s = s\<lparr>pcb := (pcb s)\<lparr>program_counter := program_counter (pcb s) + 1\<rparr>\<rparr>"

lemma fetch_at:
  assumes "at_counter k s" and "k < length (instructions (pcb s))"
  shows "fetch_and_decode s = Inr (instructions (pcb s) ! k, get_op (ins_id (instructions (pcb s) ! k)), next_instruction s)"
    and "unat (program_counter (pcb s)) = k"
proof -
  show u: "unat (program_counter (pcb s)) = k" using assms(1) by (simp add: at_counter_def unat_of_nat)
  then have "uint (program_counter (pcb s)) = int k" by (metis uint_nat)
  then show "fetch_and_decode s = Inr (instructions (pcb s) ! k, get_op (ins_id (instructions (pcb s) ! k)), next_instruction s)"
    using assms(2) by (simp add: fetch_and_decode_def next_instruction_def)
qed

lemma step_noop:
  assumes "running s" and "at_counter k s" and "k < length (instructions (pcb s))"
    and "is_noop (instructions (pcb s) ! k)" and "\<not> new_interruption s"
  obtains s' where "exec_run 2 (s, LoopHead) = Some (s', LoopHead)"
    and "s' = (next_instruction s)\<lparr>slept := slept s'\<rparr>"
proof -
  obtain x xs where x: "params (instructions (pcb s) ! k) = x # xs"
    using assms(4) by (cases "params (instructions (pcb s) ! k)") (auto simp: is_noop_def)
  let ?s = "(next_instruction s)\<lparr>slept := slept s @ [of_int (delayNoOp s * 1000) * x]\<rparr>"
  have "exec_step (s, LoopHead) = Inr (Some (?s, CheckInterrupt))"
    using fetch_at [OF assms(2,3)] assms(1,3,4) x
    by (simp add: exec_step_def bussyCpu_def running_def is_noop_def get_op_def execute_def execute_no_op_def
        list_get_def next_instruction_def)
  moreover have "exec_step (?s, CheckInterrupt) = Inr (Some (?s, LoopHead))"
    using assms(5) by (simp add: exec_step_def next_instruction_def)
  ultimately show ?thesis using that by (simp add: numeral_2_eq_2)
qed

lemma running_next [simp]: "running (next_instruction s) = running s"
  by (simp add: running_def next_instruction_def)

text \<open>A run of \<open>n\<close> NO_OPs advances the program counter and sleeps; nothing is sent.\<close>

definition noop_run :: "nat \<Rightarrow> nat \<Rightarrow> cpu_state \<Rightarrow> bool" where
  "noop_run k n s \<longleftrightarrow> running s \<and> \<not> new_interruption s \<and> at_counter k s
     \<and> k + n \<le> length (instructions (pcb s)) \<and> k + n < 2 ^ 32
     \<and> (\<forall>i < n. is_noop (instructions (pcb s) ! (k + i)))"

lemma exec_noops:
  "noop_run k n s \<Longrightarrow> \<exists>s'. exec_run (2 * n) (s, LoopHead) = Some (s', LoopHead)
    \<and> s' = s\<lparr>pcb := (pcb s)\<lparr>program_counter := of_nat (k + n)\<rparr>, slept := slept s'\<rparr>"
proof (induction n arbitrary: k s)
  case 0
  then have "pcb s = (pcb s)\<lparr>program_counter := of_nat k\<rparr>"
    by (cases "pcb s") (simp add: noop_run_def at_counter_def)
  then show ?case by simp
next
  case (Suc n)
  then have k: "running s" "at_counter k s" "k < length (instructions (pcb s))" "\<not> new_interruption s"
      "is_noop (instructions (pcb s) ! k)"
    by (auto simp: noop_run_def)
  then obtain s1 where s1: "exec_run 2 (s, LoopHead) = Some (s1, LoopHead)"
      "s1 = (next_instruction s)\<lparr>slept := slept s1\<rparr>"
    using step_noop by metis
  define z where "z = slept s1"
  have s1': "s1 = (next_instruction s)\<lparr>slept := z\<rparr>" using s1(2) by (simp add: z_def)
  have "noop_run (Suc k) n s1"
    using Suc.prems k by (auto simp: noop_run_def s1' next_instruction_def at_counter_def running_def)
  then obtain s' where s': "exec_run (2 * n) (s1, LoopHead) = Some (s', LoopHead)"
      "s' = s1\<lparr>pcb := (pcb s1)\<lparr>program_counter := of_nat (Suc k + n)\<rparr>, slept := slept s'\<rparr>"
    using Suc.IH by metis
  have "exec_run (2 * Suc n) (s, LoopHead) = Some (s', LoopHead)"
    using exec_run_add [of 2 "2 * n" "(s, LoopHead)"] s1(1) s'(1) by simp
  moreover have "s' = s\<lparr>pcb := (pcb s)\<lparr>program_counter := of_nat (k + Suc n)\<rparr>, slept := slept s'\<rparr>"
    by (subst s'(2)) (simp add: s1' next_instruction_def)
  ultimately show ?case by blast
qed

text \<open>What ends a burst: the message to the kernel and the pcb it carries.\<close>

definition burst_end :: "t_instruction \<Rightarrow> t_pcb \<Rightarrow> (kernel_headers \<times> t_pcb) option" where
  "burst_end i p =
     (if ins_id i = ''EXIT'' then Some (EXIT_CALL, p)
      else if ins_id i = ''I/O'' \<and> params i \<noteq> [] then Some (IO_CALL, p\<lparr>pending_io_time := hd (params i)\<rparr>)
      else None)"

lemma syscall_step:
  assumes "running s" and "at_counter k s" and "k < length (instructions (pcb s))"
    and "burst_end (instructions (pcb s) ! k) ((pcb s)\<lparr>program_counter := of_nat k + 1\<rparr>) = Some (h, p)"
  shows "exec_step (s, LoopHead) = Inr (Some (s\<lparr>pcb := p, tlb := cleaned (tlb s),
    to_kernel := to_kernel s @ [pcb_message h p]\<rparr>, AwaitIdle False))"
proof -
  let ?i = "instructions (pcb s) ! k"
  have r: "running (s\<lparr>pcb := q\<rparr>)" for q using assms(1) by (simp add: running_def)
  have pc: "program_counter (pcb s) = of_nat k" using assms(2) by (simp add: at_counter_def)
  show ?thesis
  proof (cases "ins_id ?i = ''EXIT''")
    case True
    then have "get_op (ins_id ?i) = EXIT_OP" by (simp add: get_op_def)
    with True assms fetch_at [OF assms(2,3)] pc show ?thesis
      by (simp add: burst_end_def exec_step_def bussyCpu_def execute_def execute_exit_def
          pcb_to_kernel_eq [OF r] next_instruction_def running_def)
  next
    case False
    with assms(4) obtain t ts where "ins_id ?i = ''I/O''" "params ?i = t # ts"
      by (cases "params ?i") (auto simp: burst_end_def split: if_splits)
    with False assms fetch_at [OF assms(2,3)] pc show ?thesis
      by (simp add: burst_end_def exec_step_def bussyCpu_def execute_def execute_io_def get_op_def
          list_get_def pcb_to_kernel_eq [OF r] next_instruction_def running_def)
  qed
qed

lemma burst_then_message:
  assumes "noop_run k n s" and "k + n < length (instructions (pcb s))"
    and "burst_end (instructions (pcb s) ! (k + n)) ((pcb s)\<lparr>program_counter := of_nat (k + n) + 1\<rparr>) = Some (h, p)"
  shows "\<exists>s'. exec_run (2 * n + 1) (s, LoopHead) = Some (s', AwaitIdle False)
    \<and> to_kernel s' = to_kernel s @ [pcb_message h p] \<and> to_memory s' = to_memory s
    \<and> cpu_bussy s' = cpu_bussy s \<and> pcb s' = p"
proof -
  obtain z where s1: "exec_run (2 * n) (s, LoopHead)
      = Some (s\<lparr>pcb := (pcb s)\<lparr>program_counter := of_nat (k + n)\<rparr>, slept := z\<rparr>, LoopHead)"
    using exec_noops [OF assms(1)] by metis
  let ?s1 = "s\<lparr>pcb := (pcb s)\<lparr>program_counter := of_nat (k + n)\<rparr>, slept := z\<rparr>"
  have "running ?s1" "at_counter (k + n) ?s1"
    using assms(1) by (simp_all add: noop_run_def running_def at_counter_def)
  from syscall_step [OF this, of h p] assms(2,3) s1 show ?thesis
    using exec_run_add [of "2 * n" 1 "(s, LoopHead)"] by auto
qed

text \<open>
  C22. A run of NO_OPs followed by EXIT or I/O makes the CPU send exactly one message to the
  kernel and none to memory, after 2n+1 steps.
\<close>

theorem burst_sends_one_pcb:
  assumes "noop_run k n s" and "k + n < length (instructions (pcb s))"
    and "burst_end (instructions (pcb s) ! (k + n)) ((pcb s)\<lparr>program_counter := of_nat (k + n) + 1\<rparr>) = Some (h, p)"
  shows "\<exists>s'. exec_run (2 * n + 1) (s, LoopHead) = Some (s', AwaitIdle False)
    \<and> to_kernel s' = to_kernel s @ [pcb_message h p] \<and> to_memory s' = to_memory s
    \<and> cpu_bussy s' = cpu_bussy s \<and> pcb s' = p"
  using assms by (rule burst_then_message)

text \<open>A CPU after its start, a kernel connected, that has just taken a pcb.\<close>

definition loaded :: "t_pcb \<Rightarrow> cpu_state" where
  "loaded p = (cpu_start \<lparr>tlbEntryQty = 1, cpu_tlb_alg = ''FIFO'', cpu_delayNoOp = 2, memoryIP = [],
     memoryPort = [], dispatchListenPort = [], interruptListenPort = []\<rparr> p (4, 2))
     \<lparr>pcb := p, cpu_bussy := 1\<rparr>"

lemma loaded_simps [simp]:
  "running (loaded p)" "new_interruption (loaded p) = False" "pcb (loaded p) = p"
  "cpu_bussy (loaded p) = 1" "pcb_loaded (loaded p) = 0" "kernel_client_socket (loaded p) = 0"
  "to_kernel (loaded p) = []" "to_memory (loaded p) = []"
  by (simp_all add: loaded_def cpu_start_def running_def create_tlb_def)

definition idle_program :: "t_instruction list \<Rightarrow> t_pcb" where
  "idle_program is =
     \<lparr>pid = 1, pcb_size = 8, client_socket = 9, instructions = is, program_counter = 0, page_table = 0,
      process_frames_index = 0, burst_estimation = 5, blocked_time = 0, pending_io_time = 0,
      left_burst_estimation = 5\<rparr>"

definition noop :: t_instruction where
  "noop = \<lparr>ins_id = ''NO_OP'', params = [3]\<rparr>"

theorem burst_sends_one_pcb_witness:
  "let i = [noop, \<lparr>ins_id = ''I/O'', params = [7]\<rparr>]; p = idle_program i
   in \<exists>s'. exec_run 3 (loaded p, LoopHead) = Some (s', AwaitIdle False)
     \<and> to_kernel s' = [pcb_message IO_CALL (p\<lparr>program_counter := 2, pending_io_time := 7\<rparr>)]"
  using burst_sends_one_pcb [of 0 1 "loaded (idle_program [noop, \<lparr>ins_id = ''I/O'', params = [7]\<rparr>])"
      IO_CALL "(idle_program [noop, \<lparr>ins_id = ''I/O'', params = [7]\<rparr>])\<lparr>program_counter := 2, pending_io_time := 7\<rparr>"]
  by (auto simp: noop_run_def at_counter_def is_noop_def noop_def idle_program_def burst_end_def
      numeral_3_eq_3 Let_def)

text \<open>A program that runs out without EXIT.\<close>

theorem program_without_exit_is_lost:
  assumes "noop_run k n s" and "k + n = length (instructions (pcb s))" and "pcb_loaded s = 0"
  shows "\<exists>s'. exec_run (2 * n + 1) (s, LoopHead) = Some (s', AwaitPcb)
    \<and> exec_step (s', AwaitPcb) = Inr None \<and> to_kernel s' = to_kernel s \<and> to_memory s' = to_memory s"
proof -
  obtain s1 where s1: "exec_run (2 * n) (s, LoopHead) = Some (s1, LoopHead)"
      "s1 = s\<lparr>pcb := (pcb s)\<lparr>program_counter := of_nat (k + n)\<rparr>, slept := slept s1\<rparr>"
    using exec_noops [OF assms(1)] by blast
  define z where "z = slept s1"
  have s1': "s1 = s\<lparr>pcb := (pcb s)\<lparr>program_counter := of_nat (k + n)\<rparr>, slept := z\<rparr>"
    using s1(2) by (simp add: z_def)
  have lt: "k + n < 2 ^ 32" using assms(1) by (simp add: noop_run_def)
  then have "unat (program_counter (pcb s1)) = k + n"
    by (simp add: s1' unat_of_nat del: of_nat_add)
  moreover have "length (instructions (pcb s1)) = k + n" using assms(2) by (simp add: s1')
  ultimately have "exec_step (s1, LoopHead) = Inr (Some (s1, AwaitPcb))"
    by (simp add: exec_step_def)
  moreover have "exec_step (s1, AwaitPcb) = Inr None" using assms(3) by (simp add: exec_step_def s1')
  moreover have "to_kernel s1 = to_kernel s" "to_memory s1 = to_memory s" by (simp_all add: s1')
  ultimately show ?thesis
    using exec_run_add [of "2 * n" 1 "(s, LoopHead)"] s1(1) by auto
qed

theorem program_without_exit_is_lost_witness:
  "\<exists>s'. exec_run 3 (loaded (idle_program [noop]), LoopHead) = Some (s', AwaitPcb) \<and> to_kernel s' = []"
  using program_without_exit_is_lost [of 0 1 "loaded (idle_program [noop])"]
  by (auto simp: noop_run_def at_counter_def is_noop_def noop_def idle_program_def numeral_3_eq_3)

text \<open>An interrupt sent before or while a NO_OP runs.\<close>

text \<open>
  C23. An interrupt that arrives before or while the CPU runs a NO_OP makes the CPU send the pcb
  back once, with the next instruction as program counter, and reset the flag.
\<close>

theorem interrupt_preempts:
  assumes "running s" and "at_counter k s" and "k < length (instructions (pcb s))"
    and "is_noop (instructions (pcb s) ! k)" and "pcb_loaded s = 0" and "cpu_bussy s = 1"
  shows "\<exists>s1 s2. header_handler [cpu_code INTERRUPT] s = Inr s1
    \<and> exec_run 4 (s1, LoopHead) = Some (s2, AwaitPcb) \<and> exec_step (s2, AwaitPcb) = Inr None
    \<and> to_kernel s2 = to_kernel s
        @ [pcb_message INTERRUPT_DISPATCH ((pcb s)\<lparr>program_counter := of_nat k + 1\<rparr>)]
    \<and> cpu_bussy s2 = 0 \<and> \<not> new_interruption s2"
proof -
  obtain x xs where x: "params (instructions (pcb s) ! k) = x # xs"
    using assms(4) by (cases "params (instructions (pcb s) ! k)") (auto simp: is_noop_def)
  define s1 where "s1 = s\<lparr>new_interruption := True\<rparr>"
  define s2 where "s2 = (next_instruction s1)\<lparr>slept := slept s @ [of_int (delayNoOp s * 1000) * x]\<rparr>"
  define s3 where "s3 = s2\<lparr>tlb := cleaned (tlb s2),
     to_kernel := to_kernel s2 @ [pcb_message INTERRUPT_DISPATCH (pcb s2)]\<rparr>"
  define s4 where "s4 = s3\<lparr>cpu_bussy := 0, new_interruption := False\<rparr>"
  have h: "header_handler [cpu_code INTERRUPT] s = Inr s1"
    by (simp add: call_handler_def cpu_handlers_def receive_interruption_def create_packet_def s1_def)
  have r: "running s1" "at_counter k s1" "k < length (instructions (pcb s1))"
    using assms(1-3) by (simp_all add: s1_def running_def at_counter_def)
  have "exec_step (s1, LoopHead) = Inr (Some (s2, CheckInterrupt))"
    using fetch_at [OF r(2,3)] r assms(4) x
    by (simp add: exec_step_def bussyCpu_def running_def is_noop_def get_op_def execute_def execute_no_op_def
        list_get_def next_instruction_def s1_def s2_def)
  moreover have r2: "running s2" and i2: "new_interruption s2"
    using r(1) by (simp_all add: s2_def running_def next_instruction_def s1_def)
  have "exec_step (s2, CheckInterrupt) = Inr (Some (s3, AwaitIdle True))"
    using pcb_to_kernel_eq [OF r2] i2 by (simp add: exec_step_def s3_def)
  moreover have "exec_step (s3, AwaitIdle True) = Inr (Some (s4, LoopHead))"
    using assms(6) by (simp add: exec_step_def s3_def s2_def s1_def s4_def next_instruction_def)
  moreover have "exec_step (s4, LoopHead) = Inr (Some (s4, AwaitPcb))"
    by (simp add: exec_step_def s4_def bussyCpu_def)
  moreover have idle: "exec_step (s4, AwaitPcb) = Inr None"
    using assms(5) by (simp add: exec_step_def s4_def s3_def s2_def s1_def next_instruction_def)
  ultimately have "exec_run 4 (s1, LoopHead) = Some (s4, AwaitPcb)"
    by (simp add: numeral_eq_Suc)
  moreover have "to_kernel s4 = to_kernel s
      @ [pcb_message INTERRUPT_DISPATCH ((pcb s)\<lparr>program_counter := of_nat k + 1\<rparr>)]"
    using assms(2) by (simp add: s4_def s3_def s2_def s1_def next_instruction_def at_counter_def)
  ultimately show ?thesis using h idle by (auto simp: s4_def)
qed

theorem interrupt_preempts_witness:
  "\<exists>s1 s2. header_handler [1] (loaded (idle_program [noop, noop])) = Inr s1
    \<and> exec_run 4 (s1, LoopHead) = Some (s2, AwaitPcb)
    \<and> to_kernel s2 = [pcb_message INTERRUPT_DISPATCH ((idle_program [noop, noop])\<lparr>program_counter := 1\<rparr>)]"
  using interrupt_preempts [of "loaded (idle_program [noop, noop])" 0]
  by (auto simp: at_counter_def is_noop_def noop_def idle_program_def)

text \<open>An interrupt that arrives while the process makes a call of its own.\<close>

lemma cpu_handlers_keep:
  assumes "call_handler cpu_handlers p s = Inr (serve, s')"
  shows "cpu_bussy s' = cpu_bussy s \<and> to_kernel s' = to_kernel s"
proof -
  obtain h where "Some h \<in> set cpu_handlers" "h p s = Inr (serve, s')"
    using call_handler_in [OF assms] by blast
  then show ?thesis
    by (auto simp: cpu_handlers_def receive_pcb_def receive_interruption_def receive_frame_def
        receive_ptTwoIndex_def write_answer_def read_answer_def bindE_iffs)
qed

lemma blocked_for_ever:
  assumes "cpu_reach (s, AwaitIdle True) c" and "cpu_bussy s = 0"
  shows "snd c = AwaitIdle True \<and> cpu_bussy (fst c) = 0 \<and> to_kernel (fst c) = to_kernel s"
  using assms
proof (induction rule: cpu_reach.induct)
  case (step c' c'')
  from step.hyps(2) step.IH [OF step.prems] show ?case
  proof (cases rule: cpu_event.cases)
    case exec
    then show ?thesis using step.IH [OF step.prems] by (cases c') (simp add: exec_step_def)
  next
    case (handler p s1 serve s2 pc)
    then show ?thesis using step.IH [OF step.prems] cpu_handlers_keep by fastforce
  next
    case (connect s1 pc sock)
    then show ?thesis using step.IH [OF step.prems] by (simp add: dispatch_connected_def Let_def)
  qed
qed simp

lemma call_then_interrupt:
  assumes "running s" and "at_counter k s" and "k < length (instructions (pcb s))"
    and "burst_end (instructions (pcb s) ! k) ((pcb s)\<lparr>program_counter := of_nat k + 1\<rparr>) = Some (h, p)"
    and "new_interruption s" and "cpu_bussy s = 1"
  shows "\<exists>s'. exec_run 3 (s, LoopHead) = Some (s', AwaitIdle True)
    \<and> to_kernel s' = to_kernel s @ [pcb_message h p, pcb_message INTERRUPT_DISPATCH p] \<and> cpu_bussy s' = 0"
proof -
  define s1 where "s1 = s\<lparr>pcb := p, tlb := cleaned (tlb s), to_kernel := to_kernel s @ [pcb_message h p]\<rparr>"
  define s2 where "s2 = s1\<lparr>cpu_bussy := 0\<rparr>"
  define s3 where "s3 = s2\<lparr>tlb := cleaned (tlb s2),
     to_kernel := to_kernel s2 @ [pcb_message INTERRUPT_DISPATCH p]\<rparr>"
  have held: "\<not> tlb_held (tlb s2)" "kernel_client_socket s2 \<noteq> -1"
    using assms(1) by (simp_all add: running_def s2_def s1_def cleaned_def)
  have "exec_step (s, LoopHead) = Inr (Some (s1, AwaitIdle False))"
    using syscall_step [OF assms(1-4)] by (simp add: s1_def)
  moreover have "exec_step (s1, AwaitIdle False) = Inr (Some (s2, CheckInterrupt))"
    using assms(6) by (simp add: exec_step_def s2_def s1_def)
  moreover have "exec_step (s2, CheckInterrupt) = Inr (Some (s3, AwaitIdle True))"
    using assms(5) held
    by (simp add: exec_step_def pcb_to_kernel_def clean_tlb_eq s3_def cleaned_def pcb_message_def
        s2_def s1_def Let_def)
  ultimately have "exec_run 3 (s, LoopHead) = Some (s3, AwaitIdle True)"
    by (simp add: numeral_3_eq_3)
  moreover have "cpu_bussy s3 = 0" "to_kernel s3 = to_kernel s @ [pcb_message h p, pcb_message INTERRUPT_DISPATCH p]"
    by (simp_all add: s3_def s2_def s1_def)
  ultimately show ?thesis by blast
qed

theorem interrupted_call_blocks:
  assumes "running s" and "at_counter k s" and "k < length (instructions (pcb s))"
    and "burst_end (instructions (pcb s) ! k) ((pcb s)\<lparr>program_counter := of_nat k + 1\<rparr>) = Some (h, p)"
    and "new_interruption s" and "cpu_bussy s = 1"
  shows "\<exists>s'. exec_run 3 (s, LoopHead) = Some (s', AwaitIdle True)
    \<and> to_kernel s' = to_kernel s @ [pcb_message h p, pcb_message INTERRUPT_DISPATCH p]
    \<and> (\<forall>c. cpu_reach (s', AwaitIdle True) c \<longrightarrow> snd c = AwaitIdle True \<and> to_kernel (fst c) = to_kernel s')"
  using call_then_interrupt [OF assms] blocked_for_ever by blast

theorem interrupted_call_blocks_witness:
  "let p = idle_program [\<lparr>ins_id = ''EXIT'', params = []\<rparr>]; q = p\<lparr>program_counter := 1\<rparr>
   in \<exists>s'. exec_run 3 ((loaded p)\<lparr>new_interruption := True\<rparr>, LoopHead) = Some (s', AwaitIdle True)
     \<and> to_kernel s' = [pcb_message EXIT_CALL q, pcb_message INTERRUPT_DISPATCH q]"
proof -
  let ?p = "idle_program [\<lparr>ins_id = ''EXIT'', params = []\<rparr>]"
  have "running ((loaded ?p)\<lparr>new_interruption := True\<rparr>)"
    using loaded_simps(1) [of ?p] by (simp add: running_def del: loaded_simps)
  then show ?thesis
    using interrupted_call_blocks [of "(loaded ?p)\<lparr>new_interruption := True\<rparr>" 0 EXIT_CALL "?p\<lparr>program_counter := 1\<rparr>"]
    by (auto simp: at_counter_def idle_program_def burst_end_def Let_def)
qed

text \<open>The table of instructions has no entry for an unknown operation code.\<close>

theorem unknown_operation_faults:
  assumes "running s" and "at_counter k s" and "k < length (instructions (pcb s))"
    and "ins_id (instructions (pcb s) ! k) \<notin> {''NO_OP'', ''I/O'', ''READ'', ''WRITE'', ''COPY'', ''EXIT''}"
  shows "exec_step (s, LoopHead) = Inl BadCall"
proof -
  have "get_op (ins_id (instructions (pcb s) ! k)) = DEAD" using assms(4) by (simp add: get_op_def)
  then show ?thesis
    using assms(1-3) fetch_at [OF assms(2,3)]
    by (simp add: exec_step_def bussyCpu_def running_def execute_def)
qed

theorem unknown_operation_faults_witness:
  "exec_step (loaded (idle_program [\<lparr>ins_id = ''no_op'', params = []\<rparr>]), LoopHead) = Inl BadCall"
  using unknown_operation_faults [of "loaded (idle_program [\<lparr>ins_id = ''no_op'', params = []\<rparr>])" 0]
  by (simp add: at_counter_def idle_program_def)

section \<open>The TLB\<close>

text \<open>
  C39. On a fresh TLB of any size the first add fills entry 0 and the second deadlocks on
  tlb_mutex, because the search does not unlock entries in use.
\<close>

theorem tlb_second_add_deadlocks:
  assumes "0 < n" and "add_tlb_entry pg fr (create_tlb n alg) = Inr r"
  shows "\<exists>t. r = Some t \<and> entries t ! 0 = \<lparr>tlb_page = pg, tlb_frame = fr, isFree = False\<rparr>
    \<and> add_tlb_entry pg' fr' t = Inl SelfDeadlock"
proof -
  define t where "t = create_tlb n alg"
  define m where "m = nat n - 1"
  have m: "[0..<length (entries t)] = 0 # [1..<Suc m]"
    using assms(1) by (simp add: create_tlb_def t_def m_def upt_conv_Cons)
  have t: "entries t \<noteq> []" "isFree (entries t ! 0)" "\<not> tlb_held t"
    using assms(1) by (simp_all add: create_tlb_def t_def)
  let ?t1 = "(set_entry 0 pg fr t)\<lparr>victims := pQueue_put (victims t) 0\<rparr>"
  have "add_tlb_search pg fr (0 # xs) t = Inr (True, ?t1)" for xs
    using t by (cases t) (simp add: tlb_unlock_def set_entry_def)
  then have r: "r = Some ?t1"
    using assms(2) by (simp add: add_tlb_entry_def m flip: t_def)
  have u: "entries ?t1 ! 0 = \<lparr>tlb_page = pg, tlb_frame = fr, isFree = False\<rparr>"
    using t by (simp add: set_entry_def)
  have "[0..<length (entries ?t1)] = 0 # [1..<Suc m]" using m by (simp add: set_entry_def)
  moreover have "\<not> tlb_held ?t1" using t by (simp add: set_entry_def)
  moreover have "add_tlb_search pg' fr' [1..<Suc m] (?t1\<lparr>tlb_held := True\<rparr>)
      = (if m = 0 then Inr (False, ?t1\<lparr>tlb_held := True\<rparr>) else Inl SelfDeadlock)"
    by (simp add: add_tlb_search_held)
  ultimately have "add_tlb_entry pg' fr' ?t1 = Inl SelfDeadlock"
    using u by (simp add: add_tlb_entry_def)
  with r u show ?thesis by blast
qed

theorem tlb_second_add_deadlocks_witness:
  "\<exists>t. add_tlb_entry 5 2 (create_tlb 4 ''FIFO'') = Inr (Some t) \<and> add_tlb_entry 6 3 t = Inl SelfDeadlock"
proof -
  have "\<exists>r. add_tlb_entry 5 2 (create_tlb 4 ''FIFO'') = Inr r"
    by (simp add: add_tlb_entry_def create_tlb_def numeral_eq_Suc Let_def)
  then show ?thesis using tlb_second_add_deadlocks [of 4] by fastforce
qed

theorem tlb_lookup_miss_deadlocks:
  assumes "tlb_alg t = TLB_FIFO" and "\<not> tlb_held t"
    and "i < length (entries t) - 1" and "\<not> tlb_hit pg t i"
  shows "get_tlb_frame pg t = Inl SelfDeadlock"
proof -
  have "\<exists>j \<in> set (butlast [0..<length (entries t)]). \<not> tlb_hit pg t j"
    using assms(3,4) by (cases "length (entries t)") auto
  from get_tlb_iter_miss [OF assms(2,1) this] show ?thesis
    by (simp add: get_tlb_frame_def)
qed

theorem tlb_lookup_miss_deadlocks_witness:
  "get_tlb_frame 5 (create_tlb 2 ''FIFO'') = Inl SelfDeadlock"
  using tlb_lookup_miss_deadlocks [of "create_tlb 2 ''FIFO''" 0 5]
  by (simp add: create_tlb_def tlb_hit_def)

end
