(* ===== verification/Console.thy ===== *)
theory Console
  imports Process_Utils Networking Socket_Headers
begin

text \<open>
  \<^verbatim>\<open>console/src/console.c\<close> and \<^verbatim>\<open>console/src/utils.c\<close>: the console reads a file of pseudocode,
  sends it to the kernel as a process, and waits for the one byte that ends it.

  \<^item> \<open>string_split\<close> and \<open>string_trim\<close> of the commons library are the parameters \<open>split\<close> and
    \<open>trim\<close>; \<open>split_doc\<close> and \<open>trim_doc\<close> are what their documentation promises.
  \<^item> \<open>getline\<close> and \<open>atoi\<close> of the C library are modelled; \<open>atoi\<close> of a number that is no \<open>int\<close> is
    undefined (\<open>BadConversion\<close>).
  \<^item> \<open>console_main\<close> is the whole program, given its arguments, the content of the code file, and
    the operating system's side of the socket. \<open>None\<close> is a console that waits on the socket.
\<close>

section \<open>The C library\<close>

definition newline :: char where
  "newline = CHR 0x0A"

definition is_space :: "char \<Rightarrow> bool" where
  "is_space c \<longleftrightarrow> c \<in> set [CHR '' '', CHR 0x09, newline, CHR 0x0B, CHR 0x0C, CHR 0x0D]"

definition is_digit :: "char \<Rightarrow> bool" where
  "is_digit c \<longleftrightarrow> (of_char c :: nat) \<in> {48..57}"

fun digits_value :: "int \<Rightarrow> string \<Rightarrow> int" where
  "digits_value acc [] = acc"
| "digits_value acc (c # cs) =
     (if is_digit c then digits_value (acc * 10 + (int (of_char c) - 48)) cs else acc)"

definition atoi :: "string \<Rightarrow> int res" where
  "atoi s =
     (let t = dropWhile is_space s;
          v = (case t of
                 [] \<Rightarrow> 0
               | c # cs \<Rightarrow> if c = CHR ''-'' then - digits_value 0 cs
                           else if c = CHR ''+'' then digits_value 0 cs
                           else digits_value 0 t)
      in bindE (guardE (- (2 ^ 31) \<le> v \<and> v < 2 ^ 31) BadConversion) (\<lambda>_. Inr v))"

text \<open>The lines \<open>getline\<close> returns, their newlines included; \<open>acc\<close> is the line read so far.\<close>

fun getlines :: "string \<Rightarrow> string \<Rightarrow> string list" where
  "getlines acc [] = (if acc = [] then [] else [acc])"
| "getlines acc (c # cs) =
     (if c = newline then (acc @ [c]) # getlines [] cs else getlines (acc @ [c]) cs)"

section \<open>Reading the code\<close>

fun parse_params :: "(string \<Rightarrow> string) \<Rightarrow> string list \<Rightarrow> u32 list res" where
  "parse_params trim [] = Inr []"
| "parse_params trim (next_param # ps) =
     bindE (atoi (trim next_param)) (\<lambda>param.
     bindE (parse_params trim ps) (\<lambda>ws. Inr (of_int param # ws)))"

definition parse_instruction ::
  "(string \<Rightarrow> string \<Rightarrow> string list) \<Rightarrow> (string \<Rightarrow> string) \<Rightarrow> string \<Rightarrow> t_instruction res" where
  "parse_instruction split trim s =
     (case split s '' '' of
        [] \<Rightarrow> Inl NullDeref
      | name # ps \<Rightarrow>
          bindE (parse_params trim ps) (\<lambda>ws. Inr \<lparr>ins_id = trim name, params = ws\<rparr>))"

fun parse_lines ::
  "(string \<Rightarrow> string \<Rightarrow> string list) \<Rightarrow> (string \<Rightarrow> string) \<Rightarrow> string list \<Rightarrow> t_instruction list res" where
  "parse_lines split trim [] = Inr []"
| "parse_lines split trim (l # ls) =
     bindE (parse_instruction split trim l) (\<lambda>i.
     bindE (parse_lines split trim ls) (\<lambda>is. Inr (i # is)))"

definition get_code ::
  "(string \<Rightarrow> string \<Rightarrow> string list) \<Rightarrow> (string \<Rightarrow> string) \<Rightarrow> string \<Rightarrow> t_instruction list res" where
  "get_code split trim file = parse_lines split trim (getlines [] file)"

section \<open>The program\<close>

text \<open>\<open>error_opening_file\<close> locks \<open>mutex_log\<close>, and locks it again after the log call.\<close>

definition log_lock :: "bool \<Rightarrow> bool res" where
  "log_lock held = (if held then Inl SelfDeadlock else Inr True)"

definition error_opening_file :: "bool \<Rightarrow> bool res" where
  "error_opening_file held = bindE (log_lock held) log_lock"

definition open_file :: "string option \<Rightarrow> string option res" where
  "open_file file =
     (case file of
        None \<Rightarrow> bindE (error_opening_file False) (\<lambda>_. Inr None)
      | Some content \<Rightarrow> Inr (Some content))"

definition terminate_console :: "bool \<Rightarrow> exit_code" where
  "terminate_console error = (if error then EXIT_FAILURE else EXIT_SUCCESS)"

definition console_packet :: "t_process \<Rightarrow> t_packet" where
  "console_packet process =
     (let process_packet = create_packet (kernel_code NEW_PROCESS) INITIAL_STREAM_SIZE
      in process_packet\<lparr>payload := stream_add_process (payload process_packet) process\<rparr>)"

text \<open>From the sending of the process on: the exit code and the bytes sent.\<close>

definition console_send ::
  "u8 \<Rightarrow> recv_event list \<Rightarrow> int list \<Rightarrow> t_process \<Rightarrow> (exit_code \<times> u8 list) option res" where
  "console_send junk es rs process =
     bindE (socket_send_packet rs (console_packet process)) (\<lambda>sent.
       Inr (do {
         (out, rs) \<leftarrow> sent;
         (result, es) \<leftarrow> socket_receive_header junk es;
         Some (terminate_console (result \<noteq> 0), out) }))"

definition console_main ::
  "(string \<Rightarrow> string \<Rightarrow> string list) \<Rightarrow> (string \<Rightarrow> string) \<Rightarrow> nat \<Rightarrow> bool \<Rightarrow> bool \<Rightarrow> string
     \<Rightarrow> string option \<Rightarrow> u8 \<Rightarrow> recv_event list \<Rightarrow> int list \<Rightarrow> (exit_code \<times> u8 list) option res" where
  "console_main split trim argc config_ok connected size_arg file junk es rs =
     (if argc < 3 \<or> \<not> config_ok then Inr (Some (EXIT_FAILURE, []))
      else if \<not> connected then Inr (Some (terminate_console True, []))
      else
        bindE (atoi size_arg) (\<lambda>process_size.
        bindE (open_file file) (\<lambda>f.
        bindE (case f of None \<Rightarrow> Inl NullDeref | Some content \<Rightarrow> get_code split trim content)
          (\<lambda>instruction_list.
          if instruction_list = [] then Inr (Some (terminate_console True, []))
          else console_send junk es rs
            \<lparr>proc_size = of_int process_size, proc_instructions = instruction_list\<rparr>))))"

section \<open>What split and trim document\<close>

fun join_sp :: "string list \<Rightarrow> string" where
  "join_sp [] = []"
| "join_sp [t] = t"
| "join_sp (t # ts) = t @ CHR '' '' # join_sp ts"

definition split_doc :: "(string \<Rightarrow> string \<Rightarrow> string list) \<Rightarrow> bool" where
  "split_doc split \<longleftrightarrow>
     (\<forall>ts. ts \<noteq> [] \<longrightarrow> (\<forall>t \<in> set ts. t \<noteq> [] \<and> CHR '' '' \<notin> set t) \<longrightarrow> split (join_sp ts) '' '' = ts)"

definition trim_doc :: "(string \<Rightarrow> string) \<Rightarrow> bool" where
  "trim_doc trim \<longleftrightarrow>
     (\<forall>l t r. (\<forall>c \<in> set l \<union> set r. is_space c) \<longrightarrow> (\<forall>c \<in> set t. \<not> is_space c) \<longrightarrow> trim (l @ t @ r) = t)"

text \<open>Functions that keep to it.\<close>

fun split_on :: "string \<Rightarrow> string \<Rightarrow> string list" where
  "split_on acc [] = [acc]"
| "split_on acc (c # cs) =
     (if c = CHR '' '' then acc # split_on [] cs else split_on (acc @ [c]) cs)"

definition simple_split :: "string \<Rightarrow> string \<Rightarrow> string list" where
  "simple_split s sep = split_on [] s"

definition simple_trim :: "string \<Rightarrow> string" where
  "simple_trim s = rev (dropWhile is_space (rev (dropWhile is_space s)))"

lemma split_on_token:
  "CHR '' '' \<notin> set t \<Longrightarrow> split_on acc (t @ CHR '' '' # cs) = (acc @ t) # split_on [] cs"
  "CHR '' '' \<notin> set t \<Longrightarrow> split_on acc t = [acc @ t]"
  by (induction t arbitrary: acc) auto

lemma split_doc_simple: "split_doc simple_split"
proof -
  have "split_on [] (join_sp ts) = ts" if "ts \<noteq> []" "\<forall>t \<in> set ts. CHR '' '' \<notin> set t" for ts
    using that by (induction ts rule: join_sp.induct) (auto simp: split_on_token)
  then show ?thesis by (simp add: split_doc_def simple_split_def)
qed

lemma trim_doc_simple: "trim_doc simple_trim"
proof -
  have "simple_trim (l @ t @ r) = t"
    if "\<forall>c \<in> set l \<union> set r. is_space c" "\<forall>c \<in> set t. \<not> is_space c" for l t r
  proof -
    have a: "dropWhile is_space (l @ t @ r) = dropWhile is_space (t @ r)"
      using that by (subst dropWhile_append2) auto
    show ?thesis
    proof (cases t)
      case Nil
      have "\<forall>c \<in> set (l @ t @ r). is_space c" using that Nil by auto
      then have "dropWhile is_space (l @ t @ r) = []" by (metis dropWhile_eq_Nil_conv)
      then show ?thesis unfolding simple_trim_def by (simp only: rev.simps dropWhile.simps Nil)
    next
      case (Cons c t')
      have b: "dropWhile is_space (l @ t @ r) = t @ r" using a that(2) by (simp add: Cons)
      have "dropWhile is_space (rev r @ rev t) = dropWhile is_space (rev t)"
        using that by (subst dropWhile_append2) auto
      also have "\<dots> = rev t"
      proof -
        have "t \<noteq> []" by (simp add: Cons)
        then have "\<not> is_space (hd (rev t))" using that(2) last_in_set [of t] by (simp add: hd_rev)
        then show ?thesis by (simp add: dropWhile_eq_self_iff)
      qed
      finally show ?thesis by (simp add: simple_trim_def b)
    qed
  qed
  then show ?thesis by (simp add: trim_doc_def)
qed

section \<open>Code, written out\<close>

definition digit_char :: "nat \<Rightarrow> char" where
  "digit_char n = char_of (48 + n)"

fun dec :: "nat \<Rightarrow> string" where
  "dec n = (if n < 10 then [digit_char n] else dec (n div 10) @ [digit_char (n mod 10)])"

declare dec.simps [simp del]

definition instruction_tokens :: "t_instruction \<Rightarrow> string list" where
  "instruction_tokens i = ins_id i # map (\<lambda>w. dec (unat w)) (params i)"

definition print_instruction :: "t_instruction \<Rightarrow> string" where
  "print_instruction i = join_sp (instruction_tokens i) @ [newline]"

definition print_code :: "t_instruction list \<Rightarrow> string" where
  "print_code is = concat (map print_instruction is)"

text \<open>What can be written: names are not blank, parameters fit an \<open>int\<close>.\<close>

definition printable :: "t_instruction \<Rightarrow> bool" where
  "printable i \<longleftrightarrow> ins_id i \<noteq> [] \<and> list_all (\<lambda>c. \<not> is_space c) (ins_id i)
     \<and> list_all (\<lambda>w. unat w < 2 ^ 31) (params i)"

section \<open>Numbers\<close>

lemma of_char_digit [simp]: "n < 10 \<Longrightarrow> (of_char (digit_char n) :: nat) = 48 + n"
  by (simp add: digit_char_def)

lemma is_digit_char [simp]: "n < 10 \<Longrightarrow> is_digit (digit_char n)"
  by (simp add: is_digit_def)

lemma digit_not_space: "is_digit c \<Longrightarrow> \<not> is_space c"
  by (auto simp: is_digit_def is_space_def newline_def)

lemma digit_not_sign: "is_digit c \<Longrightarrow> c \<noteq> CHR ''-'' \<and> c \<noteq> CHR ''+''"
  by (auto simp: is_digit_def)

lemma dec_digits: "list_all is_digit (dec n) \<and> dec n \<noteq> []"
  by (induction n rule: dec.induct) (subst dec.simps, simp add: dec.simps)

lemma digits_value_append:
  "list_all is_digit xs \<Longrightarrow> digits_value acc (xs @ ys) = digits_value (digits_value acc xs) ys"
  by (induction xs arbitrary: acc) auto

lemma digits_value_dec: "digits_value 0 (dec n) = int n"
proof (induction n rule: dec.induct)
  case (1 n)
  show ?case
  proof (cases "n < 10")
    case False
    then have "digits_value 0 (dec n) = int (n div 10) * 10 + int (n mod 10)"
      using 1 dec_digits [of "n div 10"]
      by (subst dec.simps) (simp add: digits_value_append)
    also have "\<dots> = int n" using div_mult_mod_eq [of n 10] by (metis of_nat_add of_nat_mult of_nat_numeral)
    finally show ?thesis .
  qed (simp add: dec.simps)
qed

lemma atoi_dec: "n < 2 ^ 31 \<Longrightarrow> atoi (dec n) = Inr (int n)"
proof -
  assume n: "n < 2 ^ 31"
  obtain c cs where c: "dec n = c # cs" "is_digit c" using dec_digits [of n] by (cases "dec n") auto
  then have "dropWhile is_space (dec n) = c # cs" using digit_not_space by simp
  moreover have "digits_value 0 (c # cs) = int n" using digits_value_dec [of n] c(1) by simp
  ultimately show ?thesis using n digit_not_sign [OF c(2)] by (simp add: atoi_def Let_def del: digits_value.simps)
qed

section \<open>The parser inverts the printer\<close>

lemma join_sp_snoc: "join_sp (ts @ [t]) @ r = join_sp (ts @ [t @ r])"
  by (induction ts rule: join_sp.induct) auto

lemma tokens_clean:
  "printable i \<Longrightarrow> t \<in> set (instruction_tokens i) \<Longrightarrow> t \<noteq> [] \<and> (\<forall>c \<in> set t. \<not> is_space c)"
proof -
  assume p: "printable i" and t: "t \<in> set (instruction_tokens i)"
  then consider "t = ins_id i" | n where "t = dec n" by (auto simp: instruction_tokens_def)
  then show ?thesis
  proof cases
    case 1
    with p show ?thesis by (simp add: printable_def list_all_iff)
  next
    case 2
    with dec_digits [of n] digit_not_space show ?thesis by (auto simp: list_all_iff)
  qed
qed

lemma parse_params_trimmed:
  "list_all (\<lambda>w. unat w < 2 ^ 31) ws \<Longrightarrow> map trim ps = map (\<lambda>w. dec (unat w)) ws
    \<Longrightarrow> parse_params trim ps = Inr ws"
proof (induction ws arbitrary: ps)
  case (Cons w ws)
  then obtain p ps' where "ps = p # ps'" "trim p = dec (unat w)" "map trim ps' = map (\<lambda>w. dec (unat w)) ws"
    by auto
  with Cons show ?case by (simp add: atoi_dec)
qed simp

lemma parse_print_instruction:
  assumes "split_doc split" and "trim_doc trim" and "printable i"
  shows "parse_instruction split trim (print_instruction i) = Inr i"
proof -
  let ?ts = "instruction_tokens i"
  obtain ts t where ts: "?ts = ts @ [t]"
    by (cases ?ts rule: rev_cases) (auto simp: instruction_tokens_def)
  let ?raw = "ts @ [t @ [newline]]"
  have clean: "u \<noteq> [] \<and> (\<forall>c \<in> set u. \<not> is_space c)" if "u \<in> set (ts @ [t])" for u
    using tokens_clean [OF assms(3)] that ts by simp
  have sp: "is_space (CHR '' '')" "is_space newline" by (simp_all add: is_space_def)
  have "\<forall>u \<in> set ?raw. u \<noteq> [] \<and> CHR '' '' \<notin> set u"
    using clean sp by (fastforce simp: newline_def)
  then have split: "split (print_instruction i) '' '' = ?raw"
    using assms(1) by (simp add: split_doc_def print_instruction_def ts join_sp_snoc)
  have trim: "trim (u @ r) = u" if "u \<in> set (ts @ [t])" "set r \<subseteq> {newline}" for u r
    using assms(2) [unfolded trim_doc_def, rule_format, of "[]" r u] clean [OF that(1)] that(2) sp(2) by auto
  have "map trim ?raw = ?ts"
    using trim [of _ "[]"] trim [of t "[newline]"] by (simp add: ts map_idI)
  then obtain p ps where "?raw = p # ps" "trim p = ins_id i" "map trim ps = map (\<lambda>w. dec (unat w)) (params i)"
    by (auto simp: instruction_tokens_def map_eq_Cons_conv simp del: map_append)
  moreover from assms(3) have "list_all (\<lambda>w. unat w < 2 ^ 31) (params i)"
    by (simp add: printable_def)
  ultimately show ?thesis
    using split parse_params_trimmed [of "params i" trim ps] by (simp add: parse_instruction_def)
qed

lemma getlines_line: "newline \<notin> set l \<Longrightarrow> getlines acc (l @ newline # cs) = (acc @ l @ [newline]) # getlines [] cs"
  by (induction l arbitrary: acc) auto

lemma join_sp_set: "set (join_sp ts) \<subseteq> insert (CHR '' '') (\<Union> (set (map set ts)))"
  by (induction ts rule: join_sp.induct) auto

lemma getlines_print:
  "list_all printable is \<Longrightarrow> getlines [] (print_code is) = map print_instruction is"
proof (induction "is")
  case (Cons i "is")
  have "newline \<notin> set t" if "t \<in> set (instruction_tokens i)" for t
    using tokens_clean [of i t] that Cons.prems by (auto simp: is_space_def)
  then have "newline \<notin> set (join_sp (instruction_tokens i))"
    using join_sp_set [of "instruction_tokens i"] by (fastforce simp: newline_def)
  with Cons show ?case by (simp add: print_code_def print_instruction_def getlines_line)
qed (simp add: print_code_def)

lemma parse_lines_print:
  "split_doc split \<Longrightarrow> trim_doc trim \<Longrightarrow> list_all printable is \<Longrightarrow>
     parse_lines split trim (map print_instruction is) = Inr is"
  by (induction "is") (auto simp: parse_print_instruction)

end
