(* ===== verification/Console_Props.thy ===== *)
theory Console_Props
  imports Console
begin

text \<open>
  The console as a whole: it parses what was printed, sends the program it read, and ends with the
  answer of the kernel as its exit code; a file that does not exist stops it for ever.
\<close>

section \<open>The program as a whole\<close>

text \<open>The bytes of the packet that asks the kernel for a new process.\<close>

lemma console_packet_holds:
  assumes "wf_process p" and "length (process_bytes p) < 2 ^ 32"
  shows "holds (payload (console_packet p)) (process_bytes p)" and "header (console_packet p) = kernel_code NEW_PROCESS"
  using process_put_holds [OF assms(1) holds_create, of INITIAL_STREAM_SIZE] assms(2)
  by (simp_all add: console_packet_def create_packet_def Let_def)

lemma console_send_eq:
  assumes "wf_process p" and "length (process_bytes p) < 2 ^ 32"
    and "list_all (\<lambda>i. 0 < i) rs" and "length (process_bytes p) + 5 \<le> length rs" and "wire es = r # ws"
  shows "console_send junk es rs p
    = Inr (Some (terminate_console (r \<noteq> 0), packet_bytes (kernel_code NEW_PROCESS) (process_bytes p)))"
proof -
  obtain rs' where "socket_send_packet rs (console_packet p)
      = Inr (Some (packet_bytes (kernel_code NEW_PROCESS) (process_bytes p), rs'))"
    using socket_send_packet_exact [OF console_packet_holds(1) [OF assms(1,2)] assms(3,4)]
      console_packet_holds(2) [OF assms(1,2)] by auto
  moreover obtain es' where "socket_receive_header junk es = Some (r, es')"
    using socket_receive_exact [of es "[r]" ws] assms(5) by (auto simp: socket_receive_header_def)
  ultimately show ?thesis by (simp add: console_send_def)
qed

text \<open>
  C28. get_code reads back every printable list of instructions.
\<close>

theorem code_round_trip:
  assumes "split_doc split" and "trim_doc trim" and "list_all printable is"
  shows "get_code split trim (print_code is) = Inr is"
  using assms by (simp add: get_code_def getlines_print parse_lines_print)

text \<open>From the arguments of the program to its exit code.\<close>

text \<open>
  C13. A code file written as instructions is parsed back to them, sent to the kernel with the
  size given, and the exit code is success exactly when the kernel answers 0.
\<close>

theorem console_sends_the_program:
  assumes "split_doc split" and "trim_doc trim" and "list_all printable is" and "is \<noteq> []"
    and "n < 2 ^ 31" and "p = \<lparr>proc_size = of_nat n, proc_instructions = is\<rparr>"
    and "wf_process p" and "length (process_bytes p) < 2 ^ 32"
    and "list_all (\<lambda>i. 0 < i) rs" and "length (process_bytes p) + 5 \<le> length rs" and "wire es = r # ws"
  shows "console_main split trim 3 True True (dec n) (Some (print_code is)) junk es rs
    = Inr (Some (if r = 0 then EXIT_SUCCESS else EXIT_FAILURE,
                 packet_bytes (kernel_code NEW_PROCESS) (process_bytes p)))"
proof -
  have "get_code split trim (print_code is) = Inr is"
    using assms(1-3) by (simp add: get_code_def getlines_print parse_lines_print)
  then show ?thesis
    using assms(4-6) console_send_eq [OF assms(7-11)]
    by (simp add: console_main_def atoi_dec open_file_def terminate_console_def)
qed

theorem missing_file_deadlocks:
  assumes "3 \<le> argc" and "atoi size_arg = Inr n"
  shows "console_main split trim argc True True size_arg None junk es rs = Inl SelfDeadlock"
  using assms
  by (simp add: console_main_def open_file_def error_opening_file_def log_lock_def)

theorem missing_file_deadlocks_witness:
  "console_main simple_split simple_trim 3 True True ''16'' None 0 [] [] = Inl SelfDeadlock"
  using missing_file_deadlocks [of 3 "''16''" 16]
  by (simp add: atoi_def is_space_def newline_def is_digit_def)

definition sample_code :: "t_instruction list" where
  "sample_code = [\<lparr>ins_id = ''NO_OP'', params = [5]\<rparr>, \<lparr>ins_id = ''EXIT'', params = []\<rparr>]"

lemma sample_printable: "list_all printable sample_code" "sample_code \<noteq> []"
  by (simp_all add: sample_code_def printable_def is_space_def newline_def)

lemma sample_text: "print_code sample_code = ''NO_OP 5'' @ [newline] @ ''EXIT'' @ [newline]"
  by code_simp

lemma sample_process:
  "wf_process \<lparr>proc_size = 16, proc_instructions = sample_code\<rparr>"
  "length (process_bytes \<lparr>proc_size = 16, proc_instructions = sample_code\<rparr>) = 39"
  by (simp_all add: sample_code_def wf_process_def process_bytes_def wf_instruction_def c_string_def
      enc_LIST_def)

theorem code_round_trip_witness:
  "get_code simple_split simple_trim (''NO_OP 5'' @ [newline] @ ''EXIT'' @ [newline]) = Inr sample_code"
  using code_round_trip [OF split_doc_simple trim_doc_simple sample_printable(1)]
  by (simp only: sample_text)

theorem console_sends_the_program_witness:
  "console_main simple_split simple_trim 3 True True ''16'' (Some (''NO_OP 5'' @ [newline] @ ''EXIT'' @ [newline]))
     9 [Data [0]] (replicate 48 1)
   = Inr (Some (EXIT_SUCCESS, packet_bytes (kernel_code NEW_PROCESS)
       (process_bytes \<lparr>proc_size = 16, proc_instructions = sample_code\<rparr>)))"
proof -
  have d: "dec 16 = ''16''" by code_simp
  show ?thesis
    using console_sends_the_program [OF split_doc_simple trim_doc_simple sample_printable, of 16
        "\<lparr>proc_size = 16, proc_instructions = sample_code\<rparr>" "replicate 48 1" "[Data [0]]" 0 "[]" 9]
      sample_process
    by (simp only: sample_text d) (simp add: list_all_iff)
qed

end
