(* ===== verification/Delivery.thy ===== *)
theory Delivery
  imports Kernel_Props Cpu_Props Console_Props
begin

text \<open>
  What one program puts on a socket and what the next one takes from it: \<open>delivered p q\<close> says that the
  packet \<open>p\<close>, as it was built for sending, arrives as \<open>q\<close> whatever way the two ends cut the bytes.
  The lemmas give the arriving packet for everything the four programs send each other.
\<close>

section \<open>Delivery\<close>

text \<open>
  Packet \<open>p\<close> put on a socket comes out as \<open>q\<close>, however the two ends cut the bytes, as long as \<open>send\<close>
  makes progress.
\<close>

definition delivered :: "t_packet \<Rightarrow> t_packet \<Rightarrow> bool" where
  "delivered p q \<longleftrightarrow>
     (\<forall>rs. list_all (\<lambda>i. 0 < i) rs \<longrightarrow> unat (offset (payload p)) + 5 \<le> length rs \<longrightarrow>
       (\<exists>out rs'. socket_send_packet rs p = Inr (Some (out, rs'))
         \<and> (\<forall>es ws junk. wire es = out @ ws \<longrightarrow>
              (\<exists>es'. socket_receive_packet junk es = Some (Some q, es') \<and> wire es' = ws))))"

lemma delivered_holds:
  assumes "holds (payload p) bs" and "length bs < 2 ^ 32"
  shows "delivered p (received (header p) bs)"
  unfolding delivered_def
proof (intro allI impI)
  fix rs :: "int list"
  assume rs: "list_all (\<lambda>i. 0 < i) rs" "unat (offset (payload p)) + 5 \<le> length rs"
  then obtain rs' where "socket_send_packet rs p = Inr (Some (packet_bytes (header p) bs, rs'))"
    using socket_send_packet_exact [OF assms(1) rs(1)] assms(1) by (auto simp: holds_def)
  with socket_receive_packet_exact [OF _ assms(2)]
  show "\<exists>out rs'. socket_send_packet rs p = Inr (Some (out, rs'))
      \<and> (\<forall>es ws junk. wire es = out @ ws \<longrightarrow>
           (\<exists>es'. socket_receive_packet junk es = Some (Some (received (header p) bs), es') \<and> wire es' = ws))"
    by meson
qed

lemma add_u32_holds:
  assumes "holds (payload p) bs" and "length bs + 4 < 2 ^ 32"
  shows "holds (payload (add_u32 p w)) (bs @ u32_bytes w)"
  using UINT32_put_holds [OF assms] by (simp add: add_u32_def)

lemma created_holds: "holds (payload (create_packet h n)) []"
  by (simp add: create_packet_def)

lemma words_holds:
  assumes "length ws < 2 ^ 29"
  shows "holds (payload (fold (\<lambda>v p. add_u32 p v) ws (create_packet h n))) (concat (map u32_bytes ws))"
  using assms
proof (induction ws rule: rev_induct)
  case (snoc w ws)
  then show ?case
    using add_u32_holds [of "fold (\<lambda>v p. add_u32 p v) ws (create_packet h n)" "concat (map u32_bytes ws)" w]
    by simp
qed (simp add: created_holds)

lemma header_words [simp]: "header (fold (\<lambda>v p. add_u32 p v) ws p) = header p"
  by (induction ws arbitrary: p) auto

lemma delivered_words:
  assumes "length ws < 2 ^ 29"
  shows "delivered (fold (\<lambda>v p. add_u32 p v) ws (create_packet h n)) (word_packet h ws)"
  using delivered_holds [OF words_holds [OF assms, of h n]] assms by (simp add: word_packet_def)

text \<open>The pcb messages of kernel and CPU, and the process of the console.\<close>

lemma delivered_pcb:
  assumes "wf_pcb p" and "length (pcb_bytes p) < 2 ^ 32"
  shows "delivered (pcb_packet p) (received (cpu_code PCB_TO_CPU) (pcb_bytes p))"
    and "delivered (pcb_message h p) (pcb_call h p)"
proof -
  have "holds (stream_add_pcb (create_stream n) p) (pcb_bytes p)" for n
    using pcb_put_holds [OF assms(1) holds_create, of n] assms(2) by simp
  then have "holds (payload (pcb_packet p)) (pcb_bytes p)" "holds (payload (pcb_message h p)) (pcb_bytes p)"
    by (simp_all add: pcb_packet_def pcb_message_def create_packet_def Let_def)
  from this [THEN delivered_holds, OF assms(2)]
  show "delivered (pcb_packet p) (received (cpu_code PCB_TO_CPU) (pcb_bytes p))"
    and "delivered (pcb_message h p) (pcb_call h p)"
    by (simp_all add: pcb_packet_def pcb_message_def pcb_call_def create_packet_def Let_def)
qed

lemma delivered_process:
  assumes "wf_process p" and "length (process_bytes p) < 2 ^ 32"
  shows "delivered (console_packet p) (process_packet p)"
  using delivered_holds [OF console_packet_holds(1) [OF assms] assms(2)] console_packet_holds(2) [OF assms]
  by (simp add: process_packet_def)

lemma delivered_header:
  assumes "delivered p q"
  shows "header q = header p"
proof -
  define rs where "rs = replicate (unat (offset (payload p)) + 5) (1 :: int)"
  have rs: "list_all (\<lambda>i. 0 < i) rs" "unat (offset (payload p)) + 5 \<le> length rs"
    by (simp_all add: rs_def list_all_iff)
  then obtain out rs' where s: "socket_send_packet rs p = Inr (Some (out, rs'))"
    and r: "\<And>es ws junk. wire es = out @ ws \<Longrightarrow> \<exists>es'. socket_receive_packet junk es = Some (Some q, es')"
    using assms unfolding delivered_def by meson
  obtain r1 where "socket_send rs [header p] = Some ([header p], r1)"
    using socket_send_exact [of rs "[header p]"] rs by auto
  then obtain o2 where out: "out = header p # o2"
    using s by (auto simp: socket_send_packet_def bindE_eq_Inr socket_send_header_def bind_eq_Some_conv)
  obtain e1 where "socket_receive [Data out] 1 = Some (True, [header p], e1)"
    using socket_receive_exact [of "[Data out]" "[header p]" o2] out by auto
  moreover obtain es' where "socket_receive_packet 0 [Data out] = Some (Some q, es')"
    using r [of "[Data out]" "[]" 0] by auto
  ultimately show ?thesis
    by (auto simp: socket_receive_packet_def socket_receive_header_def Let_def create_packet_def
        bind_eq_Some_conv split: if_splits)
qed

section \<open>A burst, from the pcb that arrives to the one that is sent\<close>

lemma burst_end_instructions: "burst_end i p = Some (h, q) \<Longrightarrow> instructions q = instructions p"
  by (auto simp: burst_end_def split: if_splits)

lemma same_program:
  "instructions q = instructions p \<Longrightarrow> wf_pcb q = wf_pcb p \<and> length (pcb_bytes q) = length (pcb_bytes p)"
  by (simp add: wf_pcb_def length_pcb_bytes)

lemma pcb_arrives:
  assumes "wf_pcb p" and "length (pcb_bytes p) < 2 ^ 32"
  shows "call_handler cpu_handlers (received (cpu_code PCB_TO_CPU) (pcb_bytes p)) c
    = Inr (True, c\<lparr>pcb := p, pcb_loaded := pcb_loaded c + 1\<rparr>)"
proof -
  obtain b where "stream_take_pcb (payload (received (cpu_code PCB_TO_CPU) (pcb_bytes p))) = Inr (p, b)"
    using received_pcb [OF assms] by (auto simp: take_pcb_def bindE_eq_Inr)
  then show ?thesis by (simp add: call_handler_def cpu_handlers_def receive_pcb_def)
qed

lemma burst_run:
  assumes "kernel_client_socket c \<noteq> -1" and "\<not> tlb_held (tlb c)" and "\<not> new_interruption c"
    and "program_counter p = of_nat k" and "k + n < length (instructions p)" and "k + n < 2 ^ 32"
    and "\<forall>i < n. is_noop (instructions p ! (k + i))"
    and "burst_end (instructions p ! (k + n)) (p\<lparr>program_counter := of_nat (k + n) + 1\<rparr>) = Some (h, q)"
  shows "\<exists>c2. exec_run (2 * n + 2) (c\<lparr>pcb := p, pcb_loaded := 1\<rparr>, AwaitPcb) = Some (c2, AwaitIdle False)
    \<and> to_kernel c2 = to_kernel c @ [pcb_message h q] \<and> cpu_bussy c2 = cpu_bussy c + 1"
proof -
  let ?c1 = "c\<lparr>pcb := p, pcb_loaded := 1\<rparr>"
  let ?c2 = "c\<lparr>pcb := p, pcb_loaded := 0, cpu_bussy := cpu_bussy c + 1\<rparr>"
  have st: "exec_step (?c1, AwaitPcb) = Inr (Some (?c2, LoopHead))" by (simp add: exec_step_def)
  have nr: "noop_run k n ?c2"
    using assms(1-7) by (simp add: noop_run_def running_def at_counter_def)
  obtain c2 where c2: "exec_run (2 * n + 1) (?c2, LoopHead) = Some (c2, AwaitIdle False)"
      "to_kernel c2 = to_kernel c @ [pcb_message h q]" "cpu_bussy c2 = cpu_bussy c + 1"
    using burst_then_message [OF nr, of h q] assms(5,8) by auto
  have "exec_run (2 * n + 2) (?c1, AwaitPcb) = Some (c2, AwaitIdle False)"
    using exec_run_add [of 1 "2 * n + 1" "(?c1, AwaitPcb)"] st c2(1) by simp
  with c2 show ?thesis by blast
qed

end
