(* ===== verification/System.thy ===== *)
theory System
  imports Delivery Memory_Props
begin

text \<open>
  The four programs at work: the kernel with its threads, memory, the CPU, and the sockets between them.
  What a program has written to a socket is the list its state records; a counter tells how far the
  program at the other end has read. What the CPU writes to memory has no reader: memory reads the socket of
  its first client, the CPU, only until it has answered the handshake, and then serves new clients.
\<close>

record system =
  ker :: kernel
  mem :: mem_state
  proc :: "cpu_state \<times> cpu_pc"
  requests_read :: nat
  answers_read :: nat
  dispatches_read :: nat
  calls_read :: nat
  interrupts_read :: nat

text \<open>What memory has sent on socket \<open>ks\<close>.\<close>

definition answers :: "int \<Rightarrow> mem_state \<Rightarrow> t_packet list" where
  "answers ks m = map snd (filter (\<lambda>x. fst x = ks) (sent m))"

text \<open>The packet that comes next out of a socket into which \<open>out\<close> was written.\<close>

definition next_packet :: "t_packet list \<Rightarrow> nat \<Rightarrow> t_packet \<Rightarrow> bool" where
  "next_packet out k q \<longleftrightarrow> k < length out \<and> delivered (out ! k) q"

text \<open>\<open>ks\<close> is memory's socket to the kernel.\<close>

inductive sys_step :: "sorter \<Rightarrow> addresses \<Rightarrow> int \<Rightarrow> system \<Rightarrow> system \<Rightarrow> bool" for srt addr ks where
  to_ready: "to_ready_step srt (ker S) = Inr (Some k) \<Longrightarrow> sys_step srt addr ks S (S\<lparr>ker := k\<rparr>)"
| to_exec: "to_exec_step now (ker S) = Inr (Some k) \<Longrightarrow> sys_step srt addr ks S (S\<lparr>ker := k\<rparr>)"
| io: "io_step srt now (ker S) = Inr (Some k) \<Longrightarrow> sys_step srt addr ks S (S\<lparr>ker := k\<rparr>)"
| exit: "exit_step (ker S) = Inr (Some k) \<Longrightarrow> sys_step srt addr ks S (S\<lparr>ker := k\<rparr>)"
| console: "delivered (console_packet p) q \<Longrightarrow>
    call_handler (kernel_handlers junk now sock) q (ker S) = Inr (b, k) \<Longrightarrow>
    sys_step srt addr ks S (S\<lparr>ker := k\<rparr>)"
| request: "next_packet (memory_out (ker S)) (requests_read S) q \<Longrightarrow>
    call_handler (memory_handlers addr ks) q (mem S) = Inr (b, m) \<Longrightarrow>
    sys_step srt addr ks S (S\<lparr>mem := m, requests_read := requests_read S + 1\<rparr>)"
| answer: "next_packet (answers ks (mem S)) (answers_read S) q \<Longrightarrow>
    call_handler (kernel_handlers junk now sock) q (ker S) = Inr (b, k) \<Longrightarrow>
    sys_step srt addr ks S (S\<lparr>ker := k, answers_read := answers_read S + 1\<rparr>)"
| dispatch: "next_packet (cpu_out (ker S)) (dispatches_read S) q \<Longrightarrow>
    call_handler cpu_handlers q (fst (proc S)) = Inr (b, c) \<Longrightarrow>
    sys_step srt addr ks S (S\<lparr>proc := (c, snd (proc S)), dispatches_read := dispatches_read S + 1\<rparr>)"
| exec: "exec_step (proc S) = Inr (Some c) \<Longrightarrow> sys_step srt addr ks S (S\<lparr>proc := c\<rparr>)"
| call: "next_packet (to_kernel (fst (proc S))) (calls_read S) q \<Longrightarrow>
    call_handler (kernel_handlers junk now sock) q (ker S) = Inr (b, k) \<Longrightarrow>
    sys_step srt addr ks S (S\<lparr>ker := k, calls_read := calls_read S + 1\<rparr>)"
| interrupt: "interrupts_read S < length (interrupts_out (ker S)) \<Longrightarrow>
    \<not> interruption_locked (snd (proc S)) \<Longrightarrow>
    header_handler [interrupts_out (ker S) ! interrupts_read S] (fst (proc S)) = Inr c \<Longrightarrow>
    sys_step srt addr ks S (S\<lparr>proc := (c, snd (proc S)), interrupts_read := interrupts_read S + 1\<rparr>)"

text \<open>
  The start: memory has answered the handshake of the CPU, its first client on socket \<open>cs\<close>, the CPU has
  taken the answer and the kernel's connection \<open>ds\<close>, and the kernel's main has connected to the other
  two programs and started the threads.
\<close>

inductive sys_start :: "int \<Rightarrow> nat \<Rightarrow> t_memory_config \<Rightarrow> system \<Rightarrow> bool" for cs level cfg where
  "memory_init cfg = Inr m0 \<Longrightarrow>
   cpu_handshake_listener cs hs m0 = Some m \<Longrightarrow>
   sent m = [(cs, p)] \<Longrightarrow> delivered p q \<Longrightarrow>
   cpu_main ccfg junk_pcb junk ms (Some q) = Inr (Inr c) \<Longrightarrow>
   level = nat (kc_multiprogrammingLevel kcfg) \<Longrightarrow>
   dsock \<noteq> -1 \<Longrightarrow> isock \<noteq> -1 \<Longrightarrow> msock \<noteq> -1 \<Longrightarrow> lsock \<noteq> -1 \<Longrightarrow>
   sys_start cs level cfg
     \<lparr>ker = kernel_main kcfg dsock isock msock lsock, mem = m, proc = (dispatch_connected ds c, AwaitPcb),
      requests_read = 0, answers_read = 0, dispatches_read = 0, calls_read = 0, interrupts_read = 0\<rparr>"

inductive sys_reachable :: "sorter \<Rightarrow> addresses \<Rightarrow> int \<Rightarrow> int \<Rightarrow> nat \<Rightarrow> t_memory_config \<Rightarrow> system \<Rightarrow> bool"
  for srt addr ks cs level cfg where
  start: "sys_start cs level cfg S \<Longrightarrow> sys_reachable srt addr ks cs level cfg S"
| step: "sys_reachable srt addr ks cs level cfg S \<Longrightarrow> sys_step srt addr ks S S' \<Longrightarrow>
    sys_reachable srt addr ks cs level cfg S'"

lemma kernel_main_init: "kernel_main kcfg a b c d = (kernel_init (kc_schedulerAlgorithm kcfg)
    (kc_initialEstimate kcfg) (kc_alpha kcfg) (nat (kc_multiprogrammingLevel kcfg)) (kc_maxBlockedTime kcfg))
      \<lparr>cpu_dispatch_socket := a, memory_socket := c\<rparr>"
  by (simp add: kernel_main_def terminate_kernel_def SIGINT_def Let_def)

text \<open>Each program in the system is in a state it can reach alone.\<close>

lemma handshake_reachable:
  "mem_reachable cfg m \<Longrightarrow> cpu_handshake_listener cs hs m = Some m' \<Longrightarrow> mem_reachable cfg m'"
proof (induction hs arbitrary: m)
  case (Cons h hs)
  then show ?case
    using mem_reachable.handshake [OF Cons.prems(1), of cs]
    by (auto simp: cpu_handshake_def Let_def split: if_splits)
qed simp

lemma sys_start_parts:
  "sys_start cs level cfg S \<Longrightarrow> kernel_reachable srt level (ker S) \<and> mem_reachable cfg (mem S)"
  by (induction rule: sys_start.induct)
    (auto simp: kernel_main_init intro: kernel_reachable.start handshake_reachable [OF mem_reachable.start])

lemma sys_reachable_parts:
  "sys_reachable srt addr ks cs level cfg S \<Longrightarrow> kernel_reachable srt level (ker S) \<and> mem_reachable cfg (mem S)"
proof (induction rule: sys_reachable.induct)
  case (start S)
  then show ?case by (rule sys_start_parts)
next
  case (step S S')
  then have r: "kernel_reachable srt level (ker S)" "mem_reachable cfg (mem S)" by auto
  from step.hyps(2) show ?case
    by (induction rule: sys_step.cases)
     (auto intro: kernel_reachable.step [OF r(1)] kernel_step.intros mem_reachable.request [OF r(2)] r)
qed

end
