(* ===== verification/Kernel_Order.thy ===== *)
theory Kernel_Order
  imports Kernel_Props
begin

text \<open>
  First in, first out: with the FIFO scheduler \<open>ready_q\<close> is only ever appended to by the threads that make
  a process ready and popped by the dispatcher, nobody writes to a pcb while it is there, so the CPU
  gets the processes in the order in which they became ready, as they were then.
\<close>

section \<open>The scheduler never changes, and FIFO sends no interrupt\<close>

lemma fifo_step:
  assumes "kernel_step srt s s'" and "kernel_inv s" and "sorts srt"
  shows "sortingAlgorithm s' = sortingAlgorithm s
    \<and> (sortingAlgorithm s = FIFO \<longrightarrow> interrupts_out s' = interrupts_out s)"
  using assms(1)
proof cases
  case to_ready
  from assms(2,3) to_ready show ?thesis
  proof (cases rule: to_ready_step_E)
    case (interrupt a b)
    with to_ready show ?thesis
      by (auto simp: to_ready_step_def put_to_ready_def put_to_ready_unlock_def Let_def
          dest!: arg_cong [where f = interrupts_out])
  qed (auto simp: ask_tables_def send_memory_request_def)
next
  case (to_exec now)
  from assms(2) to_exec show ?thesis by (cases rule: to_exec_step_E) auto
next
  case (io now)
  from assms(2,3) io show ?thesis
  proof (cases rule: io_step_E)
    case (interrupt a)
    with io show ?thesis by (auto simp: io_step_def put_to_ready_def put_to_ready_unlock_def Let_def
          dest!: arg_cong [where f = interrupts_out])
  qed (auto simp: io_blocked_def io_suspended_def send_memory_request_def store_pcb_def Let_def)
next
  case exit
  from assms(2) exit show ?thesis
    by (cases rule: exit_step_E) (auto simp: ask_exit_def send_memory_request_def)
next
  case (packet junk now sock p serve)
  then show ?thesis
  proof (cases rule: kernel_packet_E)
    case tables
    from assms(2) tables(2) show ?thesis by (cases rule: table_index_success_E) auto
  next
    case exited
    show ?thesis by (rule exit_process_success_E [OF assms(2) exited(2)]) simp
  qed (auto simp: suspension_success_def
      elim: receive_process_E io_op_E exit_op_E handle_interruption_E)
qed

lemma fifo_put:
  "sortingAlgorithm s = FIFO \<Longrightarrow> put_to_ready srt me a s =
     Inr (True, s\<lparr>ready_q := pQueue_put (ready_q s) a, execution_mutex := None, ready_for_exec := ready_for_exec s + 1\<rparr>)"
  by (simp add: put_to_ready_def put_to_ready_unlock_def Let_def)

lemma fifo_to_ready_put:
  "to_ready_step srt s = Inr (Some s') \<Longrightarrow> to_ready_at s = TR_Put a b \<Longrightarrow> execution_mutex s = None \<Longrightarrow>
     sortingAlgorithm s = FIFO \<Longrightarrow>
     s' = s\<lparr>ready_q := pQueue_put (ready_q s) a, execution_mutex := None, ready_for_exec := ready_for_exec s + 1,
       to_ready_at := if b then TR_Log a else TR_WaitAny\<rparr>"
  by (simp add: to_ready_step_def fifo_put)

lemma fifo_io_put:
  "io_step srt now s = Inr (Some s') \<Longrightarrow> io_at s = IO_Put a \<Longrightarrow> execution_mutex s = None \<Longrightarrow>
     sortingAlgorithm s = FIFO \<Longrightarrow>
     s' = s\<lparr>ready_q := pQueue_put (ready_q s) a, execution_mutex := None, ready_for_exec := ready_for_exec s + 1,
       io_at := IO_Wait\<rparr>"
  by (simp add: io_step_def fifo_put)

text \<open>With FIFO no thread ever waits for an interrupt.\<close>

definition fifo_ok :: "kernel \<Rightarrow> bool" where
  "fifo_ok s \<longleftrightarrow> sortingAlgorithm s = FIFO \<longrightarrow> \<not> tr_interrupted (to_ready_at s) \<and> \<not> io_interrupted (io_at s)"

lemma packet_threads:
  assumes "kernel_inv s" and "call_handler (kernel_handlers junk now sock) p s = Inr (serve, s')"
  shows "to_ready_at s' = to_ready_at s \<and> io_at s' = io_at s"
  using assms(2)
proof (cases rule: kernel_packet_E)
  case tables
  from assms(1) tables(2) show ?thesis by (cases rule: table_index_success_E) auto
next
  case exited
  show ?thesis by (rule exit_process_success_E [OF assms(1) exited(2)]) simp
qed (auto simp: suspension_success_def elim: receive_process_E io_op_E exit_op_E handle_interruption_E)

lemma fifo_ok_step:
  assumes st: "kernel_step srt s s'" and inv: "kernel_inv s" and srt: "sorts srt" and ok: "fifo_ok s"
  shows "fifo_ok s'"
proof (cases "sortingAlgorithm s = FIFO")
  case False
  then show ?thesis using fifo_step [OF st inv srt] by (simp add: fifo_ok_def)
next
  case fifo: True
  with ok have t: "\<not> tr_interrupted (to_ready_at s)" "\<not> io_interrupted (io_at s)" by (simp_all add: fifo_ok_def)
  have "\<not> tr_interrupted (to_ready_at s') \<and> \<not> io_interrupted (io_at s')"
    using st
  proof cases
    case to_ready
    from inv srt to_ready show ?thesis
    proof (cases rule: to_ready_step_E)
      case (interrupt a b)
      show ?thesis using t by (simp add: fifo_to_ready_put [OF to_ready interrupt(1,2) fifo])
    qed (use t in \<open>auto simp: ask_tables_def send_memory_request_def\<close>)
  next
    case (to_exec now)
    from inv to_exec show ?thesis by (cases rule: to_exec_step_E) (use t in auto)
  next
    case (io now)
    from inv srt io show ?thesis
    proof (cases rule: io_step_E)
      case (interrupt a)
      show ?thesis using t by (simp add: fifo_io_put [OF io interrupt(1,2) fifo])
    qed (use t in \<open>auto simp: io_blocked_def io_suspended_def send_memory_request_def store_pcb_def Let_def\<close>)
  next
    case exit
    from inv exit show ?thesis
      by (cases rule: exit_step_E) (use t in \<open>auto simp: ask_exit_def send_memory_request_def\<close>)
  next
    case (packet junk now sock p serve)
    then show ?thesis using packet_threads [OF inv] t by simp
  qed
  then show ?thesis by (simp add: fifo_ok_def)
qed

lemma fifo_reachable: "kernel_reachable srt level s \<Longrightarrow> sorts srt \<Longrightarrow> fifo_ok s"
proof (induction rule: kernel_reachable.induct)
  case (start alg est a maxb)
  then show ?case by (simp add: fifo_ok_def kernel_init_def)
next
  case (step s s')
  then show ?case using fifo_ok_step kernel_reachable_inv by blast
qed

section \<open>The ready queue\<close>

text \<open>A pcb in \<open>ready_q\<close> is nowhere else, and nobody changes it.\<close>

lemma ready_alone:
  assumes "kernel_inv s" and "a \<in> set (lib_queue (ready_q s))"
  shows "a \<notin> set (lib_queue (blocked_q s))" "a \<notin> set (lib_queue (memory_exit_q s))"
    "a \<notin> set (tr_held (to_ready_at s))" "a \<noteq> next_addr s"
proof -
  let ?rest = "mset (lib_queue (new_q s)) + mset (lib_queue (blocked_q s)) + mset (lib_queue (suspended_ready_q s))
     + mset (lib_queue (suspended_block_q s)) + mset (lib_queue (exit_q s)) + mset (tr_held (to_ready_at s))
     + mset (io_held (io_at s)) + mset (ex_held (exit_at s)) + mset (lib_queue (memory_exit_q s))"
  have le: "count (owned s + mset (lib_queue (memory_exit_q s))) a \<le> 1"
    using assms(1) by (simp add: kernel_inv_def own_ok_def placed_def)
  have "owned s + mset (lib_queue (memory_exit_q s)) = mset (lib_queue (ready_q s)) + ?rest"
    by (simp add: owned_def ac_simps)
  then have "count (mset (lib_queue (ready_q s))) a + count ?rest a \<le> 1" using le by (metis count_union)
  moreover have "0 < count (mset (lib_queue (ready_q s))) a" using assms(2) by simp
  ultimately have "count ?rest a = 0" by linarith
  then have "a \<notin># ?rest" by (rule count_eq_zero_iff [THEN iffD1])
  then show "a \<notin> set (lib_queue (blocked_q s))" "a \<notin> set (lib_queue (memory_exit_q s))"
      "a \<notin> set (tr_held (to_ready_at s))"
    by auto
  have "a \<in># owned s" using assms(2) by (simp add: owned_def)
  then show "a \<noteq> next_addr s" using assms(1) by (auto simp: kernel_inv_def own_ok_def placed_def)
qed

lemma ready_distinct:
  assumes "kernel_inv s"
  shows "distinct (lib_queue (ready_q s))"
proof -
  have "count (mset (lib_queue (ready_q s))) a \<le> 1" for a
  proof -
    have "count (owned s + mset (lib_queue (memory_exit_q s))) a \<le> 1"
      using assms by (simp add: kernel_inv_def own_ok_def placed_def)
    moreover have "count (mset (lib_queue (ready_q s))) a \<le> count (owned s + mset (lib_queue (memory_exit_q s))) a"
      by (simp add: owned_def)
    ultimately show ?thesis by linarith
  qed
  then show ?thesis by (metis distinct_count_atmost_1 count_mset le_SucE le_zero_eq One_nat_def count_greater_zero_iff set_mset_mset less_one not_gr_zero)
qed

definition ready_kept :: "kernel \<Rightarrow> kernel \<Rightarrow> bool" where
  "ready_kept s s' \<longleftrightarrow> (\<forall>a \<in> set (lib_queue (ready_q s)). heap s' a = heap s a)"

definition ready_grows :: "kernel \<Rightarrow> kernel \<Rightarrow> bool" where
  "ready_grows s s' \<longleftrightarrow> ready_kept s s' \<and> cpu_out s' = cpu_out s
     \<and> (\<exists>new. lib_queue (ready_q s') = lib_queue (ready_q s) @ new)"

definition ready_dispatches :: "kernel \<Rightarrow> kernel \<Rightarrow> bool" where
  "ready_dispatches s s' \<longleftrightarrow> (\<exists>a p. lib_queue (ready_q s) = a # lib_queue (ready_q s') \<and> heap s a = Some p
     \<and> cpu_out s' = cpu_out s @ [pcb_packet p] \<and> (\<forall>b \<in> set (lib_queue (ready_q s')). heap s' b = heap s b))"

lemma ready_step:
  assumes st: "kernel_step srt s s'" and inv: "kernel_inv s" and srt: "sorts srt" and ok: "fifo_ok s"
    and fifo: "sortingAlgorithm s = FIFO"
  shows "ready_grows s s' \<or> ready_dispatches s s'"
proof -
  have t: "\<not> tr_interrupted (to_ready_at s)" "\<not> io_interrupted (io_at s)"
    using ok fifo by (simp_all add: fifo_ok_def)
  note alone = ready_alone [OF inv]
  note defs = ready_grows_def ready_kept_def
  from st show ?thesis
  proof cases
    case to_ready
    from inv srt to_ready have "ready_grows s s'"
    proof (cases rule: to_ready_step_E)
      case (put a b q)
      show ?thesis by (simp add: fifo_to_ready_put [OF to_ready put(1,2) fifo] defs)
    qed (use t in \<open>auto simp: ask_tables_def send_memory_request_def defs\<close>)
    then show ?thesis ..
  next
    case (to_exec now)
    from inv to_exec show ?thesis
    proof (cases rule: to_exec_step_E)
      case (dispatch a xs pcb)
      with ready_distinct [OF inv] have "ready_dispatches s s'" by (auto simp: ready_dispatches_def)
      then show ?thesis ..
    qed (auto simp: defs)
  next
    case (io now)
    from inv srt io have "ready_grows s s'"
    proof (cases rule: io_step_E)
      case (put a q)
      show ?thesis by (simp add: fifo_io_put [OF io put(1,2) fifo] defs)
    next
      case (blocked a xs pcb)
      then have "a \<notin> set (lib_queue (ready_q s))" using alone(1) by auto
      with blocked show ?thesis
        by (auto simp: io_blocked_def send_memory_request_def store_pcb_def Let_def defs)
    qed (use t in \<open>auto simp: io_suspended_def defs\<close>)
    then show ?thesis ..
  next
    case exit
    from inv exit have "ready_grows s s'"
      by (cases rule: exit_step_E) (auto simp: ask_exit_def send_memory_request_def defs)
    then show ?thesis ..
  next
    case (packet junk now sock p serve)
    from packet(1) have "ready_grows s s'"
    proof (cases rule: kernel_packet_E)
      case tables
      from inv tables(2) show ?thesis
        by (cases rule: table_index_success_E) (use alone(3) in \<open>auto simp: defs\<close>)
    next
      case exited
      show ?thesis
        by (rule exit_process_success_E [OF inv exited(2)]) (use alone(2) in \<open>fastforce simp: defs\<close>)
    next
      case process
      from process(2) show ?thesis by (rule receive_process_E) (use alone(4) in \<open>auto simp: defs\<close>)
    next
      case io
      from io(2) show ?thesis by (rule io_op_E) (use alone(4) in \<open>auto simp: defs\<close>)
    next
      case exit
      from exit(2) show ?thesis by (rule exit_op_E) (use alone(4) in \<open>auto simp: defs\<close>)
    next
      case interruption
      from interruption(2) show ?thesis by (rule handle_interruption_E) (use alone(4) in \<open>auto simp: defs\<close>)
    qed (auto simp: suspension_success_def defs)
    then show ?thesis ..
  qed
qed

text \<open>The trace: \<open>added\<close> came into the queue and \<open>ps\<close> went to the CPU, from its front.\<close>

definition fifo_trace :: "kernel \<Rightarrow> kernel \<Rightarrow> t_pcb list \<Rightarrow> bool" where
  "fifo_trace s s' ps \<longleftrightarrow> cpu_out s' = cpu_out s @ map pcb_packet ps
     \<and> (\<exists>added gone. lib_queue (ready_q s) @ added = gone @ lib_queue (ready_q s') \<and> length gone = length ps
         \<and> (\<forall>i < length ps. i < length (lib_queue (ready_q s)) \<longrightarrow> heap s (gone ! i) = Some (ps ! i)))
     \<and> (\<forall>i. length ps \<le> i \<longrightarrow> i < length (lib_queue (ready_q s)) \<longrightarrow>
         heap s' (lib_queue (ready_q s) ! i) = heap s (lib_queue (ready_q s) ! i))"

lemma fifo_trace_refl: "fifo_trace s s []"
  by (simp add: fifo_trace_def)

lemma fifo_trace_grows:
  assumes "fifo_trace s s' ps" and "ready_grows s' s''"
  shows "fifo_trace s s'' ps"
proof -
  obtain added gone where t: "lib_queue (ready_q s) @ added = gone @ lib_queue (ready_q s')" "length gone = length ps"
      "\<forall>i < length ps. i < length (lib_queue (ready_q s)) \<longrightarrow> heap s (gone ! i) = Some (ps ! i)"
    using assms(1) by (auto simp: fifo_trace_def)
  obtain new where new: "lib_queue (ready_q s'') = lib_queue (ready_q s') @ new" "cpu_out s'' = cpu_out s'"
      "\<forall>a \<in> set (lib_queue (ready_q s')). heap s'' a = heap s' a"
    using assms(2) by (auto simp: ready_grows_def ready_kept_def)
  have still: "lib_queue (ready_q s) ! i \<in> set (lib_queue (ready_q s'))"
    if "length ps \<le> i" "i < length (lib_queue (ready_q s))" for i
  proof -
    have "lib_queue (ready_q s) ! i = (gone @ lib_queue (ready_q s')) ! i" using t(1) that(2) by (metis nth_append)
    also have "\<dots> = lib_queue (ready_q s') ! (i - length ps)" using that(1) t(2) by (simp add: nth_append)
    finally show ?thesis using that t(1,2) by (metis add_diff_cancel_left' length_append nth_mem
          diff_less_mono le_trans less_or_eq_imp_le trans_less_add1)
  qed
  have "lib_queue (ready_q s) @ (added @ new) = gone @ lib_queue (ready_q s'')" using t(1) new(1) by simp
  with t assms(1) new(2,3) still show ?thesis
    unfolding fifo_trace_def by (metis (no_types, lifting))
qed

lemma fifo_trace_dispatches:
  assumes "fifo_trace s s' ps" and "ready_dispatches s' s''"
  shows "\<exists>p. fifo_trace s s'' (ps @ [p])"
proof -
  obtain added gone where t: "lib_queue (ready_q s) @ added = gone @ lib_queue (ready_q s')" "length gone = length ps"
      "\<forall>i < length ps. i < length (lib_queue (ready_q s)) \<longrightarrow> heap s (gone ! i) = Some (ps ! i)"
    using assms(1) by (auto simp: fifo_trace_def)
  obtain a p where d: "lib_queue (ready_q s') = a # lib_queue (ready_q s'')" "heap s' a = Some p"
      "cpu_out s'' = cpu_out s' @ [pcb_packet p]" "\<forall>b \<in> set (lib_queue (ready_q s'')). heap s'' b = heap s' b"
    using assms(2) by (auto simp: ready_dispatches_def)
  have q: "lib_queue (ready_q s) @ added = (gone @ [a]) @ lib_queue (ready_q s'')" using t(1) d(1) by simp
  have nth: "lib_queue (ready_q s) ! i = ((gone @ [a]) @ lib_queue (ready_q s'')) ! i"
    if "i < length (lib_queue (ready_q s))" for i
    using q that by (metis nth_append)
  have same: "heap s' (lib_queue (ready_q s) ! i) = heap s (lib_queue (ready_q s) ! i)"
    if "length ps \<le> i" "i < length (lib_queue (ready_q s))" for i
    using assms(1) that by (simp add: fifo_trace_def)
  have "heap s ((gone @ [a]) ! i) = Some ((ps @ [p]) ! i)"
    if "i < length (ps @ [p])" "i < length (lib_queue (ready_q s))" for i
    using that t(2,3) d(2) nth [OF that(2)] same [of i] by (auto simp: nth_append less_Suc_eq)
  moreover have "heap s'' (lib_queue (ready_q s) ! i) = heap s (lib_queue (ready_q s) ! i)"
    if i: "length (ps @ [p]) \<le> i" "i < length (lib_queue (ready_q s))" for i
  proof -
    have "lib_queue (ready_q s) ! i = lib_queue (ready_q s'') ! (i - Suc (length ps))"
      using nth [OF i(2)] i(1) t(2) by (simp add: nth_append)
    moreover have "i - Suc (length ps) < length (lib_queue (ready_q s''))"
      using arg_cong [OF q, of length] i t(2) by simp
    ultimately show ?thesis using d(4) same [of i] i by (metis nth_mem Suc_leD length_append_singleton)
  qed
  ultimately have "fifo_trace s s'' (ps @ [p])"
    unfolding fifo_trace_def using assms(1) d(3) q t(2)
    by (intro conjI exI [of _ added] exI [of _ "gone @ [a]"]) (auto simp: fifo_trace_def)
  then show ?thesis ..
qed

lemma fifo_order:
  assumes "sorts srt" and "kernel_reachable srt level s" and "sortingAlgorithm s = FIFO"
    and "(kernel_step srt)\<^sup>*\<^sup>* s s'"
  shows "\<exists>ps. fifo_trace s s' ps"
proof -
  have "(\<exists>ps. fifo_trace s s' ps) \<and> kernel_reachable srt level s' \<and> sortingAlgorithm s' = FIFO"
    using assms(4)
  proof (induction rule: rtranclp_induct)
    case base
    then show ?case using assms(2,3) fifo_trace_refl by blast
  next
    case (step s1 s2)
    then obtain ps where ps: "fifo_trace s s1 ps" and r: "kernel_reachable srt level s1" "sortingAlgorithm s1 = FIFO"
      by blast
    have inv: "kernel_inv s1" by (rule kernel_reachable_inv [OF r(1) assms(1)])
    have "ready_grows s1 s2 \<or> ready_dispatches s1 s2"
      by (rule ready_step [OF step.hyps(2) inv assms(1) fifo_reachable [OF r(1) assms(1)] r(2)])
    then have "\<exists>ps. fifo_trace s s2 ps" using ps fifo_trace_grows fifo_trace_dispatches by blast
    moreover have "sortingAlgorithm s2 = FIFO" using fifo_step [OF step.hyps(2) inv assms(1)] r(2) by simp
    ultimately show ?case using kernel_reachable.step [OF r(1) step.hyps(2)] by blast
  qed
  then show ?thesis by blast
qed

text \<open>
  C6. With FIFO, in every interleaving, the processes sent to the CPU are those taken from the
  front of ready_q, to which everything that becomes ready was appended: those that wait now are
  sent in this order, and with the pcb they have now, which nobody changes meanwhile.
\<close>

theorem fifo_dispatches_in_order:
  assumes "sorts srt" and "kernel_reachable srt level s" and "sortingAlgorithm s = FIFO"
    and "(kernel_step srt)\<^sup>*\<^sup>* s s'"
  shows "\<exists>ps added gone. cpu_out s' = cpu_out s @ map pcb_packet ps
    \<and> lib_queue (ready_q s) @ added = gone @ lib_queue (ready_q s') \<and> length gone = length ps
    \<and> (\<forall>i < length ps. i < length (lib_queue (ready_q s)) \<longrightarrow> heap s (gone ! i) = Some (ps ! i))"
  using fifo_order [OF assms] unfolding fifo_trace_def by blast

lemma run_kernel_steps: "run srt es c = Some c' \<Longrightarrow> (kernel_step srt)\<^sup>*\<^sup>* (fst c) (fst c')"
proof (induction es arbitrary: c)
  case (Cons e es)
  then obtain c1 where "do_event srt e c = Some c1" "run srt es c1 = Some c'"
    by (cases "do_event srt e c") auto
  with Cons.IH [of c1] show ?case
    using do_event_step conf_step_kernel_step by (metis converse_rtranclp_into_rtranclp)
qed simp

theorem fifo_dispatches_in_order_witness:
  "\<exists>s s' p. kernel_reachable insertion_sort 2 s \<and> (kernel_step insertion_sort)\<^sup>*\<^sup>* s s' \<and> lib_queue (ready_q s) = [0, 1] \<and> lib_queue (ready_q s') = [1]
    \<and> heap s 0 = Some p \<and> cpu_out s = [] \<and> cpu_out s' = [pcb_packet p]"
proof -
  have "\<exists>s s'. run insertion_sort (admit 1 @ [Run_to_ready] @ admit 2) (kernel_init ''FIFO'' 10 0 2 100, 0, 0) = Some (s, 0, 0)
      \<and> run insertion_sort dispatch_run (s, 0, 0) = Some (s', 1, 0) \<and> sortingAlgorithm s = FIFO
      \<and> lib_queue (ready_q s) = [0, 1] \<and> lib_queue (ready_q s') = [1] \<and> cpu_out s = [] \<and> length (cpu_out s') = 1"
    unfolding admit_def dispatch_run_def kernel_init_def choose_scheduler_def by (simp add: run_simps)
  then obtain s s' where s: "conf_reachable insertion_sort 2 (s, 0, 0)" "(kernel_step insertion_sort)\<^sup>*\<^sup>* s s'"
      "sortingAlgorithm s = FIFO" "lib_queue (ready_q s) = [0, 1]" "lib_queue (ready_q s') = [1]" "cpu_out s = []"
      "length (cpu_out s') = 1"
    using run_reachable [OF conf_reachable_init] run_kernel_steps by (metis fst_conv)
  have r: "kernel_reachable insertion_sort 2 s" using conf_kernel_reachable [OF s(1)] by simp
  obtain ps added gone where p: "cpu_out s' = map pcb_packet ps" "[0, 1] @ added = gone @ [1]" "length gone = length ps"
      "\<forall>i < length ps. i < 2 \<longrightarrow> heap s (gone ! i) = Some (ps ! i)"
    using fifo_dispatches_in_order [OF sorts_insertion_sort r s(3,2)] s(4-6) by auto
  then obtain p where "ps = [p]" using s(7) by (auto simp: length_Suc_conv)
  moreover from this p(2,3) obtain g where "gone = [g]" "g = 0" by (auto simp: length_Suc_conv)
  ultimately have "cpu_out s' = [pcb_packet p]" "heap s 0 = Some p" using p(1,4) by simp_all
  with r s(2,4-6) show ?thesis by blast
qed

end
