(* ===== verification/System_Inv.thy ===== *)
theory System_Inv
  imports System Kernel_Order
begin

text \<open>
  What the programs do to each other's counts in a system with the FIFO scheduler: the CPU, which never
  gets an interrupt, sends back no more pcbs than it was given; the kernel gives it one at a time; memory
  confirms no more exits than it was asked to. Together they make every state of such a system one
  of the kernel runs that \<open>Kernel_Degree\<close> speaks about.
\<close>

section \<open>The CPU without interrupts\<close>

text \<open>The pcbs the CPU has and has not yet sent back.\<close>

fun sending :: "cpu_pc \<Rightarrow> bool" where
  "sending (AwaitIdle b) = True"
| "sending _ = False"

definition work :: "cpu_state \<times> cpu_pc \<Rightarrow> nat" where
  "work c = pcb_loaded (fst c) + (cpu_bussy (fst c) - of_bool (sending (snd c)))"

definition calm :: "cpu_state \<times> cpu_pc \<Rightarrow> bool" where
  "calm c \<longleftrightarrow> \<not> new_interruption (fst c) \<and> snd c \<noteq> AwaitIdle True
     \<and> (snd c \<in> {AwaitPcb, LoopHead, CheckInterrupt} \<or> 0 < cpu_bussy (fst c))"

definition quieter :: "cpu_state \<times> cpu_pc \<Rightarrow> cpu_state \<times> cpu_pc \<Rightarrow> bool" where
  "quieter c c' \<longleftrightarrow> (\<exists>ps. to_kernel (fst c') = to_kernel (fst c) @ ps \<and> (\<forall>p \<in> set ps. header p \<in> from_cpu)
     \<and> work c' + length ps \<le> work c)"

lemma pcb_to_kernel_calm:
  assumes "pcb_to_kernel h False s = Inr c'" and "h \<in> {IO_CALL, EXIT_CALL}" and "\<not> new_interruption s" "0 < cpu_bussy s"
  shows "calm c' \<and> quieter (s, LoopHead) c'"
  using assms
  by (cases "kernel_client_socket s = -1")
    (auto simp: pcb_to_kernel_def bindE_iffs calm_def quieter_def work_def from_cpu_def Let_def)

lemma mmu_calm:
  assumes "mmu l purpose s = Inr c'" and "\<not> new_interruption s" "0 < cpu_bussy s" "\<not> sending pc"
  shows "calm c' \<and> quieter (s, pc) c'"
  using assms by (auto simp: mmu_def bindE_iffs calm_def quieter_def work_def send_memory_def Let_def)

lemma mmu_return_calm:
  assumes "mmu_return l purpose s = Inr c'" and b: "\<not> new_interruption s" "0 < cpu_bussy s" and pc: "\<not> sending pc"
  shows "calm c' \<and> quieter (s, pc) c'"
proof (cases purpose)
  case (ForCopyDst v)
  with assms(1) obtain d where "mmu (sint v) (ForCopySrc d) s = Inr c'"
    by (auto simp: mmu_return_def bindE_iffs Let_def)
  from mmu_calm [OF this b pc] show ?thesis .
qed (use assms in \<open>auto simp: mmu_return_def bindE_iffs readMem_def writeMem_def send_memory_def calm_def
       quieter_def work_def Let_def\<close>)

lemma execute_calm:
  assumes "execute op ps s = Inr c'" and "\<not> new_interruption s" "0 < cpu_bussy s"
  shows "calm c' \<and> quieter (s, LoopHead) c'"
proof (cases op)
  case NO_OP
  with assms show ?thesis
    by (auto simp: execute_def execute_no_op_def bindE_iffs calm_def quieter_def work_def)
next
  case IO_OP
  with assms obtain t where "pcb_to_kernel IO_CALL False (s\<lparr>pcb := (pcb s)\<lparr>pending_io_time := t\<rparr>\<rparr>) = Inr c'"
    by (auto simp: execute_def execute_io_def bindE_iffs)
  from pcb_to_kernel_calm [OF this] assms(2,3) show ?thesis by (simp add: quieter_def work_def)
next
  case EXIT_OP
  with assms pcb_to_kernel_calm show ?thesis by (simp add: execute_def execute_exit_def)
next
  case READ
  with assms obtain l where "mmu l ForRead s = Inr c'" by (auto simp: execute_def execute_read_def bindE_iffs)
  from mmu_calm [OF this assms(2,3), of LoopHead] show ?thesis by simp
next
  case COPY
  with assms obtain l v where "mmu l (ForCopyDst v) s = Inr c'"
    by (auto simp: execute_def execute_copy_def bindE_iffs)
  from mmu_calm [OF this assms(2,3), of LoopHead] show ?thesis by simp
next
  case WRITE
  with assms obtain l v where "mmu l (ForWrite v) s = Inr c'"
    by (auto simp: execute_def execute_write_def bindE_iffs)
  from mmu_calm [OF this assms(2,3), of LoopHead] show ?thesis by simp
qed (use assms in \<open>simp add: execute_def\<close>)

lemma exec_step_calm:
  assumes "exec_step c = Inr (Some c')" and "calm c"
  shows "calm c' \<and> quieter c c'"
proof -
  obtain s pc where c: "c = (s, pc)" by (cases c)
  show ?thesis
  proof (cases pc)
    case LoopHead
    show ?thesis
    proof (cases "bussyCpu s \<and> unat (program_counter (pcb s)) < length (instructions (pcb s))")
      case True
      then obtain op ps t where "execute op ps (s\<lparr>pcb := t\<rparr>) = Inr c'"
        using assms LoopHead by (auto simp: c exec_step_def bindE_iffs fetch_and_decode_def)
      from execute_calm [OF this] assms(2) True LoopHead show ?thesis
        by (simp add: c calm_def quieter_def work_def bussyCpu_def)
    next
      case False
      with assms LoopHead show ?thesis by (auto simp: c exec_step_def calm_def quieter_def work_def)
    qed
  next
    case (AwaitFrame l purpose)
    let ?s = "s\<lparr>waiting_frame := waiting_frame s - 1\<rparr>"
    have b: "\<not> new_interruption ?s" "0 < cpu_bussy ?s" using assms(2) AwaitFrame by (simp_all add: c calm_def)
    have "mmu_return l purpose ?s = Inr c'"
      using assms AwaitFrame by (auto simp: c exec_step_def bindE_iffs split: if_splits)
    from mmu_return_calm [OF this b, of pc] AwaitFrame show ?thesis by (simp add: c quieter_def work_def)
  qed (use assms in \<open>auto simp: c exec_step_def calm_def quieter_def work_def mmu_second_def send_memory_def
         writeMem_def Let_def split: if_splits option.splits\<close>)
qed

lemma cpu_handler_calm:
  assumes "call_handler cpu_handlers q s = Inr (b, s')" and "header q = cpu_code PCB_TO_CPU" and "calm (s, pc)"
  shows "calm (s', pc) \<and> to_kernel s' = to_kernel s \<and> work (s', pc) = Suc (work (s, pc))"
proof -
  have "call_handler cpu_handlers q s = receive_pcb q s" using assms(2) by (simp add: call_handler_def cpu_handlers_def)
  with assms obtain p where "s' = s\<lparr>pcb := p, pcb_loaded := pcb_loaded s + 1\<rparr>"
    by (auto simp: receive_pcb_def bindE_iffs)
  with assms(3) show ?thesis by (simp add: calm_def work_def)
qed

section \<open>The kernel with the FIFO scheduler\<close>

text \<open>The CPU gets one pcb at a time.\<close>

definition dispatching :: "kernel \<Rightarrow> bool" where
  "dispatching s \<longleftrightarrow> to_exec_at s \<in> {TE_Lock, TE_Take}"

lemma conf_step_tokens:
  assumes "conf_step srt c c'" and "sorts srt" and "kernel_inv (fst c)"
  shows "cpu_free (fst c') + of_bool (dispatching (fst c')) + fst (snd c')
    = cpu_free (fst c) + of_bool (dispatching (fst c)) + fst (snd c)"
  using assms
proof (induction rule: conf_step.induct)
  case (to_ready s s' n e)
  from to_ready(3,2,1) show ?case
    by simp (cases rule: to_ready_step_E, auto simp: dispatching_def ask_tables_def send_memory_request_def)
next
  case (to_exec now s s' n e)
  from to_exec(3,1) show ?case
    by simp (cases rule: to_exec_step_E, auto simp: dispatching_def)
next
  case (io now s s' n e)
  from io(3) have "kernel_inv s" by simp
  from this io(2,1) show ?case
    by (cases rule: io_step_E) (simp_all add: dispatching_def io_blocked_def io_suspended_def
      send_memory_request_def store_pcb_def Let_def)
next
  case (exit s s' n e)
  from exit(3,1) show ?case
    by simp (cases rule: exit_step_E, auto simp: dispatching_def ask_exit_def send_memory_request_def)
next
  case (cpu p junk now sock s b s' n e)
  from cpu(2) show ?case
    by (cases rule: kernel_packet_E)
      (use cpu in \<open>auto simp: from_cpu_def dispatching_def elim: io_op_E exit_op_E handle_interruption_E\<close>)
next
  case (exited p junk now sock s b s' n e)
  from exited(2) show ?case
  proof (cases rule: kernel_packet_E)
    case exited
    show ?thesis
      by (rule exit_process_success_E [OF _ exited(2)]) (use \<open>kernel_inv (fst (s, n, Suc e))\<close> in \<open>auto simp: dispatching_def\<close>)
  qed (use exited in auto)
next
  case (packet p junk now sock s b s' n e)
  from packet(3) show ?case
  proof (cases rule: kernel_packet_E)
    case tables
    have inv: "kernel_inv s" using packet by simp
    from inv tables(2) show ?thesis by (cases rule: table_index_success_E) (auto simp: dispatching_def)
  qed (use packet in \<open>auto simp: from_cpu_def dispatching_def suspension_success_def elim: receive_process_E\<close>)
qed

lemma conf_reachable_tokens:
  assumes "conf_reachable srt level c" and "sorts srt"
  shows "cpu_free (fst c) + of_bool (dispatching (fst c)) + fst (snd c) = 1"
  using assms
proof (induction rule: conf_reachable.induct)
  case (step c c')
  then show ?case using conf_step_tokens [OF step.hyps(2)] conf_reachable_ok by metis
qed (simp add: kernel_init_def dispatching_def)

section \<open>What memory answers\<close>

lemma page_table_init_sent:
  assumes "page_table_init s sz = Inr (i, s')"
  shows "sent s' = sent s"
proof -
  from assms obtain pages n where "pages_required s sz = Inr pages"
      "ceil_div pages (entriesPerTable (config s)) = Inr n"
    by (auto simp: page_table_init_def Let_def bindE_eq_Inr)
  from page_table_init_eq [OF this] assms show ?thesis by auto
qed

lemma assign_loop_sent: "assign_loop n acc s = Inr (fs, s') \<Longrightarrow> sent s' = sent s"
  by (induction n acc s rule: assign_loop.induct)
    (auto simp: bindE_iffs frame_set_assigned_def split: if_splits)

lemma assign_sent: "assign_process_frames s = Inr (i, s') \<Longrightarrow> sent s' = sent s"
  by (auto simp: assign_process_frames_def bindE_iffs dest: assign_loop_sent)

lemma unassign_iter_sent: "iterE (unassign_frame i) ks s = Inr s' \<Longrightarrow> sent s' = sent s"
  by (induction ks arbitrary: s)
    (auto simp: bindE_eq_Inr unassign_frame_def frame_clear_assigned_def set_frame_entry_def bindE_iffs)

lemma unassign_sent: "unassign_process_frames s j = Inr s' \<Longrightarrow> sent s' = sent s"
  by (auto simp: unassign_process_frames_def bindE_iffs dest: unassign_iter_sent)

text \<open>A handler answers at most once, on the socket it serves, the kernel with the header it waits for.\<close>

definition replies :: "int \<Rightarrow> (u8 \<Rightarrow> bool) \<Rightarrow> mem_state \<Rightarrow> mem_state \<Rightarrow> bool" where
  "replies sock ok s s' \<longleftrightarrow> (\<exists>ps. sent s' = sent s @ map (Pair sock) ps \<and> length ps \<le> 1 \<and> (\<forall>p \<in> set ps. ok (header p)))"

lemma replies_none: "sent s' = sent s \<Longrightarrow> replies sock ok s s'"
  by (auto simp: replies_def intro: exI [of _ "[]"])

lemma replies_send: "sent t = sent s \<Longrightarrow> ok (header p) \<Longrightarrow> replies sock ok s (send_packet sock p t)"
  by (auto simp: replies_def send_packet_def intro: exI [of _ "[p]"])

lemma create_swap_sent [simp]: "sent (create_swap s i sz) = sent s" "sent (delete_swap s i) = sent s"
  by (simp_all add: create_swap_def delete_swap_def)

lemma process_new_replies:
  "process_new sock q s = Inr (b, s') \<Longrightarrow> replies sock (\<lambda>h. h = kernel_code PROCESS_MEMORY_READY) s s'"
  by (auto simp: process_new_def bindE_iffs Let_def split: if_splits
      intro!: replies_send intro: replies_none dest!: page_table_init_sent assign_sent)

lemma process_exit_replies:
  "process_exit sock q s = Inr (b, s') \<Longrightarrow> replies sock (\<lambda>h. h = kernel_code PROCESS_EXIT_READY) s s'"
  by (auto simp: process_exit_def bindE_iffs Let_def split: if_splits
      intro!: replies_send intro: replies_none dest!: unassign_sent)

lemma process_suspend_replies:
  "process_suspend sock q s = Inr (b, s') \<Longrightarrow> replies sock (\<lambda>h. h = kernel_code PROCESS_SUSPENSION_READY) s s'"
  by (auto simp: process_suspend_def bindE_iffs Let_def split: if_splits
      intro!: replies_send intro: replies_none dest!: suspend_tables_nil)

lemma replies_mono: "replies sock ok s s' \<Longrightarrow> (\<And>h. ok h \<Longrightarrow> ok' h) \<Longrightarrow> replies sock ok' s s'"
  by (auto simp: replies_def)

definition kernel_requests :: "u8 set" where
  "kernel_requests = {memory_code PROCESS_NEW, memory_code PROCESS_SUSPEND, memory_code PROCESS_EXIT}"

definition memory_replies :: "u8 set" where
  "memory_replies = {kernel_code PROCESS_MEMORY_READY, kernel_code PROCESS_SUSPENSION_READY,
     kernel_code PROCESS_EXIT_READY}"

lemma request_replies:
  assumes "call_handler (memory_handlers addr sock) q s = Inr (b, s')" and "header q \<in> kernel_requests"
  shows "replies sock (\<lambda>h. h \<in> memory_replies
    \<and> (h = kernel_code PROCESS_EXIT_READY \<longrightarrow> header q = memory_code PROCESS_EXIT)) s s'"
proof -
  let ?s = "s\<lparr>memory_access_counter := memory_access_counter s + 1\<rparr>"
  have "replies sock (\<lambda>h. h \<in> memory_replies
    \<and> (h = kernel_code PROCESS_EXIT_READY \<longrightarrow> header q = memory_code PROCESS_EXIT)) ?s s'"
    using assms(2) unfolding kernel_requests_def
  proof (elim insertE emptyE)
    assume h: "header q = memory_code PROCESS_NEW"
    with assms(1) have "process_new sock q ?s = Inr (b, s')"
      by (simp add: call_handler_def memory_handlers_def counted_def)
    from process_new_replies [OF this] show ?thesis by (rule replies_mono) (simp add: memory_replies_def)
  next
    assume h: "header q = memory_code PROCESS_SUSPEND"
    with assms(1) have "process_suspend sock q ?s = Inr (b, s')"
      by (simp add: call_handler_def memory_handlers_def counted_def)
    from process_suspend_replies [OF this] show ?thesis by (rule replies_mono) (simp add: memory_replies_def)
  next
    assume h: "header q = memory_code PROCESS_EXIT"
    with assms(1) have "process_exit sock q ?s = Inr (b, s')"
      by (simp add: call_handler_def memory_handlers_def counted_def)
    from process_exit_replies [OF this] h show ?thesis by (elim replies_mono) (simp add: memory_replies_def)
  qed
  then show ?thesis by (simp add: replies_def)
qed

section \<open>What the kernel sends\<close>

definition emits :: "kernel \<Rightarrow> kernel \<Rightarrow> t_packet list \<Rightarrow> t_packet list \<Rightarrow> bool" where
  "emits s s' ms cs \<longleftrightarrow> memory_out s' = memory_out s @ ms \<and> cpu_out s' = cpu_out s @ cs"

lemma header_memory_request [simp]: "header (memory_request h ws) = memory_code h"
  by (simp add: memory_request_def)

lemma header_pcb_packet [simp]: "header (pcb_packet p) = cpu_code PCB_TO_CPU"
  by (simp add: pcb_packet_def Let_def)

lemma to_ready_emits:
  assumes "kernel_inv s" and "sorts srt" and "to_ready_step srt s = Inr (Some s')"
  shows "\<exists>ms. emits s s' ms [] \<and> (\<forall>p \<in> set ms. header p = memory_code PROCESS_NEW)"
  using assms by (cases rule: to_ready_step_E)
    (auto simp: emits_def ask_tables_def send_memory_request_def)

lemma io_emits:
  assumes "kernel_inv s" and "sorts srt" and "io_step srt now s = Inr (Some s')"
  shows "\<exists>ms. emits s s' ms [] \<and> (\<forall>p \<in> set ms. header p = memory_code PROCESS_SUSPEND)"
  using assms by (cases rule: io_step_E)
    (auto simp: emits_def io_blocked_def io_suspended_def send_memory_request_def store_pcb_def Let_def)

lemma exit_emits:
  assumes "kernel_inv s" and "exit_step s = Inr (Some s')"
  shows "\<exists>ms. emits s s' ms [] \<and> (\<forall>p \<in> set ms. header p = memory_code PROCESS_EXIT)"
  using assms by (cases rule: exit_step_E) (auto simp: emits_def ask_exit_def send_memory_request_def)

lemma to_exec_emits:
  assumes "kernel_inv s" and "to_exec_step now s = Inr (Some s')"
  shows "\<exists>cs. emits s s' [] cs \<and> (\<forall>p \<in> set cs. header p = cpu_code PCB_TO_CPU)"
  using assms by (cases rule: to_exec_step_E) (auto simp: emits_def)

lemma handler_emits:
  assumes "call_handler (kernel_handlers junk now sock) p s = Inr (b, s')" and inv: "kernel_inv s"
  shows "emits s s' [] []"
  using assms(1)
proof (cases rule: kernel_packet_E)
  case tables
  from inv tables(2) show ?thesis by (cases rule: table_index_success_E) (auto simp: emits_def)
next
  case exited
  show ?thesis by (rule exit_process_success_E [OF inv exited(2)]) (simp add: emits_def)
qed (auto simp: emits_def suspension_success_def
      elim: receive_process_E io_op_E exit_op_E handle_interruption_E)

section \<open>The whole system\<close>

text \<open>The pcbs on their way to the CPU, there, or on their way back; the exits memory has to confirm.\<close>

definition unread :: "t_packet list \<Rightarrow> nat \<Rightarrow> nat" where
  "unread out k = length out - k"

lemma unread_append [simp]: "k \<le> length out \<Longrightarrow> unread (out @ ps) k = unread out k + length ps"
  by (simp add: unread_def)

lemma unread_next: "k < length out \<Longrightarrow> unread out k = Suc (unread out (Suc k))"
  by (simp add: unread_def)

definition at_cpu :: "system \<Rightarrow> nat" where
  "at_cpu S = unread (cpu_out (ker S)) (dispatches_read S) + work (proc S)
     + unread (to_kernel (fst (proc S))) (calls_read S)"

definition with_header :: "u8 \<Rightarrow> t_packet list \<Rightarrow> nat" where
  "with_header h ps = length (filter (\<lambda>p. header p = h) ps)"

definition exits_due :: "int \<Rightarrow> system \<Rightarrow> nat" where
  "exits_due ks S = with_header (memory_code PROCESS_EXIT) (drop (requests_read S) (memory_out (ker S)))
     + with_header (kernel_code PROCESS_EXIT_READY) (drop (answers_read S) (answers ks (mem S)))"

definition headers_ok :: "int \<Rightarrow> system \<Rightarrow> bool" where
  "headers_ok ks S \<longleftrightarrow> (\<forall>p \<in> set (memory_out (ker S)). header p \<in> kernel_requests)
     \<and> (\<forall>p \<in> set (cpu_out (ker S)). header p = cpu_code PCB_TO_CPU)
     \<and> (\<forall>p \<in> set (to_kernel (fst (proc S))). header p \<in> from_cpu)
     \<and> (\<forall>p \<in> set (answers ks (mem S)). header p \<in> memory_replies)"

definition reads_ok :: "int \<Rightarrow> system \<Rightarrow> bool" where
  "reads_ok ks S \<longleftrightarrow> requests_read S \<le> length (memory_out (ker S)) \<and> dispatches_read S \<le> length (cpu_out (ker S))
     \<and> calls_read S \<le> length (to_kernel (fst (proc S))) \<and> answers_read S \<le> length (answers ks (mem S))"

definition quiet :: "system \<Rightarrow> bool" where
  "quiet S \<longleftrightarrow> sortingAlgorithm (ker S) = FIFO \<and> interrupts_out (ker S) = [] \<and> calm (proc S)"

definition protocol_ok :: "sorter \<Rightarrow> nat \<Rightarrow> int \<Rightarrow> system \<Rightarrow> bool" where
  "protocol_ok srt level ks S \<longleftrightarrow> quiet S \<and> headers_ok ks S \<and> reads_ok ks S
     \<and> (\<exists>n e. conf_reachable srt level (ker S, n, e) \<and> at_cpu S \<le> n \<and> exits_due ks S \<le> e)"

lemma with_header_simps [simp]:
  "with_header h [] = 0"
  "with_header h (p # ps) = of_bool (header p = h) + with_header h ps"
  "with_header h (ps @ qs) = with_header h ps + with_header h qs"
  by (simp_all add: with_header_def)

lemma with_header_none: "\<forall>p \<in> set ps. header p \<noteq> h \<Longrightarrow> with_header h ps = 0"
  by (simp add: with_header_def filter_empty_conv)

lemma with_header_le: "with_header h ps \<le> length ps"
  by (simp add: with_header_def)

lemma with_header_next:
  "k < length ps \<Longrightarrow> with_header h (drop k ps) = of_bool (header (ps ! k) = h) + with_header h (drop (Suc k) ps)"
  by (simp flip: Cons_nth_drop_Suc)

lemmas protocol_defs = quiet_def headers_ok_def reads_ok_def at_cpu_def exits_due_def

text \<open>A kernel step in the system.\<close>

lemma kernel_protocol:
  assumes ok: "protocol_ok srt level ks S" and srt: "sorts srt"
    and st: "conf_step srt (ker S, n, e) (k, n', e')" and r: "conf_reachable srt level (ker S, n, e)"
    and em: "emits (ker S) k ms cs" and ms: "\<forall>p \<in> set ms. header p \<in> kernel_requests"
    and cs: "\<forall>p \<in> set cs. header p = cpu_code PCB_TO_CPU"
    and n: "at_cpu (S\<lparr>ker := k\<rparr>) \<le> n'" and e: "exits_due ks (S\<lparr>ker := k\<rparr>) \<le> e'"
  shows "protocol_ok srt level ks (S\<lparr>ker := k\<rparr>)"
proof -
  have "kernel_step srt (ker S) k" using conf_step_kernel_step [OF st] by simp
  moreover have "kernel_inv (ker S)" using conf_reachable_ok [OF r srt] by simp
  ultimately have "sortingAlgorithm k = FIFO \<and> interrupts_out k = []"
    using fifo_step [OF _ _ srt, of "ker S" k] ok by (simp add: protocol_ok_def quiet_def)
  moreover have "conf_reachable srt level (k, n', e')" using conf_reachable.step [OF r st] .
  ultimately show ?thesis
    using ok em ms cs n e by (auto simp: protocol_ok_def quiet_def headers_ok_def reads_ok_def emits_def)
qed

lemma emits_at_cpu: "emits (ker S) k ms cs \<Longrightarrow> reads_ok ks S \<Longrightarrow> at_cpu (S\<lparr>ker := k\<rparr>) = at_cpu S + length cs"
  by (simp add: emits_def at_cpu_def reads_ok_def)

lemma emits_exits_due: "emits (ker S) k ms cs \<Longrightarrow> reads_ok ks S \<Longrightarrow>
    exits_due ks (S\<lparr>ker := k\<rparr>) = exits_due ks S + with_header (memory_code PROCESS_EXIT) ms"
  by (simp add: emits_def exits_due_def reads_ok_def)

lemma kernel_thread_protocol:
  assumes ok: "protocol_ok srt level ks S" and srt: "sorts srt"
  shows "to_ready_step srt (ker S) = Inr (Some k) \<Longrightarrow> protocol_ok srt level ks (S\<lparr>ker := k\<rparr>)"
    and "io_step srt now (ker S) = Inr (Some k) \<Longrightarrow> protocol_ok srt level ks (S\<lparr>ker := k\<rparr>)"
    and "to_exec_step now (ker S) = Inr (Some k) \<Longrightarrow> protocol_ok srt level ks (S\<lparr>ker := k\<rparr>)"
    and "exit_step (ker S) = Inr (Some k) \<Longrightarrow> protocol_ok srt level ks (S\<lparr>ker := k\<rparr>)"
proof -
  obtain n e where r: "conf_reachable srt level (ker S, n, e)" and n: "at_cpu S \<le> n" and e: "exits_due ks S \<le> e"
    using ok by (auto simp: protocol_ok_def)
  have inv: "kernel_inv (ker S)" using conf_reachable_ok [OF r srt] by simp
  have rd: "reads_ok ks S" using ok by (simp add: protocol_ok_def)
  show "protocol_ok srt level ks (S\<lparr>ker := k\<rparr>)" if st: "to_ready_step srt (ker S) = Inr (Some k)"
  proof -
    obtain ms where ms: "emits (ker S) k ms []" "\<forall>p \<in> set ms. header p = memory_code PROCESS_NEW"
      using to_ready_emits [OF inv srt st] by blast
    then have "with_header (memory_code PROCESS_EXIT) ms = 0" by (intro with_header_none) simp
    with n e ms show ?thesis
      by (intro kernel_protocol [OF ok srt conf_step.to_ready [OF st] r ms(1)])
        (simp_all add: emits_at_cpu [OF ms(1) rd] emits_exits_due [OF ms(1) rd] kernel_requests_def)
  qed
  show "protocol_ok srt level ks (S\<lparr>ker := k\<rparr>)" if st: "io_step srt now (ker S) = Inr (Some k)"
  proof -
    obtain ms where ms: "emits (ker S) k ms []" "\<forall>p \<in> set ms. header p = memory_code PROCESS_SUSPEND"
      using io_emits [OF inv srt st] by blast
    then have "with_header (memory_code PROCESS_EXIT) ms = 0" by (intro with_header_none) simp
    with n e ms show ?thesis
      by (intro kernel_protocol [OF ok srt conf_step.io [OF st] r ms(1)])
        (simp_all add: emits_at_cpu [OF ms(1) rd] emits_exits_due [OF ms(1) rd] kernel_requests_def)
  qed
  show "protocol_ok srt level ks (S\<lparr>ker := k\<rparr>)" if st: "to_exec_step now (ker S) = Inr (Some k)"
  proof -
    obtain cs where cs: "emits (ker S) k [] cs" "\<forall>p \<in> set cs. header p = cpu_code PCB_TO_CPU"
      using to_exec_emits [OF inv st] by blast
    with n e show ?thesis
      by (intro kernel_protocol [OF ok srt conf_step.to_exec [OF st] r cs(1)])
        (simp_all add: emits_at_cpu [OF cs(1) rd] emits_exits_due [OF cs(1) rd], simp_all add: emits_def)
  qed
  show "protocol_ok srt level ks (S\<lparr>ker := k\<rparr>)" if st: "exit_step (ker S) = Inr (Some k)"
  proof -
    obtain ms where ms: "emits (ker S) k ms []" "\<forall>p \<in> set ms. header p = memory_code PROCESS_EXIT"
      using exit_emits [OF inv st] by blast
    then have l: "length (memory_out k) - length (memory_out (ker S)) = length ms" by (simp add: emits_def)
    from n e ms with_header_le [of "memory_code PROCESS_EXIT" ms] show ?thesis
      by (intro kernel_protocol [OF ok srt conf_step.exit [OF st] r ms(1)])
        (simp_all add: emits_at_cpu [OF ms(1) rd] emits_exits_due [OF ms(1) rd] kernel_requests_def l)
  qed
qed

text \<open>A packet the kernel handles; it takes one from the CPU's calls or memory's answers, or neither.\<close>

lemma kernel_packet_protocol:
  assumes ok: "protocol_ok srt level ks S" and srt: "sorts srt"
    and st: "call_handler (kernel_handlers junk now sock) q (ker S) = Inr (b, k)"
  shows "header q \<notin> from_cpu \<Longrightarrow> header q \<noteq> kernel_code PROCESS_EXIT_READY \<Longrightarrow>
      protocol_ok srt level ks (S\<lparr>ker := k\<rparr>)"
    and "next_packet (to_kernel (fst (proc S))) (calls_read S) q \<Longrightarrow>
      protocol_ok srt level ks (S\<lparr>ker := k, calls_read := calls_read S + 1\<rparr>)"
    and "next_packet (answers ks (mem S)) (answers_read S) q \<Longrightarrow>
      protocol_ok srt level ks (S\<lparr>ker := k, answers_read := answers_read S + 1\<rparr>)"
proof -
  obtain n e where r: "conf_reachable srt level (ker S, n, e)" and n: "at_cpu S \<le> n" and e: "exits_due ks S \<le> e"
    using ok by (auto simp: protocol_ok_def)
  have inv: "kernel_inv (ker S)" using conf_reachable_ok [OF r srt] by simp
  have rd: "reads_ok ks S" using ok by (simp add: protocol_ok_def)
  have em: "emits (ker S) k [] []" using handler_emits [OF st inv] .
  have q: "sortingAlgorithm k = FIFO \<and> interrupts_out k = []"
    using fifo_step [OF kernel_step.packet [OF st] inv srt] ok by (simp add: protocol_ok_def quiet_def)
  show "protocol_ok srt level ks (S\<lparr>ker := k\<rparr>)"
    if "header q \<notin> from_cpu" "header q \<noteq> kernel_code PROCESS_EXIT_READY"
    using n e by (intro kernel_protocol [OF ok srt conf_step.packet [OF that st] r em])
      (simp_all add: emits_at_cpu [OF em rd] emits_exits_due [OF em rd])
  show "protocol_ok srt level ks (S\<lparr>ker := k, calls_read := calls_read S + 1\<rparr>)" (is "protocol_ok _ _ _ ?S")
    if np: "next_packet (to_kernel (fst (proc S))) (calls_read S) q"
  proof -
    have h: "header q \<in> from_cpu"
      using np ok by (auto simp: next_packet_def protocol_ok_def headers_ok_def dest!: delivered_header)
    have a: "at_cpu S = Suc (at_cpu ?S)" "exits_due ks ?S = exits_due ks S"
      using np em rd unread_next [of "calls_read S" "to_kernel (fst (proc S))"]
      by (simp_all add: next_packet_def emits_def at_cpu_def exits_due_def reads_ok_def)
    then obtain n' where n': "n = Suc n'" using n by (cases n) auto
    have "conf_reachable srt level (k, n', e)"
      using conf_reachable.step [OF r] conf_step.cpu [OF h st] by (simp add: n')
    moreover have "headers_ok ks ?S" "reads_ok ks ?S" "quiet ?S"
      using ok em np q by (simp_all add: protocol_ok_def headers_ok_def reads_ok_def quiet_def emits_def next_packet_def)
    ultimately show ?thesis using n e a by (auto simp: protocol_ok_def n')
  qed
  show "protocol_ok srt level ks (S\<lparr>ker := k, answers_read := answers_read S + 1\<rparr>)" (is "protocol_ok _ _ _ ?S")
    if np: "next_packet (answers ks (mem S)) (answers_read S) q"
  proof -
    have hq: "header (answers ks (mem S) ! answers_read S) = header q" "header q \<in> memory_replies"
      using np ok by (auto simp: next_packet_def protocol_ok_def headers_ok_def dest!: delivered_header)
    have a: "at_cpu ?S = at_cpu S"
      "exits_due ks S = exits_due ks ?S + of_bool (header q = kernel_code PROCESS_EXIT_READY)"
      using np em with_header_next [of "answers_read S" "answers ks (mem S)"]
      by (simp_all add: next_packet_def emits_def at_cpu_def exits_due_def hq(1))
    have s: "headers_ok ks ?S" "reads_ok ks ?S" "quiet ?S"
      using ok em np q by (simp_all add: protocol_ok_def headers_ok_def reads_ok_def quiet_def emits_def next_packet_def)
    show ?thesis
    proof (cases "header q = kernel_code PROCESS_EXIT_READY")
      case True
      then obtain e' where e': "e = Suc e'" using e a by (cases e) auto
      have "conf_reachable srt level (k, n, e')"
        using conf_reachable.step [OF r] conf_step.exited [OF True st] by (simp add: e')
      with s n e a True show ?thesis by (auto simp: protocol_ok_def e')
    next
      case False
      then have "header q \<notin> from_cpu" using hq(2) by (auto simp: memory_replies_def from_cpu_def)
      then have "conf_reachable srt level (k, n, e)"
        using conf_reachable.step [OF r] conf_step.packet [OF _ False st] by blast
      with s n e a False show ?thesis by (auto simp: protocol_ok_def)
    qed
  qed
qed

text \<open>Steps of CPU and memory.\<close>

lemma answers_replies:
  "replies ks ok m m' \<Longrightarrow> \<exists>ps. answers ks m' = answers ks m @ ps \<and> length ps \<le> 1 \<and> (\<forall>p \<in> set ps. ok (header p))"
  by (auto simp: replies_def answers_def comp_def filter_map)

lemma request_protocol:
  assumes ok: "protocol_ok srt level ks S" and np: "next_packet (memory_out (ker S)) (requests_read S) q"
    and st: "call_handler (memory_handlers addr ks) q (mem S) = Inr (b, m)"
  shows "protocol_ok srt level ks (S\<lparr>mem := m, requests_read := requests_read S + 1\<rparr>)" (is "protocol_ok _ _ _ ?S")
proof -
  have hq: "header (memory_out (ker S) ! requests_read S) = header q" "header q \<in> kernel_requests"
    using np ok by (auto simp: next_packet_def protocol_ok_def headers_ok_def dest!: delivered_header)
  from answers_replies [OF request_replies [OF st hq(2)]] obtain ps where
    ps: "answers ks m = answers ks (mem S) @ ps" "length ps \<le> 1"
      "\<forall>p \<in> set ps. header p \<in> memory_replies
        \<and> (header p = kernel_code PROCESS_EXIT_READY \<longrightarrow> header q = memory_code PROCESS_EXIT)" by blast
  have "with_header (kernel_code PROCESS_EXIT_READY) ps \<le> of_bool (header q = memory_code PROCESS_EXIT)"
    using ps(2,3) by (cases ps) auto
  then have "exits_due ks ?S \<le> exits_due ks S"
    using np ok ps(1) with_header_next [of "requests_read S" "memory_out (ker S)"]
    by (simp add: exits_due_def next_packet_def hq(1) protocol_ok_def reads_ok_def)
  moreover have "headers_ok ks ?S" "reads_ok ks ?S" "quiet ?S" "at_cpu ?S = at_cpu S"
    using ok np ps by (auto simp: protocol_ok_def headers_ok_def reads_ok_def quiet_def at_cpu_def next_packet_def)
  ultimately show ?thesis using ok by (fastforce simp: protocol_ok_def)
qed

lemma cpu_protocol:
  assumes ok: "protocol_ok srt level ks S"
  shows "exec_step (proc S) = Inr (Some c) \<Longrightarrow> protocol_ok srt level ks (S\<lparr>proc := c\<rparr>)"
    and "next_packet (cpu_out (ker S)) (dispatches_read S) q \<Longrightarrow>
      call_handler cpu_handlers q (fst (proc S)) = Inr (b, d) \<Longrightarrow>
      protocol_ok srt level ks (S\<lparr>proc := (d, snd (proc S)), dispatches_read := dispatches_read S + 1\<rparr>)"
proof -
  have calm: "calm (proc S)" using ok by (simp add: protocol_ok_def quiet_def)
  show "protocol_ok srt level ks (S\<lparr>proc := c\<rparr>)" if "exec_step (proc S) = Inr (Some c)"
  proof -
    from exec_step_calm [OF that calm] obtain ps where c: "calm c" "to_kernel (fst c) = to_kernel (fst (proc S)) @ ps"
        "\<forall>p \<in> set ps. header p \<in> from_cpu" "work c + length ps \<le> work (proc S)"
      by (auto simp: quieter_def)
    with ok have "at_cpu (S\<lparr>proc := c\<rparr>) \<le> at_cpu S"
      by (simp add: protocol_ok_def reads_ok_def at_cpu_def)
    moreover from ok c have "headers_ok ks (S\<lparr>proc := c\<rparr>)" "reads_ok ks (S\<lparr>proc := c\<rparr>)" "quiet (S\<lparr>proc := c\<rparr>)"
      by (auto simp: protocol_ok_def headers_ok_def reads_ok_def quiet_def)
    moreover have "exits_due ks (S\<lparr>proc := c\<rparr>) = exits_due ks S" by (simp add: exits_due_def)
    ultimately show ?thesis using ok by (simp add: protocol_ok_def) (meson le_trans)
  qed
  show "protocol_ok srt level ks (S\<lparr>proc := (d, snd (proc S)), dispatches_read := dispatches_read S + 1\<rparr>)"
    if np: "next_packet (cpu_out (ker S)) (dispatches_read S) q"
      and st: "call_handler cpu_handlers q (fst (proc S)) = Inr (b, d)"
  proof -
    have "header q = cpu_code PCB_TO_CPU"
      using np ok by (auto simp: next_packet_def protocol_ok_def headers_ok_def dest!: delivered_header)
    from cpu_handler_calm [OF st this, of "snd (proc S)"] calm
    have "calm (d, snd (proc S))" "to_kernel d = to_kernel (fst (proc S))"
        "work (d, snd (proc S)) = Suc (work (proc S))" by simp_all
    with ok np unread_next [of "dispatches_read S" "cpu_out (ker S)"] show ?thesis
      by (simp add: protocol_ok_def headers_ok_def reads_ok_def quiet_def exits_due_def at_cpu_def next_packet_def)
  qed
qed

lemma sys_step_protocol:
  assumes "sys_step srt addr ks S S'" and ok: "protocol_ok srt level ks S" and srt: "sorts srt"
  shows "protocol_ok srt level ks S'"
  using assms(1)
proof cases
  case (console p q junk now sock b k)
  then have "header q = kernel_code NEW_PROCESS"
    by (auto dest!: delivered_header simp: console_packet_def create_packet_def Let_def)
  with console kernel_packet_protocol(1) [OF ok srt console(3)] show ?thesis by (simp add: from_cpu_def)
next
  case (interrupt c)
  with ok show ?thesis by (simp add: protocol_ok_def quiet_def)
next
  case (answer q junk now sock b k)
  with kernel_packet_protocol(3) [OF ok srt answer(3)] show ?thesis by simp
next
  case (call q junk now sock b k)
  with kernel_packet_protocol(2) [OF ok srt call(3)] show ?thesis by simp
next
  case (request q b m)
  with request_protocol [OF ok] show ?thesis by simp
next
  case (dispatch q b c)
  with cpu_protocol(2) [OF ok] show ?thesis by simp
next
  case (exec c)
  with cpu_protocol(1) [OF ok] show ?thesis by simp
qed (use kernel_thread_protocol [OF ok srt] in simp_all)

lemma memory_handshake_calm: "memory_handshake q s = Inr c \<Longrightarrow>
    \<exists>ps ept. c = s\<lparr>cpu_pageSize := ps, cpu_entriesPerTable := ept\<rparr>"
proof (cases "header q = cpu_code TABLE_INFO_TO_CPU")
  case False
  moreover assume "memory_handshake q s = Inr c"
  ultimately have "c = s\<lparr>cpu_pageSize := cpu_pageSize s, cpu_entriesPerTable := cpu_entriesPerTable s\<rparr>"
    by (simp add: memory_handshake_def)
  then show ?thesis by blast
qed (auto simp: memory_handshake_def bindE_iffs)

lemma sys_start_protocol:
  assumes "sys_start cs level cfg S" and "cs \<noteq> ks" and "sortingAlgorithm (ker S) = FIFO"
  shows "protocol_ok srt level ks S"
  using assms
proof (induction rule: sys_start.induct)
  case (1 m0 hs m p q ccfg junk_pcb junk ms c kcfg dsock isock msock lsock ds)
  have "memory_handshake q (cpu_start ccfg junk_pcb junk) = Inr c"
    using "1.hyps"(5) by (auto simp: cpu_main_def terminate_cpu_def bindE_iffs split: if_splits)
  then have "new_interruption c = False" "pcb_loaded c = 0" "cpu_bussy c = 0" "to_kernel c = []"
    by (auto dest!: memory_handshake_calm simp: cpu_start_def)
  moreover have "answers ks m = []" using "1.hyps"(3) "1.prems"(1) by (simp add: answers_def)
  moreover have "conf_reachable srt level (kernel_main kcfg dsock isock msock lsock, 0, 0)"
    unfolding kernel_main_init "1.hyps"(6) by (rule conf_reachable.start [OF "1.hyps"(7,9)])
  ultimately show ?case using "1.prems"(2)
    by (auto simp: protocol_ok_def protocol_defs calm_def work_def dispatch_connected_def Let_def unread_def
        kernel_main_init kernel_init_def)
qed

lemma sys_reachable_protocol:
  assumes "sys_reachable srt addr ks cs level cfg S" and "sorts srt" and "cs \<noteq> ks" and "sortingAlgorithm (ker S) = FIFO"
  shows "protocol_ok srt level ks S"
  using assms
proof (induction rule: sys_reachable.induct)
  case (start S)
  then show ?case by (intro sys_start_protocol)
next
  case (step S S')
  have r: "kernel_reachable srt level (ker S)" "mem_reachable cfg (mem S)"
    using sys_reachable_parts [OF step.hyps(1)] by auto
  have "kernel_inv (ker S)" using kernel_reachable_inv [OF r(1) step.prems(1)] .
  note same = fifo_step [OF _ this step.prems(1), THEN conjunct1]
  from step.hyps(2) have "sortingAlgorithm (ker S') = sortingAlgorithm (ker S)"
    by cases (auto dest: same [OF kernel_step.to_ready] same [OF kernel_step.to_exec] same [OF kernel_step.io]
        same [OF kernel_step.exit] same [OF kernel_step.packet])
  then have "sortingAlgorithm (ker S) = FIFO" using step.prems(3) by simp
  then show ?case using sys_step_protocol [OF step.hyps(2)] step by blast
qed

end
