(* ===== verification/System_Life.thy ===== *)
theory System_Life
  imports System_Inv
begin

text \<open>
  The life of a process through all four programs: the stages of the kernel, of the CPU and of memory,
  each evaluated alone, and the run of the system that strings them together.
\<close>

section \<open>A process alone in the system: the kernel's part\<close>

text \<open>The pcb the CPU gets, and the one it sends back after \<open>n\<close> NO_OPs and an EXIT.\<close>

definition first_pcb :: "t_process \<Rightarrow> u32 \<Rightarrow> u32 \<Rightarrow> t_pcb" where
  "first_pcb p sock est = blank_pcb\<lparr>pid := 1, pcb_size := proc_size p, client_socket := sock,
     instructions := proc_instructions p, burst_estimation := est, left_burst_estimation := est\<rparr>"

text \<open>The kernel as \<open>main\<close> starts it, connected to CPU and memory.\<close>

definition kernel_up :: "string \<Rightarrow> u32 \<Rightarrow> real \<Rightarrow> nat \<Rightarrow> int \<Rightarrow> int \<Rightarrow> int \<Rightarrow> kernel" where
  "kernel_up alg est a level maxb dsock msock =
     (kernel_init alg est a level maxb)\<lparr>cpu_dispatch_socket := dsock, memory_socket := msock\<rparr>"

lemma kernel_life:
  assumes p: "wf_process p" "length (process_bytes p) < 2 ^ 32" and alg: "choose_scheduler alg = FIFO"
    and ret: "wf_pcb back" "length (pcb_bytes back) < 2 ^ 32" "client_socket back = sock" "sock \<noteq> 0" "pid back = 1"
    and conn: "dsock \<noteq> -1" "msock \<noteq> -1"
  shows "\<exists>k1 k2 k3 k4 k5 k6 k7.
      call_handler (kernel_handlers blank_pcb 0 sock) (process_packet p) (kernel_up alg est a (Suc l) maxb dsock msock) = Inr (True, k1)
    \<and> run srt (replicate 4 Run_to_ready) (k1, 0, 0) = Some (k2, 0, 0)
    \<and> memory_out k2 = [memory_request PROCESS_NEW [1, proc_size p]]
    \<and> call_handler (kernel_handlers blank_pcb 0 0) (words_packet PROCESS_MEMORY_READY [1, 0, 0]) k2 = Inr (False, k3)
    \<and> run srt (replicate 3 Run_to_ready @ replicate 4 (Run_to_exec 0)) (k3, 0, 0) = Some (k4, 1, 0)
    \<and> cpu_out k4 = [pcb_packet (first_pcb p sock est)] \<and> memory_out k4 = memory_out k2
    \<and> call_handler (kernel_handlers blank_pcb 0 0) (pcb_call EXIT_CALL back) k4 = Inr (True, k5)
    \<and> run srt (replicate 3 Run_exit) (k5, 0, 0) = Some (k6, 0, 1)
    \<and> memory_out k6 = memory_out k2 @ [memory_request PROCESS_EXIT [1, page_table back, process_frames_index back]]
    \<and> call_handler (kernel_handlers blank_pcb 0 0) (words_packet PROCESS_EXIT_READY [1]) k6 = Inr (False, k7)
    \<and> console_out k7 = [(sock, console_code PROCESS_OK)] \<and> sem_multiprogram k7 = Suc l \<and> cpu_free k7 = 1"
proof -
  obtain w where w: "take_u32 (words_packet PROCESS_EXIT_READY [1]) = Inr (1, w)" using take_one_word by blast
  show ?thesis
    unfolding kernel_up_def kernel_init_def first_pcb_def
    by (simp add: run_simps receive_process_eq [OF p] exit_op_eq [OF ret(1,2)] w ret(3-5) conn alg numeral_eq_Suc
       exit_process_success_def page_table_to_pid_step blank_pcb_def)
qed

section \<open>The CPU's part\<close>

lemma exec_run_calm:
  "exec_run n c = Some c' \<Longrightarrow> calm c \<Longrightarrow>
     calm c' \<and> work c' + length (to_kernel (fst c')) \<le> work c + length (to_kernel (fst c))"
proof (induction n arbitrary: c)
  case (Suc n)
  then obtain c1 where c1: "exec_step c = Inr (Some c1)" "exec_run n c1 = Some c'"
    by (auto split: sum.splits option.splits)
  from exec_step_calm [OF c1(1) Suc.prems(2)] Suc.IH [OF c1(2)] show ?case by (auto simp: quieter_def)
qed simp

text \<open>An idle CPU: it waits for a pcb, connected to the kernel.\<close>

definition idle_cpu :: "cpu_state \<Rightarrow> bool" where
  "idle_cpu c \<longleftrightarrow> kernel_client_socket c \<noteq> -1 \<and> \<not> tlb_held (tlb c) \<and> \<not> new_interruption c
     \<and> pcb_loaded c = 0 \<and> cpu_bussy c = 0"

text \<open>Programs of \<open>n\<close> NO_OPs and an EXIT.\<close>

definition noops_then_exit :: "nat \<Rightarrow> t_instruction list \<Rightarrow> bool" where
  "noops_then_exit n is \<longleftrightarrow> n < length is \<and> n < 2 ^ 32 \<and> (\<forall>i < n. is_noop (is ! i)) \<and> ins_id (is ! n) = ''EXIT''"

lemma cpu_life:
  assumes idle: "idle_cpu c" and prog: "noops_then_exit n (instructions p)" and pc: "program_counter p = 0"
  shows "\<exists>c2. exec_run (2 * n + 5) (c\<lparr>pcb := p, pcb_loaded := 1\<rparr>, AwaitPcb) = Some (c2, AwaitPcb)
    \<and> to_kernel c2 = to_kernel c @ [pcb_message EXIT_CALL (p\<lparr>program_counter := of_nat n + 1\<rparr>)]
    \<and> work (c2, AwaitPcb) = 0"
proof -
  let ?c1 = "(c\<lparr>pcb := p, pcb_loaded := 1\<rparr>, AwaitPcb)" and ?q = "p\<lparr>program_counter := of_nat n + 1\<rparr>"
  have "\<exists>c1. exec_run (2 * n + 2) ?c1 = Some (c1, AwaitIdle False)
    \<and> to_kernel c1 = to_kernel c @ [pcb_message EXIT_CALL ?q] \<and> cpu_bussy c1 = cpu_bussy c + 1"
    using idle prog pc burst_run [of c p 0 n EXIT_CALL ?q]
    by (simp add: idle_cpu_def noops_then_exit_def burst_end_def)
  then obtain c1 where c1: "exec_run (2 * n + 2) ?c1 = Some (c1, AwaitIdle False)"
      "to_kernel c1 = to_kernel c @ [pcb_message EXIT_CALL ?q]" "cpu_bussy c1 = 1"
    using idle by (auto simp: idle_cpu_def)
  have "calm ?c1" "work ?c1 = 1" using idle by (simp_all add: idle_cpu_def calm_def work_def)
  with exec_run_calm [OF c1(1)] c1(2) have calm: "\<not> new_interruption c1" "work (c1, AwaitIdle False) = 0"
    by (simp_all add: calm_def)
  let ?c2 = "c1\<lparr>cpu_bussy := 0\<rparr>"
  have "exec_run 3 (c1, AwaitIdle False) = Some (?c2, AwaitPcb)"
    using c1(3) calm(1) by (simp add: numeral_3_eq_3 exec_step_def bussyCpu_def)
  then have "exec_run (2 * n + 5) ?c1 = Some (?c2, AwaitPcb)"
    using exec_run_add [of "2 * n + 2" 3 ?c1] c1(1) by (simp add: add.commute add.left_commute)
  moreover have "work (?c2, AwaitPcb) = 0" using calm(2) c1(3) by (simp add: work_def)
  ultimately show ?thesis using c1(2) by (intro exI [of _ ?c2]) simp
qed

section \<open>The start\<close>

lemma handshake_listener_same: "cpu_handshake_listener cs hs m = Some m' \<Longrightarrow> \<exists>x. m' = m\<lparr>sent := x\<rparr>"
proof (induction hs arbitrary: m)
  case (Cons h hs)
  then show ?case by (auto simp: cpu_handshake_def send_packet_def Let_def split: if_splits)
qed simp

definition fresh_system :: "int \<Rightarrow> nat \<Rightarrow> system \<Rightarrow> bool" where
  "fresh_system ks level S \<longleftrightarrow>
     (\<exists>alg est a maxb dsock msock. ker S = kernel_up alg est a level maxb dsock msock \<and> dsock \<noteq> -1 \<and> msock \<noteq> -1
      \<and> choose_scheduler alg = sortingAlgorithm (ker S))
   \<and> snd (proc S) = AwaitPcb \<and> (kernel_client_socket (fst (proc S)) \<noteq> -1 \<longrightarrow> idle_cpu (fst (proc S)))
   \<and> to_kernel (fst (proc S)) = [] \<and> to_memory (fst (proc S)) = [] \<and> answers ks (mem S) = []
   \<and> processes_frames (mem S) = [] \<and> level1_tables (mem S) = [] \<and> level2_tables (mem S) = []
   \<and> requests_read S = 0 \<and> answers_read S = 0 \<and> dispatches_read S = 0 \<and> calls_read S = 0
   \<and> interrupts_read S = 0"

lemma sys_start_fresh:
  assumes "sys_start cs level cfg S" and "cs \<noteq> ks"
  shows "fresh_system ks level S"
  using assms
proof (induction rule: sys_start.induct)
  case (1 m0 hs m p q ccfg junk_pcb junk ms c kcfg dsock isock msock lsock ds)
  have "memory_handshake q (cpu_start ccfg junk_pcb junk) = Inr c"
    using "1.hyps"(5) by (auto simp: cpu_main_def terminate_cpu_def bindE_iffs split: if_splits)
  then have "new_interruption c = False" "pcb_loaded c = 0" "cpu_bussy c = 0" "to_kernel c = []" "to_memory c = []"
      "\<not> tlb_held (tlb c)"
    by (auto dest!: memory_handshake_calm simp: cpu_start_def create_tlb_def)
  moreover have "answers ks m = []" using "1.hyps"(3) "1.prems"(1) by (simp add: answers_def)
  moreover obtain x where "m = m0\<lparr>sent := x\<rparr>" using handshake_listener_same [OF "1.hyps"(2)] by blast
  ultimately show ?case using "1.hyps"(1,7,9)
    by (auto simp: fresh_system_def idle_cpu_def dispatch_connected_def Let_def "1.hyps"(6)
        kernel_main_init kernel_up_def kernel_init_def memory_init_def bindE_iffs)
qed

section \<open>Runs of one program inside the system\<close>

fun local_event :: "event \<Rightarrow> bool" where
  "local_event (Arrive now sock p) = False"
| "local_event e = True"

lemma sys_local:
  "run srt evs (ker S, n, e) = Some (k, n', e') \<Longrightarrow> list_all local_event evs \<Longrightarrow>
     (sys_step srt addr ks)\<^sup>*\<^sup>* S (S\<lparr>ker := k\<rparr>)"
proof (induction evs arbitrary: S n e)
  case (Cons ev evs)
  then obtain k1 n1 e1 where s: "do_event srt ev (ker S, n, e) = Some (k1, n1, e1)"
      and r: "run srt evs (k1, n1, e1) = Some (k, n', e')"
    by (cases "do_event srt ev (ker S, n, e)") auto
  from s Cons.prems(2) have "sys_step srt addr ks S (S\<lparr>ker := k1\<rparr>)"
    by (cases ev) (auto intro: sys_step.intros)
  moreover have "(sys_step srt addr ks)\<^sup>*\<^sup>* (S\<lparr>ker := k1\<rparr>) (S\<lparr>ker := k\<rparr>)"
    using Cons.IH [of "S\<lparr>ker := k1\<rparr>" n1 e1] r Cons.prems(2) by simp
  ultimately show ?case by (rule converse_rtranclp_into_rtranclp)
qed (cases S, auto)

lemma sys_exec: "exec_run n (proc S) = Some c \<Longrightarrow> (sys_step srt addr ks)\<^sup>*\<^sup>* S (S\<lparr>proc := c\<rparr>)"
proof (induction n arbitrary: S)
  case (Suc n)
  then obtain c1 where c1: "exec_step (proc S) = Inr (Some c1)" "exec_run n c1 = Some c"
    by (auto split: sum.splits option.splits)
  have "(sys_step srt addr ks)\<^sup>*\<^sup>* (S\<lparr>proc := c1\<rparr>) (S\<lparr>proc := c\<rparr>)"
    using Suc.IH [of "S\<lparr>proc := c1\<rparr>"] c1(2) by simp
  with sys_step.exec [OF c1(1)] show ?case by (rule converse_rtranclp_into_rtranclp)
qed (cases S, auto)

section \<open>From the console to the console\<close>

lemma delivered_request:
  "length ws < 2 ^ 29 \<Longrightarrow> delivered (memory_request h ws) (request h ws)"
  unfolding memory_request_def request_def by (rule delivered_words)

lemma call_memory:
  "call_handler (memory_handlers addr sock) (request PROCESS_NEW ws) m
     = process_new sock (request PROCESS_NEW ws) (m\<lparr>memory_access_counter := memory_access_counter m + 1\<rparr>)"
  "call_handler (memory_handlers addr sock) (request PROCESS_EXIT ws) m
     = process_exit sock (request PROCESS_EXIT ws) (m\<lparr>memory_access_counter := memory_access_counter m + 1\<rparr>)"
  by (simp_all add: call_handler_def memory_handlers_def request_def counted_def)

lemma process_exit_answer:
  assumes "process_exit sock (request PROCESS_EXIT [p, t, f]) s = Inr (b, s')" and "p \<noteq> 0"
  shows "sent s' = sent s @ [(sock, add_u32 (create_packet (kernel_code PROCESS_EXIT_READY) INITIAL_STREAM_SIZE) p)]"
  using assms by (auto simp: process_exit_def request_takes bindE_iffs Let_def send_packet_def delete_swap_def
      dest: unassign_sent)

text \<open>Memory's part: a process comes and goes, the first one memory sees.\<close>

lemma memory_life:
  assumes inv: "frames_ok m" and fresh: "processes_frames m = []" "level1_tables m = []" "level2_tables m = []"
    and pages: "pages_required m sz = Inr pages" "ceil_div pages (entriesPerTable (config m)) = Inr n"
  shows "\<exists>m1 m2. call_handler (memory_handlers addr sock) (request PROCESS_NEW [1, sz]) m = Inr (True, m1)
    \<and> answers sock m1 = answers sock m @ [fold (\<lambda>v p. add_u32 p v) [1, 0, 0]
         (create_packet (kernel_code PROCESS_MEMORY_READY) INITIAL_STREAM_SIZE)]
    \<and> call_handler (memory_handlers addr sock) (request PROCESS_EXIT [1, t, 0]) m1 = Inr (True, m2)
    \<and> answers sock m2 = answers sock m1 @ [fold (\<lambda>v p. add_u32 p v) [1]
         (create_packet (kernel_code PROCESS_EXIT_READY) INITIAL_STREAM_SIZE)]
    \<and> frames_bitmap m2 = frames_bitmap m \<and> swap_files m2 1 = None \<and> held m2 = []"
proof -
  let ?m = "m\<lparr>memory_access_counter := memory_access_counter m + 1\<rparr>"
  have ok: "frames_ok ?m" using frames_ok_cong [of ?m m] inv by simp
  then have fits: "bitmap_fits ?m" by (simp add: frames_ok_def)
  have pages': "pages_required ?m sz = Inr pages" "ceil_div pages (entriesPerTable (config ?m)) = Inr n"
    using pages by (simp_all add: pages_required_def)
  obtain m1 where m1: "process_new sock (request PROCESS_NEW [1, sz]) ?m = Inr (True, m1)"
      "sent m1 = sent m @ [(sock, fold (\<lambda>v p. add_u32 p v) [1, 0, 0]
         (create_packet (kernel_code PROCESS_MEMORY_READY) INITIAL_STREAM_SIZE))]"
    using process_new_eq [OF fits _ pages', of 1 sock] by (simp add: Let_def fresh)
  obtain m2 where m2: "process_exit sock (request PROCESS_EXIT [1, t, 0])
      (m1\<lparr>memory_access_counter := memory_access_counter m1 + 1\<rparr>) = Inr (True, m2)"
      "frames_bitmap m2 = frames_bitmap m" "swap_files m2 1 = None" "held m2 = held ?m"
    using new_then_exit [OF ok _ m1(1), of t "memory_access_counter m1 + 1"] by (auto simp: fresh)
  have "held ?m = []" by (simp add: held_def fresh)
  with m1 m2 process_exit_answer [OF m2(1)] show ?thesis
    by (intro exI [of _ m1] exI [of _ m2]) (simp add: call_memory answers_def)
qed

text \<open>A state of the system in which no interrupt was sent, and its steps.\<close>

definition snapshot :: "kernel \<Rightarrow> mem_state \<Rightarrow> cpu_state \<times> cpu_pc \<Rightarrow> nat \<Rightarrow> nat \<Rightarrow> nat \<Rightarrow> nat \<Rightarrow> system" where
  "snapshot k m c requests ans dispatches calls =
     \<lparr>ker = k, mem = m, proc = c, requests_read = requests, answers_read = ans, dispatches_read = dispatches,
      calls_read = calls, interrupts_read = 0\<rparr>"

lemma fresh_snapshot: "fresh_system ks level S \<Longrightarrow> S = snapshot (ker S) (mem S) (proc S) 0 0 0 0"
  by (cases S) (simp add: fresh_system_def snapshot_def)

lemma snapshot_sel [simp]:
  "ker (snapshot k m c rq an dp cl) = k" "mem (snapshot k m c rq an dp cl) = m" "proc (snapshot k m c rq an dp cl) = c"
  by (simp_all add: snapshot_def)

lemma snapshot_console:
  "delivered (console_packet p) q \<Longrightarrow> call_handler (kernel_handlers junk now sock) q k = Inr (b, k') \<Longrightarrow>
     sys_step srt addr ks (snapshot k m c rq an dp cl) (snapshot k' m c rq an dp cl)"
  using sys_step.console [of p q junk now sock "snapshot k m c rq an dp cl" b k'] by (simp add: snapshot_def)

lemma snapshot_request:
  "next_packet (memory_out k) rq q \<Longrightarrow> call_handler (memory_handlers addr ks) q m = Inr (b, m') \<Longrightarrow>
     sys_step srt addr ks (snapshot k m c rq an dp cl) (snapshot k m' c (Suc rq) an dp cl)"
  using sys_step.request [of "snapshot k m c rq an dp cl" q addr ks b m'] by (simp add: snapshot_def)

lemma snapshot_answer:
  "next_packet (answers ks m) an q \<Longrightarrow> call_handler (kernel_handlers junk now sock) q k = Inr (b, k') \<Longrightarrow>
     sys_step srt addr ks (snapshot k m c rq an dp cl) (snapshot k' m c rq (Suc an) dp cl)"
  using sys_step.answer [of ks "snapshot k m c rq an dp cl" q junk now sock b k'] by (simp add: snapshot_def)

lemma snapshot_dispatch:
  "next_packet (cpu_out k) dp q \<Longrightarrow> call_handler cpu_handlers q (fst c) = Inr (b, d) \<Longrightarrow>
     sys_step srt addr ks (snapshot k m c rq an dp cl) (snapshot k m (d, snd c) rq an (Suc dp) cl)"
  using sys_step.dispatch [of "snapshot k m c rq an dp cl" q b d] by (simp add: snapshot_def)

lemma snapshot_call:
  "next_packet (to_kernel (fst c)) cl q \<Longrightarrow> call_handler (kernel_handlers junk now sock) q k = Inr (b, k') \<Longrightarrow>
     sys_step srt addr ks (snapshot k m c rq an dp cl) (snapshot k' m c rq an dp (Suc cl))"
  using sys_step.call [of "snapshot k m c rq an dp cl" q junk now sock b k'] by (simp add: snapshot_def)

lemma snapshot_local:
  "run srt evs (k, n, e) = Some (k', n', e') \<Longrightarrow> \<forall>ev \<in> set evs. local_event ev \<Longrightarrow>
     (sys_step srt addr ks)\<^sup>*\<^sup>* (snapshot k m c rq an dp cl) (snapshot k' m c rq an dp cl)"
  using sys_local [of srt evs "snapshot k m c rq an dp cl" n e k' n' e'] by (simp add: snapshot_def list_all_iff)

lemma snapshot_exec:
  "exec_run n c = Some d \<Longrightarrow>
     (sys_step srt addr ks)\<^sup>*\<^sup>* (snapshot k m c rq an dp cl) (snapshot k m d rq an dp cl)"
  using sys_exec [of n "snapshot k m c rq an dp cl" d] by (simp add: snapshot_def)

lemma next_packet_at: "out = xs @ x # ys \<Longrightarrow> k = length xs \<Longrightarrow> delivered x q \<Longrightarrow> next_packet out k q"
  by (simp add: next_packet_def)

text \<open>The three parts, put together.\<close>

definition new_answer :: t_packet where
  "new_answer = fold (\<lambda>v p. add_u32 p v) [1, 0, 0] (create_packet (kernel_code PROCESS_MEMORY_READY) INITIAL_STREAM_SIZE)"

definition exit_answer :: t_packet where
  "exit_answer = fold (\<lambda>v p. add_u32 p v) [1] (create_packet (kernel_code PROCESS_EXIT_READY) INITIAL_STREAM_SIZE)"

lemma life_deliveries:
  "delivered (memory_request PROCESS_NEW [1, sz]) (request PROCESS_NEW [1, sz])"
  "delivered (memory_request PROCESS_EXIT [1, 0, 0]) (request PROCESS_EXIT [1, 0, 0])"
  "delivered new_answer (words_packet PROCESS_MEMORY_READY [1, 0, 0])"
  "delivered exit_answer (words_packet PROCESS_EXIT_READY [1])"
  unfolding words_packet_def new_answer_def exit_answer_def
  by (rule delivered_request delivered_words, simp)+

text \<open>From the console's packet to the arrival of the pcb at the CPU.\<close>

lemma dispatch_chain:
  assumes k: "call_handler (kernel_handlers blank_pcb 0 sock) (process_packet p) k0 = Inr (True, k1)"
      "run srt (replicate 4 Run_to_ready) (k1, 0, 0) = Some (k2, 0, 0)"
      "memory_out k2 = [memory_request PROCESS_NEW [1, proc_size p]]"
      "call_handler (kernel_handlers blank_pcb 0 0) (words_packet PROCESS_MEMORY_READY [1, 0, 0]) k2 = Inr (False, k3)"
      "run srt (replicate 3 Run_to_ready @ replicate 4 (Run_to_exec 0)) (k3, 0, 0) = Some (k4, 1, 0)"
      "cpu_out k4 = [pcb_packet P]"
    and m: "call_handler (memory_handlers addr ks) (request PROCESS_NEW [1, proc_size p]) m0 = Inr (True, m1)"
      "answers ks m1 = [new_answer]"
    and c: "call_handler cpu_handlers (received (cpu_code PCB_TO_CPU) (pcb_bytes P)) c0 = Inr (True, c1)"
    and d: "delivered (console_packet p) (process_packet p)"
      "delivered (pcb_packet P) (received (cpu_code PCB_TO_CPU) (pcb_bytes P))"
  shows "(sys_step srt addr ks)\<^sup>*\<^sup>* (snapshot k0 m0 (c0, AwaitPcb) 0 0 0 0)
     (snapshot k4 m1 (c1, AwaitPcb) (Suc 0) (Suc 0) (Suc 0) 0)"
proof -
  let ?R = "sys_step srt addr ks" and ?c0 = "(c0, AwaitPcb)" and ?c1 = "(c1, AwaitPcb)"
  note l = life_deliveries
  have "?R\<^sup>*\<^sup>* (snapshot k0 m0 ?c0 0 0 0 0) (snapshot k1 m0 ?c0 0 0 0 0)" by (rule r_into_rtranclp, rule snapshot_console [OF d(1) k(1)])
  also have "?R\<^sup>*\<^sup>* (snapshot k1 m0 ?c0 0 0 0 0) (snapshot k2 m0 ?c0 0 0 0 0)"
    by (rule snapshot_local [OF k(2)]) simp
  also have "?R\<^sup>*\<^sup>* (snapshot k2 m0 ?c0 0 0 0 0) (snapshot k2 m1 ?c0 (Suc 0) 0 0 0)"
    by (rule r_into_rtranclp, rule snapshot_request [OF next_packet_at [OF _ _ l(1)] m(1)]) (simp_all add: k(3))
  also have "?R\<^sup>*\<^sup>* (snapshot k2 m1 ?c0 (Suc 0) 0 0 0) (snapshot k3 m1 ?c0 (Suc 0) (Suc 0) 0 0)"
    by (rule r_into_rtranclp, rule snapshot_answer [OF next_packet_at [OF _ _ l(3)] k(4)]) (simp_all add: m(2))
  also have "?R\<^sup>*\<^sup>* (snapshot k3 m1 ?c0 (Suc 0) (Suc 0) 0 0) (snapshot k4 m1 ?c0 (Suc 0) (Suc 0) 0 0)"
    by (rule snapshot_local [OF k(5)]) auto
  also have "?R\<^sup>*\<^sup>* (snapshot k4 m1 ?c0 (Suc 0) (Suc 0) 0 0) (snapshot k4 m1 (c1, snd ?c0) (Suc 0) (Suc 0) (Suc 0) 0)"
    by (rule r_into_rtranclp, rule snapshot_dispatch [OF next_packet_at [OF _ _ d(2)], where b = True]) (simp_all add: k(6) c [simplified])
  finally show ?thesis by simp
qed

lemma life_chain:
  assumes k: "call_handler (kernel_handlers blank_pcb 0 sock) (process_packet p) k0 = Inr (True, k1)"
      "run srt (replicate 4 Run_to_ready) (k1, 0, 0) = Some (k2, 0, 0)"
      "memory_out k2 = [memory_request PROCESS_NEW [1, proc_size p]]"
      "call_handler (kernel_handlers blank_pcb 0 0) (words_packet PROCESS_MEMORY_READY [1, 0, 0]) k2 = Inr (False, k3)"
      "run srt (replicate 3 Run_to_ready @ replicate 4 (Run_to_exec 0)) (k3, 0, 0) = Some (k4, 1, 0)"
      "cpu_out k4 = [pcb_packet P]"
      "call_handler (kernel_handlers blank_pcb 0 0) (pcb_call EXIT_CALL B) k4 = Inr (True, k5)"
      "run srt (replicate 3 Run_exit) (k5, 0, 0) = Some (k6, 0, 1)"
      "memory_out k6 = memory_out k2 @ [memory_request PROCESS_EXIT [1, 0, 0]]"
      "call_handler (kernel_handlers blank_pcb 0 0) (words_packet PROCESS_EXIT_READY [1]) k6 = Inr (False, k7)"
    and m: "call_handler (memory_handlers addr ks) (request PROCESS_NEW [1, proc_size p]) m0 = Inr (True, m1)"
      "answers ks m1 = [new_answer]"
      "call_handler (memory_handlers addr ks) (request PROCESS_EXIT [1, 0, 0]) m1 = Inr (True, m2)"
      "answers ks m2 = answers ks m1 @ [exit_answer]"
    and c: "call_handler cpu_handlers (received (cpu_code PCB_TO_CPU) (pcb_bytes P)) c0 = Inr (True, c1)"
      "exec_run n (c1, AwaitPcb) = Some (c2, AwaitPcb)" "to_kernel c2 = [pcb_message EXIT_CALL B]"
    and d: "delivered (console_packet p) (process_packet p)"
      "delivered (pcb_packet P) (received (cpu_code PCB_TO_CPU) (pcb_bytes P))"
      "delivered (pcb_message EXIT_CALL B) (pcb_call EXIT_CALL B)"
  shows "(sys_step srt addr ks)\<^sup>*\<^sup>* (snapshot k0 m0 (c0, AwaitPcb) 0 0 0 0) (snapshot k7 m2 (c2, AwaitPcb) 2 2 1 1)"
proof -
  let ?R = "sys_step srt addr ks" and ?c0 = "(c0, AwaitPcb)" and ?c1 = "(c1, AwaitPcb)" and ?c2 = "(c2, AwaitPcb)"
  note l = life_deliveries
  have "?R\<^sup>*\<^sup>* (snapshot k0 m0 ?c0 0 0 0 0) (snapshot k4 m1 (c1, snd ?c0) (Suc 0) (Suc 0) (Suc 0) 0)"
    using dispatch_chain [OF k(1-6) m(1,2) c(1) d(1,2)] by simp
  also have "?R\<^sup>*\<^sup>* (snapshot k4 m1 (c1, snd ?c0) (Suc 0) (Suc 0) (Suc 0) 0) (snapshot k4 m1 ?c2 (Suc 0) (Suc 0) (Suc 0) 0)"
    by (rule snapshot_exec [where n = n]) (simp add: c(2))
  also have "?R\<^sup>*\<^sup>* (snapshot k4 m1 ?c2 (Suc 0) (Suc 0) (Suc 0) 0) (snapshot k5 m1 ?c2 (Suc 0) (Suc 0) (Suc 0) (Suc 0))"
    by (rule r_into_rtranclp, rule snapshot_call [OF next_packet_at [OF _ _ d(3)] k(7)]) (simp_all add: c(3))
  also have "?R\<^sup>*\<^sup>* (snapshot k5 m1 ?c2 (Suc 0) (Suc 0) (Suc 0) (Suc 0)) (snapshot k6 m1 ?c2 (Suc 0) (Suc 0) (Suc 0) (Suc 0))"
    by (rule snapshot_local [OF k(8)]) simp
  also have "?R\<^sup>*\<^sup>* (snapshot k6 m1 ?c2 (Suc 0) (Suc 0) (Suc 0) (Suc 0)) (snapshot k6 m2 ?c2 (Suc (Suc 0)) (Suc 0) (Suc 0) (Suc 0))"
    by (rule r_into_rtranclp, rule snapshot_request [OF next_packet_at [OF _ _ l(2), of _ "memory_out k2" "[]"] m(3)]) (simp_all add: k(3,9))
  also have "?R\<^sup>*\<^sup>* (snapshot k6 m2 ?c2 (Suc (Suc 0)) (Suc 0) (Suc 0) (Suc 0)) (snapshot k7 m2 ?c2 (Suc (Suc 0)) (Suc (Suc 0)) (Suc 0) (Suc 0))"
    by (rule r_into_rtranclp, rule snapshot_answer [OF next_packet_at [OF _ _ l(4), of _ "answers ks m1" "[]"] k(10)]) (simp_all add: m(2,4))
  finally have "?R\<^sup>*\<^sup>* (snapshot k0 m0 ?c0 0 0 0 0) (snapshot k7 m2 ?c2 (Suc (Suc 0)) (Suc (Suc 0)) (Suc 0) (Suc 0))"
    .
  then show ?thesis by (simp add: numeral_2_eq_2)
qed

lemma first_pcb_ok:
  assumes "wf_process p" and "length (process_bytes p) + 40 < 2 ^ 32"
  shows "wf_pcb (first_pcb p sock est)" and "length (pcb_bytes (first_pcb p sock est)) < 2 ^ 32"
    and "wf_pcb ((first_pcb p sock est)\<lparr>program_counter := c\<rparr>)"
    and "length (pcb_bytes ((first_pcb p sock est)\<lparr>program_counter := c\<rparr>)) < 2 ^ 32"
  using assms by (auto simp: first_pcb_def wf_pcb_def wf_process_def length_pcb_bytes process_bytes_def)

lemma sys_start_frames: "sys_start cs level cfg S \<Longrightarrow> 0 \<le> framesInMemory cfg \<Longrightarrow> frames_ok (mem S)"
  using sys_start_parts mem_reachable_inv by (force simp: mem_inv_def)

lemma system_life:
  assumes start: "sys_start cs (Suc l) cfg S0" and "cs \<noteq> ks" and "0 \<le> framesInMemory cfg"
    and fifo: "sortingAlgorithm (ker S0) = FIFO" and conn: "kernel_client_socket (fst (proc S0)) \<noteq> -1"
    and p: "wf_process p" "length (process_bytes p) + 40 < 2 ^ 32" "sock \<noteq> 0"
    and prog: "noops_then_exit n (proc_instructions p)"
    and pages: "pages_required (mem S0) (proc_size p) = Inr pages"
      "ceil_div pages (entriesPerTable (config (mem S0))) = Inr tables"
  shows "\<exists>S. (sys_step srt addr ks)\<^sup>*\<^sup>* S0 S
    \<and> console_out (ker S) = [(sock, console_code PROCESS_OK)]
    \<and> sem_multiprogram (ker S) = Suc l \<and> cpu_free (ker S) = 1
    \<and> snd (proc S) = AwaitPcb \<and> work (proc S) = 0
    \<and> frames_bitmap (mem S) = frames_bitmap (mem S0) \<and> swap_files (mem S) 1 = None \<and> held (mem S) = []"
proof -
  have fresh: "fresh_system ks (Suc l) S0" by (rule sys_start_fresh [OF start assms(2)])
  then obtain alg est a maxb dsock msock where k0: "ker S0 = kernel_up alg est a (Suc l) maxb dsock msock"
      "choose_scheduler alg = FIFO" "dsock \<noteq> -1" "msock \<noteq> -1"
    using fifo unfolding fresh_system_def by metis
  have idle: "idle_cpu (fst (proc S0))" using fresh conn by (simp add: fresh_system_def)
  have zero: "requests_read S0 = 0" "answers_read S0 = 0" "dispatches_read S0 = 0" "calls_read S0 = 0"
      "processes_frames (mem S0) = []" "level1_tables (mem S0) = []" "level2_tables (mem S0) = []"
      "answers ks (mem S0) = []" "snd (proc S0) = AwaitPcb"
    using fresh by (simp_all add: fresh_system_def)
  define P where "P = first_pcb p sock est"
  define B where "B = P\<lparr>program_counter := of_nat n + 1\<rparr>"
  have lp: "length (process_bytes p) < 2 ^ 32" using p(2) by simp
  note w = first_pcb_ok [OF p(1,2), folded P_def]
  have wP: "wf_pcb P" "length (pcb_bytes P) < 2 ^ 32" and wB: "wf_pcb B" "length (pcb_bytes B) < 2 ^ 32"
    using w by (simp_all add: B_def P_def)
  have fB: "client_socket B = sock" "pid B = 1" "page_table B = 0" "process_frames_index B = 0"
    by (simp_all add: B_def P_def first_pcb_def blank_pcb_def)
  obtain k1 k2 k3 k4 k5 k6 k7 where k:
    "call_handler (kernel_handlers blank_pcb 0 sock) (process_packet p) (ker S0) = Inr (True, k1)"
    "run srt (replicate 4 Run_to_ready) (k1, 0, 0) = Some (k2, 0, 0)"
    "memory_out k2 = [memory_request PROCESS_NEW [1, proc_size p]]"
    "call_handler (kernel_handlers blank_pcb 0 0) (words_packet PROCESS_MEMORY_READY [1, 0, 0]) k2 = Inr (False, k3)"
    "run srt (replicate 3 Run_to_ready @ replicate 4 (Run_to_exec 0)) (k3, 0, 0) = Some (k4, 1, 0)"
    "cpu_out k4 = [pcb_packet P]"
    "call_handler (kernel_handlers blank_pcb 0 0) (pcb_call EXIT_CALL B) k4 = Inr (True, k5)"
    "run srt (replicate 3 Run_exit) (k5, 0, 0) = Some (k6, 0, 1)"
    "memory_out k6 = memory_out k2 @ [memory_request PROCESS_EXIT [1, 0, 0]]"
    "call_handler (kernel_handlers blank_pcb 0 0) (words_packet PROCESS_EXIT_READY [1]) k6 = Inr (False, k7)"
    "console_out k7 = [(sock, console_code PROCESS_OK)]" "sem_multiprogram k7 = Suc l" "cpu_free k7 = 1"
    using kernel_life [OF p(1) lp k0(2) wB fB(1) p(3) fB(2) k0(3,4), of est a l maxb srt]
    unfolding k0(1) P_def [symmetric] fB by blast
  obtain c2 where c2: "exec_run (2 * n + 5) ((fst (proc S0))\<lparr>pcb := P, pcb_loaded := 1\<rparr>, AwaitPcb) = Some (c2, AwaitPcb)"
    "to_kernel c2 = [pcb_message EXIT_CALL B]" "work (c2, AwaitPcb) = 0"
    using cpu_life [OF idle, of n P] prog fresh
    by (auto simp: fresh_system_def B_def P_def first_pcb_def blank_pcb_def)
  have inv: "frames_ok (mem S0)" by (rule sys_start_frames [OF start assms(3)])
  obtain m1 m2 where m:
    "call_handler (memory_handlers addr ks) (request PROCESS_NEW [1, proc_size p]) (mem S0) = Inr (True, m1)"
    "answers ks m1 = [new_answer]"
    "call_handler (memory_handlers addr ks) (request PROCESS_EXIT [1, 0, 0]) m1 = Inr (True, m2)"
    "answers ks m2 = answers ks m1 @ [exit_answer]"
    "frames_bitmap m2 = frames_bitmap (mem S0)" "swap_files m2 1 = None" "held m2 = []"
    using memory_life [OF inv zero(5-7) pages, of addr ks 0] zero(8)
    by (auto simp: new_answer_def exit_answer_def)
  have a: "call_handler cpu_handlers (received (cpu_code PCB_TO_CPU) (pcb_bytes P)) (fst (proc S0))
      = Inr (True, (fst (proc S0))\<lparr>pcb := P, pcb_loaded := 1\<rparr>)"
    using pcb_arrives [OF wP] idle by (simp add: idle_cpu_def)
  have "(sys_step srt addr ks)\<^sup>*\<^sup>* S0 (snapshot k7 m2 (c2, AwaitPcb) 2 2 1 1)"
    using life_chain [OF k(1-10) m(1-4) a c2(1,2) delivered_process [OF p(1) lp] delivered_pcb(1) [OF wP]
      delivered_pcb(2) [OF wB]] fresh_snapshot [OF fresh] zero(9) by (metis prod.collapse)
  with k(11-13) m(5-7) c2(3) show ?thesis by (intro exI [of _ "snapshot k7 m2 (c2, AwaitPcb) 2 2 1 1"]) simp
qed

section \<open>A small system\<close>

definition small_kernel_config :: "string \<Rightarrow> t_kernel_config" where
  "small_kernel_config alg = \<lparr>kc_memoryIP = '''', kc_memoryPort = '''', kc_cpuIP = '''', kc_cpuPortDispatch = '''',
     kc_cpuPortInterrupt = '''', kc_listenPort = '''', kc_schedulerAlgorithm = alg, kc_initialEstimate = 10,
     kc_alpha = 0, kc_multiprogrammingLevel = 2, kc_maxBlockedTime = 100\<rparr>"

definition small_cpu_config :: t_cpu_config where
  "small_cpu_config = \<lparr>tlbEntryQty = 4, cpu_tlb_alg = ''FIFO'', cpu_delayNoOp = 1, memoryIP = '''', memoryPort = '''',
     dispatchListenPort = '''', interruptListenPort = ''''\<rparr>"

lemma small_start:
  "\<exists>S. sys_start 7 2 small_config S \<and> ker S = kernel_init alg 10 0 2 100
     \<and> kernel_client_socket (fst (proc S)) \<noteq> -1 \<and> (\<exists>x. mem S = small_memory\<lparr>sent := x\<rparr>)
     \<and> cpu_pageSize (fst (proc S)) = 4 \<and> cpu_entriesPerTable (fst (proc S)) = 2"
proof -
  let ?ws = "[of_int (pageSize small_config), of_int (entriesPerTable small_config)] :: u32 list"
  let ?p = "fold (\<lambda>v p. add_u32 p v) ?ws (create_packet (cpu_code TABLE_INFO_TO_CPU) INITIAL_STREAM_SIZE)"
  let ?q = "word_packet (cpu_code TABLE_INFO_TO_CPU) ?ws" and ?m = "small_memory\<lparr>sent := [(7, ?p)]\<rparr>"
  have d: "delivered ?p ?q" by (rule delivered_words) simp
  have m: "cpu_handshake_listener 7 [memory_code MEM_HANDSHAKE] small_memory = Some ?m"
    by (simp add: cpu_handshake_def send_packet_def small_memory_def memory_init_def small_config_def Let_def)
  have "words_left ?q ?ws" by (rule words_left_packet) simp
  from take_words(2) [OF this, of "\<lambda>ps ept. Inr ((cpu_start small_cpu_config blank_pcb (0, 0))
      \<lparr>cpu_pageSize := sint ps, cpu_entriesPerTable := sint ept\<rparr>)"]
  obtain c where c: "cpu_main small_cpu_config blank_pcb (0, 0) 5 (Some ?q) = Inr (Inr c)" "connections c = 0"
      "cpu_pageSize c = 4" "cpu_entriesPerTable c = 2"
    by (auto simp: cpu_main_def memory_handshake_def word_packet_def cpu_start_def small_config_def)
  have "sys_start 7 2 small_config \<lparr>ker = kernel_main (small_kernel_config alg) 0 0 0 0, mem = ?m,
      proc = (dispatch_connected 6 c, AwaitPcb), requests_read = 0, answers_read = 0, dispatches_read = 0,
      calls_read = 0, interrupts_read = 0\<rparr>"
    by (rule sys_start.intros [OF small_memory_eq m _ d c(1)]) (simp_all add: small_kernel_config_def)
  then show ?thesis using c(2-4)
    by (intro exI) (auto simp: kernel_main_init kernel_init_def small_kernel_config_def dispatch_connected_def Let_def)
qed

definition exit_process_of :: "u32 \<Rightarrow> t_process" where
  "exit_process_of sz = \<lparr>proc_size = sz, proc_instructions = [noop, \<lparr>ins_id = ''EXIT'', params = []\<rparr>]\<rparr>"

lemma exit_process_ok:
  "wf_process (exit_process_of sz)" "length (process_bytes (exit_process_of sz)) + 40 < 2 ^ 32"
  "noops_then_exit 1 (proc_instructions (exit_process_of sz))"
  by (simp_all add: exit_process_of_def wf_process_def wf_instruction_def c_string_def noop_def process_bytes_def
    enc_LIST_def noops_then_exit_def is_noop_def)

lemma sys_steps_reachable:
  "(sys_step srt addr ks)\<^sup>*\<^sup>* S0 S \<Longrightarrow> sys_reachable srt addr ks cs level cfg S0 \<Longrightarrow>
     sys_reachable srt addr ks cs level cfg S"
  by (induction rule: rtranclp_induct) (auto intro: sys_reachable.step)

end
