(* ===== verification/System_Srt.thy ===== *)
theory System_Srt
  imports System_Life
begin

text \<open>
  What goes wrong under shortest remaining time. The four programs together, from their start: a second
  process is admitted while the first one runs, so the kernel sends an interrupt, and the CPU finds it
  pending after the first process has made its EXIT call.
\<close>

section \<open>The kernel's part\<close>

lemma handle_interruption_eq:
  assumes "wf_pcb p" and "length (pcb_bytes p) < 2 ^ 32"
  shows "handle_interruption now (pcb_call INTERRUPT_DISPATCH p) s = Inr (True,
     s\<lparr>heap := (heap s)(next_addr s \<mapsto> p\<lparr>left_burst_estimation := left_burst_estimation p - (now - toExecTime s)\<rparr>),
       next_addr := next_addr s + 1, ready_q := pQueue_put (ready_q s) (next_addr s),
       ready_for_exec := ready_for_exec s + 1, cpu_free := cpu_free s + 1,
       interrupt_ready := interrupt_ready s + 1\<rparr>)"
  using take_pcb_call [OF assms, of INTERRUPT_DISPATCH] by (simp add: handle_interruption_def alloc_pcb_def Let_def)

lemma sorts_single: "sorts srt \<Longrightarrow> srt le [x] = [x]"
  unfolding sorts_def by (metis mset_single_iff mset.simps(1) mset_single_iff_right mset.simps(2))

lemma srt_kernel:
  assumes p: "wf_process p" "length (process_bytes p) < 2 ^ 32"
    and q: "wf_process q" "length (process_bytes q) < 2 ^ 32"
    and alg: "choose_scheduler alg = SRT" and srt: "sorts srt"
    and ret: "wf_pcb ret" "length (pcb_bytes ret) < 2 ^ 32" and conn: "dsock \<noteq> -1" "msock \<noteq> -1"
  shows "\<exists>k1 k2 k3 k4 k5 k6 k7 k8 k9 k10.
      call_handler (kernel_handlers blank_pcb 0 sock) (process_packet p) (kernel_up alg est al (Suc (Suc l)) maxb dsock msock) = Inr (True, k1)
    \<and> run srt (replicate 4 Run_to_ready) (k1, 0, 0) = Some (k2, 0, 0)
    \<and> memory_out k2 = [memory_request PROCESS_NEW [1, proc_size p]]
    \<and> call_handler (kernel_handlers blank_pcb 0 0) (words_packet PROCESS_MEMORY_READY [1, 0, 0]) k2 = Inr (False, k3)
    \<and> run srt (replicate 3 Run_to_ready @ replicate 4 (Run_to_exec 0)) (k3, 0, 0) = Some (k4, 1, 0)
    \<and> cpu_out k4 = [pcb_packet (first_pcb p sock est)]
    \<and> call_handler (kernel_handlers blank_pcb 0 sock') (process_packet q) k4 = Inr (True, k5)
    \<and> run srt (replicate 4 Run_to_ready) (k5, 1, 0) = Some (k6, 1, 0)
    \<and> memory_out k6 = memory_out k2 @ [memory_request PROCESS_NEW [2, proc_size q]]
    \<and> call_handler (kernel_handlers blank_pcb 0 0) (words_packet PROCESS_MEMORY_READY [2, 1, 1]) k6 = Inr (False, k7)
    \<and> run srt (replicate 2 Run_to_ready) (k7, 1, 0) = Some (k8, 1, 0)
    \<and> interrupts_out k8 = [cpu_code INTERRUPT]
    \<and> call_handler (kernel_handlers blank_pcb 0 0) (pcb_call EXIT_CALL ret) k8 = Inr (True, k9)
    \<and> call_handler (kernel_handlers blank_pcb 0 0) (pcb_call INTERRUPT_DISPATCH ret) k9 = Inr (True, k10)
    \<and> heap k10 2 = Some ret \<and> heap k10 3 = Some ret
    \<and> lib_queue (exit_q k10) = [2] \<and> lib_queue (ready_q k10) = [1, 3] \<and> cpu_free k10 = 2"
  unfolding kernel_up_def kernel_init_def first_pcb_def
  by (simp add: run_simps receive_process_eq [OF p] receive_process_eq [OF q] exit_op_eq [OF ret]
       handle_interruption_eq [OF ret] conn alg numeral_eq_Suc sorts_single [OF srt]
       page_table_to_pid_step blank_pcb_def)

section \<open>The CPU's part\<close>

lemma srt_cpu:
  assumes idle: "idle_cpu c" and prog: "noops_then_exit n (instructions p)" and pc: "program_counter p = 0"
  shows "\<exists>c1 c2. exec_run (2 * n + 1) (c\<lparr>pcb := p, pcb_loaded := 1\<rparr>, AwaitPcb) = Some (c1, LoopHead)
    \<and> to_kernel c1 = to_kernel c
    \<and> header_handler [cpu_code INTERRUPT] c1 = Inr (c1\<lparr>new_interruption := True\<rparr>)
    \<and> exec_run 3 (c1\<lparr>new_interruption := True\<rparr>, LoopHead) = Some (c2, AwaitIdle True)
    \<and> to_kernel c2 = to_kernel c @ [pcb_message EXIT_CALL (p\<lparr>program_counter := of_nat n + 1\<rparr>),
        pcb_message INTERRUPT_DISPATCH (p\<lparr>program_counter := of_nat n + 1\<rparr>)]
    \<and> cpu_bussy c2 = 0"
proof -
  let ?s = "c\<lparr>pcb := p, pcb_loaded := 0, cpu_bussy := 1\<rparr>"
  have "noop_run 0 n ?s"
    using idle prog pc by (simp add: noop_run_def noops_then_exit_def idle_cpu_def running_def at_counter_def)
  from exec_noops [OF this] obtain c1 where c1: "exec_run (2 * n) (?s, LoopHead) = Some (c1, LoopHead)"
      "c1 = ?s\<lparr>pcb := p\<lparr>program_counter := of_nat n\<rparr>, slept := slept c1\<rparr>"
    by auto
  define z where "z = slept c1"
  have c1': "c1 = ?s\<lparr>pcb := p\<lparr>program_counter := of_nat n\<rparr>, slept := z\<rparr>" using c1(2) by (simp add: z_def)
  have "exec_step (c\<lparr>pcb := p, pcb_loaded := 1\<rparr>, AwaitPcb) = Inr (Some (?s, LoopHead))"
    using idle by (simp add: exec_step_def idle_cpu_def)
  then have r: "exec_run (2 * n + 1) (c\<lparr>pcb := p, pcb_loaded := 1\<rparr>, AwaitPcb) = Some (c1, LoopHead)"
    using c1(1) by simp
  let ?i = "c1\<lparr>new_interruption := True\<rparr>" and ?q = "p\<lparr>program_counter := of_nat n + 1\<rparr>"
  have "running ?i" "at_counter n ?i" "n < length (instructions (pcb ?i))"
      "burst_end (instructions (pcb ?i) ! n) ((pcb ?i)\<lparr>program_counter := of_nat n + 1\<rparr>) = Some (EXIT_CALL, ?q)"
      "new_interruption ?i" "cpu_bussy ?i = 1" "to_kernel c1 = to_kernel c"
    using idle prog by (simp_all add: c1' running_def at_counter_def noops_then_exit_def idle_cpu_def burst_end_def)
  with call_then_interrupt [OF this(1-6)] r show ?thesis
    by (fastforce simp: call_handler_def cpu_handlers_def receive_interruption_def create_packet_def)
qed

text \<open>An execution thread that waits for ever, whatever the other programs do.\<close>

definition cpu_stuck :: "t_packet list \<Rightarrow> system \<Rightarrow> bool" where
  "cpu_stuck out S \<longleftrightarrow> snd (proc S) = AwaitIdle True \<and> cpu_bussy (fst (proc S)) = 0 \<and> to_kernel (fst (proc S)) = out"

lemma cpu_stuck_for_ever:
  "(sys_step srt addr ks)\<^sup>*\<^sup>* S S' \<Longrightarrow> cpu_stuck out S \<Longrightarrow> cpu_stuck out S'"
proof (induction rule: rtranclp_induct)
  case (step S1 S2)
  from step.hyps(2) step.IH [OF step.prems] show ?case
  proof (cases rule: sys_step.cases)
    case (dispatch q b c)
    then show ?thesis using step.IH [OF step.prems] cpu_handlers_keep by (simp add: cpu_stuck_def)
  next
    case (exec c)
    then show ?thesis using step.IH [OF step.prems] by (cases "proc S1") (simp add: cpu_stuck_def exec_step_def)
  qed (use step.IH [OF step.prems] in \<open>simp_all add: cpu_stuck_def interruption_locked_def\<close>)
qed

section \<open>Memory's part: two processes come\<close>

definition second_answer :: t_packet where
  "second_answer = fold (\<lambda>v p. add_u32 p v) [2, 1, 1] (create_packet (kernel_code PROCESS_MEMORY_READY) INITIAL_STREAM_SIZE)"

lemma srt_deliveries:
  "delivered (memory_request PROCESS_NEW [2, sz]) (request PROCESS_NEW [2, sz])"
  "delivered second_answer (words_packet PROCESS_MEMORY_READY [2, 1, 1])"
  unfolding words_packet_def second_answer_def
  by (rule delivered_request delivered_words, simp)+

lemma srt_memory:
  assumes inv: "frames_ok m" and fresh: "processes_frames m = []" "level1_tables m = []" "level2_tables m = []"
    and pages: "pages_required m sz = Inr pages" "ceil_div pages (entriesPerTable (config m)) = Inr n"
    and pages': "pages_required m sz' = Inr pages'" "ceil_div pages' (entriesPerTable (config m)) = Inr n'"
  shows "\<exists>m1 m2. call_handler (memory_handlers addr sock) (request PROCESS_NEW [1, sz]) m = Inr (True, m1)
    \<and> answers sock m1 = answers sock m @ [new_answer]
    \<and> call_handler (memory_handlers addr sock) (request PROCESS_NEW [2, sz']) m1 = Inr (True, m2)
    \<and> answers sock m2 = answers sock m1 @ [second_answer]"
proof -
  let ?m = "m\<lparr>memory_access_counter := memory_access_counter m + 1\<rparr>"
  have fits: "bitmap_fits ?m" using inv by (simp add: frames_ok_def bitmap_fits_def)
  have p: "pages_required ?m sz = Inr pages" "ceil_div pages (entriesPerTable (config ?m)) = Inr n"
    using pages by (simp_all add: pages_required_def)
  obtain m1 where m1: "process_new sock (request PROCESS_NEW [1, sz]) ?m = Inr (True, m1)"
      "sent m1 = sent m @ [(sock, new_answer)]" "config m1 = config m"
      "length (frames_bitmap m1) = length (frames_bitmap m)" "length (processes_frames m1) = 1" "length (level1_tables m1) = 1"
    using process_new_eq [OF fits _ p, of 1 sock] by (simp add: Let_def fresh new_answer_def)
  let ?m1 = "m1\<lparr>memory_access_counter := memory_access_counter m1 + 1\<rparr>"
  have fits1: "bitmap_fits ?m1" using fits m1(3,4) by (simp add: bitmap_fits_def)
  have p1: "pages_required ?m1 sz' = Inr pages'" "ceil_div pages' (entriesPerTable (config ?m1)) = Inr n'"
    using pages' m1(3) by (simp_all add: pages_required_def)
  obtain m2 where m2: "process_new sock (request PROCESS_NEW [2, sz']) ?m1 = Inr (True, m2)"
      "sent m2 = sent m1 @ [(sock, second_answer)]"
    using process_new_eq [OF fits1 _ p1, of 2 sock] m1(5,6) by (simp add: Let_def second_answer_def)
  from m1 m2 show ?thesis
    by (intro exI [of _ m1] exI [of _ m2]) (simp add: call_memory answers_def)
qed

section \<open>The run\<close>

lemma srt_chain_admit:
  assumes k: "call_handler (kernel_handlers blank_pcb 0 sock) (process_packet p) k0 = Inr (True, k1)"
      "run srt (replicate 4 Run_to_ready) (k1, 0, 0) = Some (k2, 0, 0)"
      "memory_out k2 = [memory_request PROCESS_NEW [1, proc_size p]]"
      "call_handler (kernel_handlers blank_pcb 0 0) (words_packet PROCESS_MEMORY_READY [1, 0, 0]) k2 = Inr (False, k3)"
      "run srt (replicate 3 Run_to_ready @ replicate 4 (Run_to_exec 0)) (k3, 0, 0) = Some (k4, 1, 0)"
      "cpu_out k4 = [pcb_packet P]"
      "call_handler (kernel_handlers blank_pcb 0 sock') (process_packet q) k4 = Inr (True, k5)"
      "run srt (replicate 4 Run_to_ready) (k5, 1, 0) = Some (k6, 1, 0)"
      "memory_out k6 = memory_out k2 @ [memory_request PROCESS_NEW [2, proc_size q]]"
      "call_handler (kernel_handlers blank_pcb 0 0) (words_packet PROCESS_MEMORY_READY [2, 1, 1]) k6 = Inr (False, k7)"
      "run srt (replicate 2 Run_to_ready) (k7, 1, 0) = Some (k8, 1, 0)"
    and m: "call_handler (memory_handlers addr ks) (request PROCESS_NEW [1, proc_size p]) m0 = Inr (True, m1)"
      "answers ks m1 = [new_answer]"
      "call_handler (memory_handlers addr ks) (request PROCESS_NEW [2, proc_size q]) m1 = Inr (True, m2)"
      "answers ks m2 = answers ks m1 @ [second_answer]"
    and c: "call_handler cpu_handlers (received (cpu_code PCB_TO_CPU) (pcb_bytes P)) c0 = Inr (True, c1)"
      "exec_run i (c1, AwaitPcb) = Some (c2, LoopHead)"
    and d: "delivered (console_packet p) (process_packet p)" "delivered (console_packet q) (process_packet q)"
      "delivered (pcb_packet P) (received (cpu_code PCB_TO_CPU) (pcb_bytes P))"
  shows "(sys_step srt addr ks)\<^sup>*\<^sup>* (snapshot k0 m0 (c0, AwaitPcb) 0 0 0 0) (snapshot k8 m2 (c2, LoopHead) 2 2 1 0)"
proof -
  let ?R = "sys_step srt addr ks" and ?c0 = "(c0, AwaitPcb)" and ?c1 = "(c1, AwaitPcb)" and ?c2 = "(c2, LoopHead)"
  note l = life_deliveries srt_deliveries
  have "?R\<^sup>*\<^sup>* (snapshot k0 m0 ?c0 0 0 0 0) (snapshot k4 m1 (c1, snd ?c0) (Suc 0) (Suc 0) (Suc 0) 0)"
    using dispatch_chain [OF k(1-6) m(1,2) c(1) d(1,3)] by simp
  also have "?R\<^sup>*\<^sup>* (snapshot k4 m1 (c1, snd ?c0) (Suc 0) (Suc 0) (Suc 0) 0) (snapshot k4 m1 ?c2 (Suc 0) (Suc 0) (Suc 0) 0)"
    by (rule snapshot_exec [where n = i]) (simp add: c(2))
  also have "?R\<^sup>*\<^sup>* (snapshot k4 m1 ?c2 (Suc 0) (Suc 0) (Suc 0) 0) (snapshot k5 m1 ?c2 (Suc 0) (Suc 0) (Suc 0) 0)"
    by (rule r_into_rtranclp, rule snapshot_console [OF d(2) k(7)])
  also have "?R\<^sup>*\<^sup>* (snapshot k5 m1 ?c2 (Suc 0) (Suc 0) (Suc 0) 0) (snapshot k6 m1 ?c2 (Suc 0) (Suc 0) (Suc 0) 0)"
    by (rule snapshot_local [OF k(8)]) simp
  also have "?R\<^sup>*\<^sup>* (snapshot k6 m1 ?c2 (Suc 0) (Suc 0) (Suc 0) 0) (snapshot k6 m2 ?c2 (Suc (Suc 0)) (Suc 0) (Suc 0) 0)"
    by (rule r_into_rtranclp, rule snapshot_request [OF next_packet_at [OF _ _ l(5), where xs = "memory_out k2" and ys = "[]"] m(3)]) (simp_all add: k(3,9))
  also have "?R\<^sup>*\<^sup>* (snapshot k6 m2 ?c2 (Suc (Suc 0)) (Suc 0) (Suc 0) 0) (snapshot k7 m2 ?c2 (Suc (Suc 0)) (Suc (Suc 0)) (Suc 0) 0)"
    by (rule r_into_rtranclp, rule snapshot_answer [OF next_packet_at [OF _ _ l(6), of _ "answers ks m1" "[]"] k(10)]) (simp_all add: m(2,4))
  also have "?R\<^sup>*\<^sup>* (snapshot k7 m2 ?c2 (Suc (Suc 0)) (Suc (Suc 0)) (Suc 0) 0) (snapshot k8 m2 ?c2 (Suc (Suc 0)) (Suc (Suc 0)) (Suc 0) 0)"
    by (rule snapshot_local [OF k(11)]) simp
  finally show ?thesis by (simp add: numeral_2_eq_2)
qed

lemma interrupted_call:
  "next_packet (to_kernel (fst c)) cl q \<Longrightarrow> call_handler (kernel_handlers junk now sock) q k = Inr (b, k') \<Longrightarrow>
     sys_step srt addr ks ((snapshot k m c rq an dp cl)\<lparr>interrupts_read := i\<rparr>)
       ((snapshot k' m c rq an dp (Suc cl))\<lparr>interrupts_read := i\<rparr>)"
  using sys_step.call [of "(snapshot k m c rq an dp cl)\<lparr>interrupts_read := i\<rparr>" q junk now sock b k']
  by (simp add: snapshot_def)

lemma srt_chain_interrupt:
  assumes "interrupts_out k8 = [cpu_code INTERRUPT]"
    and k: "call_handler (kernel_handlers blank_pcb 0 0) (pcb_call EXIT_CALL B) k8 = Inr (True, k9)"
      "call_handler (kernel_handlers blank_pcb 0 0) (pcb_call INTERRUPT_DISPATCH B) k9 = Inr (True, k10)"
    and c: "header_handler [cpu_code INTERRUPT] c2 = Inr c3" "exec_run j (c3, LoopHead) = Some (c4, AwaitIdle True)"
      "to_kernel c4 = [pcb_message EXIT_CALL B, pcb_message INTERRUPT_DISPATCH B]"
    and d: "delivered (pcb_message EXIT_CALL B) (pcb_call EXIT_CALL B)"
      "delivered (pcb_message INTERRUPT_DISPATCH B) (pcb_call INTERRUPT_DISPATCH B)"
  shows "(sys_step srt addr ks)\<^sup>*\<^sup>* (snapshot k8 m (c2, LoopHead) rq an dp 0)
     ((snapshot k10 m (c4, AwaitIdle True) rq an dp 2)\<lparr>interrupts_read := 1\<rparr>)"
proof -
  let ?R = "sys_step srt addr ks"
  let ?S = "\<lambda>k c n. (snapshot k m c rq an dp n)\<lparr>interrupts_read := 1\<rparr>"
  have np: "next_packet (to_kernel (fst (c4, AwaitIdle True))) 0 (pcb_call EXIT_CALL B)"
      "next_packet (to_kernel (fst (c4, AwaitIdle True))) (Suc 0) (pcb_call INTERRUPT_DISPATCH B)"
    using d c(3) by (simp_all add: next_packet_def)
  have "?R\<^sup>*\<^sup>* (snapshot k8 m (c2, LoopHead) rq an dp 0) (?S k8 (c3, LoopHead) 0)"
    using sys_step.interrupt [of "snapshot k8 m (c2, LoopHead) rq an dp 0" c3] assms(1) c(1)
    by (intro r_into_rtranclp) (simp add: snapshot_def interruption_locked_def)
  also have "?R\<^sup>*\<^sup>* (?S k8 (c3, LoopHead) 0) (?S k8 (c4, AwaitIdle True) 0)"
    using sys_exec [of j "?S k8 (c3, LoopHead) 0"] c(2) by (simp add: snapshot_def)
  also have "?R\<^sup>*\<^sup>* (?S k8 (c4, AwaitIdle True) 0) (?S k9 (c4, AwaitIdle True) (Suc 0))"
    by (rule r_into_rtranclp, rule interrupted_call [OF np(1) k(1)])
  also have "?R\<^sup>*\<^sup>* (?S k9 (c4, AwaitIdle True) (Suc 0)) (?S k10 (c4, AwaitIdle True) (Suc (Suc 0)))"
    by (rule r_into_rtranclp, rule interrupted_call [OF np(2) k(2)])
  finally show ?thesis by (simp add: numeral_2_eq_2)
qed

text \<open>
  C20. From the start of all four programs with an SRT kernel there is a run in which a second
  process becomes ready while the first one runs, the interrupt reaches the CPU before the first
  one's EXIT, and the CPU sends its pcb twice: the same process is then both in exit_q and in
  ready_q, the kernel counts two free CPUs, and in every continuation the CPU waits for ever and
  sends nothing more.
\<close>

theorem srt_process_duplicated:
  assumes start: "sys_start cs (Suc (Suc l)) cfg S0" and "cs \<noteq> ks" and "0 \<le> framesInMemory cfg"
    and srt: "sortingAlgorithm (ker S0) = SRT" "sorts srt" and conn: "kernel_client_socket (fst (proc S0)) \<noteq> -1"
    and p: "wf_process p" "length (process_bytes p) + 40 < 2 ^ 32" "noops_then_exit n (proc_instructions p)"
    and q: "wf_process q" "length (process_bytes q) < 2 ^ 32"
    and pages: "pages_required (mem S0) (proc_size p) = Inr pages"
      "ceil_div pages (entriesPerTable (config (mem S0))) = Inr tables"
    and pages': "pages_required (mem S0) (proc_size q) = Inr pages'"
      "ceil_div pages' (entriesPerTable (config (mem S0))) = Inr tables'"
  shows "\<exists>S a b pcb. (sys_step srt addr ks)\<^sup>*\<^sup>* S0 S
    \<and> a \<in> set (lib_queue (exit_q (ker S))) \<and> b \<in> set (lib_queue (ready_q (ker S)))
    \<and> heap (ker S) a = Some pcb \<and> heap (ker S) b = Some pcb \<and> cpu_free (ker S) = 2
    \<and> (\<forall>S'. (sys_step srt addr ks)\<^sup>*\<^sup>* S S' \<longrightarrow>
         snd (proc S') = AwaitIdle True \<and> to_kernel (fst (proc S')) = to_kernel (fst (proc S)))"
proof -
  have fresh: "fresh_system ks (Suc (Suc l)) S0" by (rule sys_start_fresh [OF start assms(2)])
  then obtain alg est a maxb dsock msock where k0: "ker S0 = kernel_up alg est a (Suc (Suc l)) maxb dsock msock"
      "choose_scheduler alg = SRT" "dsock \<noteq> -1" "msock \<noteq> -1"
    using srt(1) unfolding fresh_system_def by metis
  have idle: "idle_cpu (fst (proc S0))" using fresh conn by (simp add: fresh_system_def)
  have zero: "processes_frames (mem S0) = []" "level1_tables (mem S0) = []" "level2_tables (mem S0) = []"
      "answers ks (mem S0) = []" "snd (proc S0) = AwaitPcb" "to_kernel (fst (proc S0)) = []"
    using fresh by (simp_all add: fresh_system_def)
  define P where "P = first_pcb p 9 est"
  define B where "B = P\<lparr>program_counter := of_nat n + 1\<rparr>"
  have lp: "length (process_bytes p) < 2 ^ 32" using p(2) by simp
  note w = first_pcb_ok [OF p(1,2), folded P_def]
  have wP: "wf_pcb P" "length (pcb_bytes P) < 2 ^ 32" and wB: "wf_pcb B" "length (pcb_bytes B) < 2 ^ 32"
    using w by (simp_all add: B_def P_def)
  obtain k1 k2 k3 k4 k5 k6 k7 k8 k9 k10 where k:
    "call_handler (kernel_handlers blank_pcb 0 9) (process_packet p) (ker S0) = Inr (True, k1)"
    "run srt (replicate 4 Run_to_ready) (k1, 0, 0) = Some (k2, 0, 0)"
    "memory_out k2 = [memory_request PROCESS_NEW [1, proc_size p]]"
    "call_handler (kernel_handlers blank_pcb 0 0) (words_packet PROCESS_MEMORY_READY [1, 0, 0]) k2 = Inr (False, k3)"
    "run srt (replicate 3 Run_to_ready @ replicate 4 (Run_to_exec 0)) (k3, 0, 0) = Some (k4, 1, 0)"
    "cpu_out k4 = [pcb_packet P]"
    "call_handler (kernel_handlers blank_pcb 0 8) (process_packet q) k4 = Inr (True, k5)"
    "run srt (replicate 4 Run_to_ready) (k5, 1, 0) = Some (k6, 1, 0)"
    "memory_out k6 = memory_out k2 @ [memory_request PROCESS_NEW [2, proc_size q]]"
    "call_handler (kernel_handlers blank_pcb 0 0) (words_packet PROCESS_MEMORY_READY [2, 1, 1]) k6 = Inr (False, k7)"
    "run srt (replicate 2 Run_to_ready) (k7, 1, 0) = Some (k8, 1, 0)"
    "interrupts_out k8 = [cpu_code INTERRUPT]"
    "call_handler (kernel_handlers blank_pcb 0 0) (pcb_call EXIT_CALL B) k8 = Inr (True, k9)"
    "call_handler (kernel_handlers blank_pcb 0 0) (pcb_call INTERRUPT_DISPATCH B) k9 = Inr (True, k10)"
    "heap k10 2 = Some B" "heap k10 3 = Some B" "lib_queue (exit_q k10) = [2]" "lib_queue (ready_q k10) = [1, 3]"
    "cpu_free k10 = 2"
    using srt_kernel [OF p(1) lp q k0(2) srt(2) wB k0(3,4), of 9 est a l maxb 8]
    unfolding k0(1) P_def [symmetric] by blast
  obtain c1 c2 where c: "exec_run (2 * n + 1) ((fst (proc S0))\<lparr>pcb := P, pcb_loaded := 1\<rparr>, AwaitPcb) = Some (c1, LoopHead)"
    "header_handler [cpu_code INTERRUPT] c1 = Inr (c1\<lparr>new_interruption := True\<rparr>)"
    "exec_run 3 (c1\<lparr>new_interruption := True\<rparr>, LoopHead) = Some (c2, AwaitIdle True)"
    "to_kernel c2 = [pcb_message EXIT_CALL B, pcb_message INTERRUPT_DISPATCH B]" "cpu_bussy c2 = 0"
    using srt_cpu [OF idle, of n P] p(3) zero(6)
    by (auto simp: B_def P_def first_pcb_def blank_pcb_def)
  have inv: "frames_ok (mem S0)" by (rule sys_start_frames [OF start assms(3)])
  obtain m1 m2 where m:
    "call_handler (memory_handlers addr ks) (request PROCESS_NEW [1, proc_size p]) (mem S0) = Inr (True, m1)"
    "answers ks m1 = [new_answer]"
    "call_handler (memory_handlers addr ks) (request PROCESS_NEW [2, proc_size q]) m1 = Inr (True, m2)"
    "answers ks m2 = answers ks m1 @ [second_answer]"
    using srt_memory [OF inv zero(1-3) pages pages', of addr ks] zero(4) by auto
  have a: "call_handler cpu_handlers (received (cpu_code PCB_TO_CPU) (pcb_bytes P)) (fst (proc S0))
      = Inr (True, (fst (proc S0))\<lparr>pcb := P, pcb_loaded := 1\<rparr>)"
    using pcb_arrives [OF wP] idle by (simp add: idle_cpu_def)
  let ?S = "(snapshot k10 m2 (c2, AwaitIdle True) 2 2 1 2)\<lparr>interrupts_read := 1\<rparr>"
  have "S0 = snapshot (ker S0) (mem S0) (fst (proc S0), AwaitPcb) 0 0 0 0"
    using fresh_snapshot [OF fresh] zero(5) by (metis prod.collapse)
  then have "(sys_step srt addr ks)\<^sup>*\<^sup>* S0 (snapshot k8 m2 (c1, LoopHead) 2 2 1 0)"
    using srt_chain_admit [OF k(1-11) m a c(1) delivered_process [OF p(1) lp] delivered_process [OF q] delivered_pcb(1) [OF wP]]
    by simp
  also have "(sys_step srt addr ks)\<^sup>*\<^sup>* (snapshot k8 m2 (c1, LoopHead) 2 2 1 0) ?S"
    by (rule srt_chain_interrupt [OF k(12-14) c(2-4) delivered_pcb(2) [OF wB] delivered_pcb(2) [OF wB]])
  finally have r: "(sys_step srt addr ks)\<^sup>*\<^sup>* S0 ?S" .
  have "cpu_stuck (to_kernel c2) ?S" using c(5) by (simp add: cpu_stuck_def)
  then have "cpu_stuck (to_kernel c2) S'" if "(sys_step srt addr ks)\<^sup>*\<^sup>* ?S S'" for S'
    using cpu_stuck_for_ever [OF that] by blast
  with r k(15-19) show ?thesis
    by (intro exI [of _ ?S] exI [of _ 2] exI [of _ 3] exI [of _ B]) (auto simp: cpu_stuck_def)
qed

theorem srt_process_duplicated_witness:
  "\<exists>S0 S a b pcb. sys_start 7 2 small_config S0
    \<and> (sys_step insertion_sort \<lparr>swap_block = [], frame_record = 0\<rparr> 8)\<^sup>*\<^sup>* S0 S
    \<and> a \<in> set (lib_queue (exit_q (ker S))) \<and> b \<in> set (lib_queue (ready_q (ker S)))
    \<and> heap (ker S) a = Some pcb \<and> heap (ker S) b = Some pcb \<and> cpu_free (ker S) = 2"
proof -
  obtain S0 x where S0: "sys_start 7 2 small_config S0" "ker S0 = kernel_init ''SRT'' 10 0 2 100"
      "kernel_client_socket (fst (proc S0)) \<noteq> -1" "mem S0 = small_memory\<lparr>sent := x\<rparr>"
    using small_start by blast
  have start: "sys_start 7 (Suc (Suc 0)) small_config S0" using S0(1) by (simp add: numeral_2_eq_2)
  have alg: "sortingAlgorithm (ker S0) = SRT" by (simp add: S0(2) kernel_init_def choose_scheduler_def)
  have pages: "pages_required (mem S0) (proc_size (exit_process_of 8)) = Inr 2"
      "ceil_div 2 (entriesPerTable (config (mem S0))) = Inr 1"
    using small_pages small_memory_simps by (simp_all add: S0(4) small_counted_def pages_required_def exit_process_of_def)
  have "(7::int) \<noteq> 8" "0 \<le> framesInMemory small_config" by (simp_all add: small_config_def)
  moreover have "length (process_bytes (exit_process_of 8)) < 2 ^ 32" using exit_process_ok(2) [of 8] by simp
  ultimately show ?thesis
    using srt_process_duplicated [OF start _ _ alg sorts_insertion_sort S0(3) exit_process_ok exit_process_ok(1) _
        pages pages, of 8 "\<lparr>swap_block = [], frame_record = 0\<rparr>"] S0(1)
    by blast
qed

end
