(* ===== verification/System_Wait.thy ===== *)
theory System_Wait
  imports System_Life
begin

text \<open>
  An instruction that needs memory, in the whole system: nobody in memory reads what the CPU asks, and
  nobody in the CPU reads what memory would answer, so the execution thread waits for ever.
\<close>

text \<open>No answer of memory has come, and the execution thread is not past one.\<close>

definition no_answer :: "cpu_state \<times> cpu_pc \<Rightarrow> bool" where
  "no_answer c \<longleftrightarrow> waiting_second_table_number (fst c) = 0 \<and> waiting_frame (fst c) = 0
     \<and> waiting_read_answer (fst c) = 0 \<and> waiting_write_answer (fst c) = 0
     \<and> (case snd c of AwaitFrame l purpose \<Rightarrow> False | AwaitRead dst \<Rightarrow> False | AwaitWrite \<Rightarrow> False | _ \<Rightarrow> True)"

lemma execute_no_answer:
  assumes "execute op ps s = Inr c" and "no_answer (s, LoopHead)"
  shows "no_answer c"
  using assms
  by (cases op) (auto simp: execute_def execute_no_op_def execute_io_def execute_read_def execute_copy_def
    execute_write_def execute_exit_def mmu_def pcb_to_kernel_def send_memory_def no_answer_def bindE_iffs Let_def)

lemma exec_step_no_answer:
  assumes "exec_step c = Inr (Some c')" and "no_answer c"
  shows "no_answer c'"
proof -
  obtain s pc where c: "c = (s, pc)" by (cases c)
  show ?thesis
  proof (cases pc)
    case LoopHead
    show ?thesis
    proof (cases "bussyCpu s \<and> unat (program_counter (pcb s)) < length (instructions (pcb s))")
      case True
      then obtain op ps t where "execute op ps (s\<lparr>pcb := t\<rparr>) = Inr c'"
        using assms LoopHead by (auto simp: c exec_step_def bindE_iffs fetch_and_decode_def)
      moreover have "no_answer (s\<lparr>pcb := t\<rparr>, LoopHead)" using assms(2) by (simp add: c no_answer_def LoopHead)
      ultimately show ?thesis by (rule execute_no_answer)
    next
      case False
      with assms(1) have "c' = (s, AwaitPcb)" by (auto simp: c LoopHead exec_step_def)
      with assms(2) show ?thesis by (simp add: c no_answer_def)
    qed
  next
    case AwaitPcb
    with assms show ?thesis by (auto simp: c exec_step_def no_answer_def split: if_splits)
  next
    case CheckInterrupt
    have "no_answer d" if "pcb_to_kernel h b s = Inr d" for h b d
      using that assms(2) by (auto simp: c pcb_to_kernel_def no_answer_def bindE_eq_Inr Let_def)
    moreover have "no_answer (s, LoopHead)" using assms(2) by (simp add: c CheckInterrupt no_answer_def)
    ultimately show ?thesis
      using assms(1) by (auto simp: c CheckInterrupt exec_step_def bindE_eq_Inr split: if_splits)
  next
    case (AwaitIdle b)
    with assms show ?thesis by (auto simp: c exec_step_def no_answer_def Let_def split: if_splits)
  qed (use assms in \<open>simp_all add: c exec_step_def no_answer_def\<close>)
qed

lemma interrupt_no_answer:
  assumes "header_handler [h] s = Inr s'" and "no_answer (s, pc)"
  shows "no_answer (s', pc) \<and> to_kernel s' = to_kernel s"
  using assms by (auto simp: call_handler_def cpu_handlers_def create_packet_def receive_interruption_def no_answer_def
    split: if_splits)

definition unanswered :: "system \<Rightarrow> bool" where
  "unanswered S \<longleftrightarrow> no_answer (proc S) \<and> (\<forall>p \<in> set (cpu_out (ker S)). header p = cpu_code PCB_TO_CPU)"

lemma dispatch_no_answer:
  assumes "next_packet (cpu_out (ker S)) k q" and "call_handler cpu_handlers q (fst (proc S)) = Inr (b, c)" and "unanswered S"
  shows "no_answer (c, snd (proc S)) \<and> to_kernel c = to_kernel (fst (proc S))"
proof -
  have "header q = cpu_code PCB_TO_CPU"
    using assms(1,3) by (auto simp: next_packet_def unanswered_def dest!: delivered_header)
  with assms(2,3) show ?thesis
    by (auto simp: call_handler_def cpu_handlers_def receive_pcb_def bindE_iffs unanswered_def no_answer_def)
qed

lemma sys_step_unanswered:
  assumes "sys_step srt addr ks S S'" and inv: "kernel_inv (ker S)" and srt: "sorts srt" and ok: "unanswered S"
  shows "unanswered S'"
  using assms(1)
proof cases
  case (to_ready k)
  from to_ready_emits [OF inv srt to_ready(2)] ok to_ready(1) show ?thesis by (auto simp: emits_def unanswered_def)
next
  case (to_exec now k)
  from to_exec_emits [OF inv to_exec(2)] ok to_exec(1) show ?thesis by (auto simp: emits_def unanswered_def)
next
  case (io now k)
  from io_emits [OF inv srt io(2)] ok io(1) show ?thesis by (auto simp: emits_def unanswered_def)
next
  case (exit k)
  from exit_emits [OF inv exit(2)] ok exit(1) show ?thesis by (auto simp: emits_def unanswered_def)
next
  case (console p q junk now sock b k)
  from handler_emits [OF console(3) inv] ok console(1) show ?thesis by (simp add: emits_def unanswered_def)
next
  case (answer q junk now sock b k)
  from handler_emits [OF answer(3) inv] ok answer(1) show ?thesis by (simp add: emits_def unanswered_def)
next
  case (call q junk now sock b k)
  from handler_emits [OF call(3) inv] ok call(1) show ?thesis by (simp add: emits_def unanswered_def)
next
  case (dispatch q b c)
  from dispatch_no_answer [OF dispatch(2,3) ok] ok dispatch(1) show ?thesis by (simp add: unanswered_def)
next
  case (exec c)
  then show ?thesis using exec_step_no_answer ok by (simp add: unanswered_def)
next
  case (interrupt c)
  have "no_answer (fst (proc S), snd (proc S))" using ok by (simp add: unanswered_def)
  from interrupt_no_answer [OF interrupt(4) this] interrupt(1) ok show ?thesis by (simp add: unanswered_def)
qed (use ok in \<open>simp add: unanswered_def\<close>)

lemma sys_start_unanswered:
  assumes "sys_start cs level cfg S"
  shows "unanswered S"
  using assms
proof (induction rule: sys_start.induct)
  case (1 m0 hs m p q ccfg junk_pcb junk ms c kcfg dsock isock msock lsock ds)
  have "memory_handshake q (cpu_start ccfg junk_pcb junk) = Inr c"
    using "1.hyps"(5) by (auto simp: cpu_main_def terminate_cpu_def bindE_iffs split: if_splits)
  from memory_handshake_calm [OF this] obtain ps ept where
    c: "c = (cpu_start ccfg junk_pcb junk)\<lparr>cpu_pageSize := ps, cpu_entriesPerTable := ept\<rparr>" by blast
  have "no_answer (c, AwaitPcb)" by (simp add: c cpu_start_def no_answer_def)
  then have "no_answer (dispatch_connected ds c, AwaitPcb)" by (simp add: dispatch_connected_def no_answer_def Let_def)
  then show ?case by (simp add: unanswered_def kernel_main_init kernel_init_def)
qed

lemma sys_reachable_unanswered:
  assumes "sys_reachable srt addr ks cs level cfg S" and "sorts srt"
  shows "unanswered S"
  using assms
proof (induction rule: sys_reachable.induct)
  case (step S S')
  then have "kernel_inv (ker S)" using sys_reachable_parts kernel_reachable_inv by blast
  with step show ?case using sys_step_unanswered by blast
qed (rule sys_start_unanswered)

lemma sys_step_waits:
  assumes "sys_step srt addr ks S S'" and ok: "unanswered S" and at: "snd (proc S) = AwaitTable2 l purpose"
  shows "snd (proc S') = AwaitTable2 l purpose \<and> to_kernel (fst (proc S')) = to_kernel (fst (proc S))"
  using assms(1)
proof cases
  case (dispatch q b c)
  from dispatch_no_answer [OF dispatch(2,3) ok] dispatch(1) at show ?thesis by simp
next
  case (exec c)
  obtain d where d: "proc S = (d, AwaitTable2 l purpose)" using at by (metis prod.collapse)
  then have "waiting_second_table_number d = 0" using ok by (simp add: unanswered_def no_answer_def)
  then have "exec_step (proc S) = Inr None" by (simp add: d exec_step_def)
  with exec(2) show ?thesis by simp
next
  case (interrupt c)
  have "no_answer (fst (proc S), snd (proc S))" using ok by (simp add: unanswered_def)
  from interrupt_no_answer [OF interrupt(4) this] interrupt(1) at show ?thesis by simp
qed (use at in simp_all)

fun waits_for_memory :: "cpu_pc \<Rightarrow> bool" where
  "waits_for_memory (AwaitTable2 l purpose) = True"
| "waits_for_memory (AwaitFrame l purpose) = True"
| "waits_for_memory (AwaitRead dst) = True"
| "waits_for_memory AwaitWrite = True"
| "waits_for_memory _ = False"

text \<open>
  C9. In the whole system, with either scheduler, a CPU that has come to wait for an answer of
  memory (READ, WRITE and COPY all ask for a page table first) waits in every continuation and
  sends the kernel nothing more: memory does not read the CPU's socket after the handshake, and
  the CPU does not read memory's.
\<close>

theorem memory_access_hangs:
  assumes "sys_reachable srt addr ks cs level cfg S" and "sorts srt" and "waits_for_memory (snd (proc S))"
    and "(sys_step srt addr ks)\<^sup>*\<^sup>* S S'"
  shows "snd (proc S') = snd (proc S) \<and> to_kernel (fst (proc S')) = to_kernel (fst (proc S))"
proof -
  have ok: "unanswered S" by (rule sys_reachable_unanswered [OF assms(1,2)])
  then obtain l purpose where at: "snd (proc S) = AwaitTable2 l purpose"
    using assms(3) by (cases "snd (proc S)") (auto simp: unanswered_def no_answer_def)
  from assms(4) have "sys_reachable srt addr ks cs level cfg S' \<and> snd (proc S') = AwaitTable2 l purpose
      \<and> to_kernel (fst (proc S')) = to_kernel (fst (proc S))"
  proof (induction rule: rtranclp_induct)
    case (step S1 S2)
    then have "unanswered S1" using sys_reachable_unanswered [OF _ assms(2)] by blast
    with step sys_step_waits [OF step.hyps(2)] show ?case using sys_reachable.step by metis
  qed (simp add: assms(1) at)
  with at show ?thesis by simp
qed

text \<open>A process that reads, from the start of the system to the wait.\<close>

definition reading_process :: t_process where
  "reading_process = \<lparr>proc_size = 8, proc_instructions = [\<lparr>ins_id = ''READ'', params = [0]\<rparr>]\<rparr>"

lemma reading_process_ok: "wf_process reading_process" "length (process_bytes reading_process) + 40 < 2 ^ 32"
  by (simp_all add: reading_process_def wf_process_def wf_instruction_def c_string_def process_bytes_def enc_LIST_def)

lemma reading_run:
  "\<exists>S. sys_reachable insertion_sort addr 8 7 2 small_config S \<and> snd (proc S) = AwaitTable2 0 ForRead"
proof -
  obtain S0 x where S0: "sys_start 7 2 small_config S0" "ker S0 = kernel_init ''FIFO'' 10 0 2 100"
      "kernel_client_socket (fst (proc S0)) \<noteq> -1" "mem S0 = small_memory\<lparr>sent := x\<rparr>"
      "cpu_pageSize (fst (proc S0)) = 4" "cpu_entriesPerTable (fst (proc S0)) = 2"
    using small_start by blast
  have fresh: "fresh_system 8 2 S0" by (rule sys_start_fresh [OF S0(1)]) simp
  then have idle: "idle_cpu (fst (proc S0))" and zero: "processes_frames (mem S0) = []" "level1_tables (mem S0) = []"
      "level2_tables (mem S0) = []" "answers 8 (mem S0) = []" "snd (proc S0) = AwaitPcb"
    using S0(3) by (simp_all add: fresh_system_def)
  have up: "ker S0 = kernel_up ''FIFO'' 10 0 (Suc 1) 100 0 0"
    by (simp add: S0(2) kernel_up_def kernel_init_def numeral_2_eq_2)
  define P where "P = first_pcb reading_process 9 10"
  have lp: "length (process_bytes reading_process) < 2 ^ 32" using reading_process_ok(2) by simp
  have wP: "wf_pcb P" "length (pcb_bytes P) < 2 ^ 32"
    using first_pcb_ok [OF reading_process_ok] by (simp_all add: P_def)
  have fifo: "choose_scheduler ''FIFO'' = FIFO" by (simp add: choose_scheduler_def)
  have ret: "client_socket small_pcb = 9" "(9 :: u32) \<noteq> 0" "pid small_pcb = 1" by (simp_all add: small_pcb_def blank_pcb_def)
  have conn: "(0 :: int) \<noteq> -1" by simp
  obtain k1 k2 k3 k4 where k:
    "call_handler (kernel_handlers blank_pcb 0 9) (process_packet reading_process) (ker S0) = Inr (True, k1)"
    "run insertion_sort (replicate 4 Run_to_ready) (k1, 0, 0) = Some (k2, 0, 0)"
    "memory_out k2 = [memory_request PROCESS_NEW [1, proc_size reading_process]]"
    "call_handler (kernel_handlers blank_pcb 0 0) (words_packet PROCESS_MEMORY_READY [1, 0, 0]) k2 = Inr (False, k3)"
    "run insertion_sort (replicate 3 Run_to_ready @ replicate 4 (Run_to_exec 0)) (k3, 0, 0) = Some (k4, 1, 0)"
    "cpu_out k4 = [pcb_packet P]"
    using kernel_life [OF reading_process_ok(1) lp fifo small_pcb_ok ret conn conn, of 10 0 1 100 insertion_sort]
    unfolding up P_def [symmetric] by blast
  have pages: "pages_required (mem S0) (proc_size reading_process) = Inr 2"
      "ceil_div 2 (entriesPerTable (config (mem S0))) = Inr 1"
    using small_pages by (simp_all add: S0(4) small_counted_def pages_required_def reading_process_def)
  have "frames_ok (mem S0)" by (rule sys_start_frames [OF S0(1)]) (simp add: small_config_def)
  from memory_life [OF this zero(1-3) pages, of addr 8 0] zero(4) obtain m1 where m:
    "call_handler (memory_handlers addr 8) (request PROCESS_NEW [1, proc_size reading_process]) (mem S0) = Inr (True, m1)"
    "answers 8 m1 = [new_answer]"
    by (auto simp: new_answer_def)
  let ?c1 = "(fst (proc S0))\<lparr>pcb := P, pcb_loaded := 1\<rparr>"
  have a: "call_handler cpu_handlers (received (cpu_code PCB_TO_CPU) (pcb_bytes P)) (fst (proc S0)) = Inr (True, ?c1)"
    using pcb_arrives [OF wP] idle by (simp add: idle_cpu_def)
  have "S0 = snapshot (ker S0) (mem S0) (fst (proc S0), AwaitPcb) 0 0 0 0"
    using fresh_snapshot [OF fresh] zero(5) by (metis prod.collapse)
  then have "(sys_step insertion_sort addr 8)\<^sup>*\<^sup>* S0 (snapshot k4 m1 (?c1, AwaitPcb) (Suc 0) (Suc 0) (Suc 0) 0)"
    using dispatch_chain [OF k m a delivered_process [OF reading_process_ok(1) lp] delivered_pcb(1) [OF wP]] by simp
  moreover have "program_counter P = 0" "instructions P = [\<lparr>ins_id = ''READ'', params = [0]\<rparr>]"
    by (simp_all add: P_def first_pcb_def blank_pcb_def reading_process_def)
  then have "\<exists>c2. exec_run 2 (?c1, AwaitPcb) = Some (c2, AwaitTable2 0 ForRead)"
    using idle S0(5,6)
    by (simp add: numeral_2_eq_2 exec_step_def idle_cpu_def bussyCpu_def fetch_and_decode_def get_op_def
        execute_def execute_read_def mmu_def translate_def send_memory_def list_get_def Let_def)
  then obtain c2 where "exec_run 2 (?c1, AwaitPcb) = Some (c2, AwaitTable2 0 ForRead)" by blast
  from snapshot_exec [OF this]
  have "(sys_step insertion_sort addr 8)\<^sup>*\<^sup>* (snapshot k4 m1 (?c1, AwaitPcb) (Suc 0) (Suc 0) (Suc 0) 0)
      (snapshot k4 m1 (c2, AwaitTable2 0 ForRead) (Suc 0) (Suc 0) (Suc 0) 0)" .
  ultimately have "(sys_step insertion_sort addr 8)\<^sup>*\<^sup>* S0 (snapshot k4 m1 (c2, AwaitTable2 0 ForRead) (Suc 0) (Suc 0) (Suc 0) 0)"
    by (rule rtranclp_trans)
  from sys_steps_reachable [OF this sys_reachable.start [OF S0(1)]] show ?thesis
    by (intro exI [of _ "snapshot k4 m1 (c2, AwaitTable2 0 ForRead) (Suc 0) (Suc 0) (Suc 0) 0"]) simp
qed

theorem memory_access_hangs_witness:
  "\<exists>S. sys_reachable insertion_sort \<lparr>swap_block = [], frame_record = 0\<rparr> 8 7 2 small_config S
    \<and> (\<forall>S'. (sys_step insertion_sort \<lparr>swap_block = [], frame_record = 0\<rparr> 8)\<^sup>*\<^sup>* S S' \<longrightarrow>
         snd (proc S') = AwaitTable2 0 ForRead)"
proof -
  obtain S where S: "sys_reachable insertion_sort \<lparr>swap_block = [], frame_record = 0\<rparr> 8 7 2 small_config S"
      "snd (proc S) = AwaitTable2 0 ForRead"
    using reading_run by blast
  have w: "waits_for_memory (snd (proc S))" by (simp add: S(2))
  show ?thesis
    using memory_access_hangs [OF S(1) sorts_insertion_sort w] S by (intro exI [of _ S]) auto
qed

end
