(* ===== verification/Spec2Isabelle.thy ===== *)
theory Spec2Isabelle
  imports Shared_Props Hand_Off Allocation Clock System_Srt System_Wait
begin

text \<open>
  A verification development for the operating system simulator of this repository: four programs
  that talk over sockets. A \<^emph>\<open>console\<close> reads a file of pseudo instructions and sends it as a process
  to the \<^emph>\<open>kernel\<close>, which plans processes over five states (NEW, READY, BLOCKED, suspended, EXIT)
  and sends them to the \<^emph>\<open>cpu\<close>; the cpu runs the instructions and asks \<^emph>\<open>memory\<close> for page tables,
  frames and values. The directory \<^verbatim>\<open>shared\<close> is the library of all four: serialization, packets,
  and a blocking queue.

  \<^bold>\<open>Conventions.\<close> A \<open>uint32_t\<close> is a 32 bit word and a byte an 8 bit word, with their wrap-around; an
  \<open>int\<close> is an unbounded integer where it counts or indexes, and is converted with \<open>sint\<close> where the
  source converts. A C function that can go wrong returns \<open>c_error + 'a\<close>: \<open>Inl\<close> tells which
  undefined behaviour or self deadlock was reached. \<open>None\<close> is a thread that waits, or NULL. Memory
  that \<open>malloc\<close> leaves indeterminate is an argument, \<open>junk\<close>, or \<open>None\<close> bytes in a buffer.

  \<^bold>\<open>Theories, in the order they build on each other.\<close>

  \<^item> \<open>Prelude\<close>: words, errors, \<open>bindE\<close>, \<open>iterE\<close> (\<open>list_iterate\<close>), \<open>list_get\<close>.
  \<^item> \<open>Serialization\<close> (\<^verbatim>\<open>shared/src/serialization.c\<close>): buffers with bytes, capacity and offset. \<open>holds\<close> says
    which bytes a writer has put, \<open>ahead\<close> which a reader still finds. The locale \<open>codec\<close> is the contract
    between an element writer and reader that the list functions of the source, which take function
    pointers, rely on; it is interpreted for numbers, instructions, processes and pcbs.
  \<^item> \<open>Process_Utils\<close> (\<^verbatim>\<open>process_utils.c\<close>, \<^verbatim>\<open>pcb_utils.c\<close>): the records and their encoding.
  \<^item> \<open>Networking\<close> (\<^verbatim>\<open>networking.c\<close>): packets. A socket to read is a list of what \<open>recv\<close> delivers, cut
    anywhere; a socket to write is a list of what \<open>send\<close> returns. \<open>packet_handler\<close> is the server loop
    of kernel, cpu and memory, with fuel: one unit per packet is enough, as
    \<open>server_serves_packets_in_order\<close> shows.
  \<^item> \<open>Socket_Headers\<close>: the header enumerations and their codes.
  \<^item> \<open>Allocation\<close> (\<^verbatim>\<open>process_utils.c\<close>): what constructors and destructors allocate and free.
  \<^item> \<open>PQueue\<close> (\<^verbatim>\<open>queue.c\<close>): the queue of a semaphore, a recursive mutex and a list, once with atomic
    operations (the locale \<open>blocking_queue\<close> is what its users rely on) and once lock by lock as a step
    relation of any number of threads, which may also lock the queue between operations, and sort it.
    \<open>Shared_Props\<close> shows that the second implements the first.
  \<^item> \<open>Memory_State\<close>, \<open>Swap\<close>, \<open>Page_Table\<close>, \<open>Memory\<close> (\<^verbatim>\<open>memory/src/*.c\<close>): the globals of the memory
    program as one record, its helpers, swap files, page tables with CLOCK and CLOCK-M, and the
    handlers. \<open>Frames\<close> holds the invariant of the frame bitmap (who owns which frame) and that
    every handler keeps it, \<open>Clock\<close> what the replacement visits, \<open>Memory_Props\<close> the requests. The handler
    of the second level faults on every page that is not present, so \<open>load_page\<close> and the clock are
    about code that no request reaches today.
  \<^item> \<open>Tlb\<close>, \<open>Cpu\<close>, \<open>Cpu_Props\<close> (\<^verbatim>\<open>cpu/src/*.c\<close>): the execution thread as a machine over control points
    at its blocking calls, the handlers as steps of other threads, and what a burst sends.
  \<^item> \<open>Kernel\<close> (\<^verbatim>\<open>kernel/src/*.c\<close>): the pcbs on a heap, eight queues, nine semaphores and the execution
    mutex; the threads \<open>to_ready\<close>, \<open>to_exec\<close>, \<open>io_listener\<close> and \<open>exit_process\<close> as machines that run
    from one blocking call to the next; the handlers of packets. \<open>Kernel_Inv\<close> closes the initial state
    under every interleaving of thread steps and packets (\<open>kernel_reachable\<close>, with CPU and memory
    connected) and proves the invariant \<open>kernel_inv\<close>: queues and semaphores agree, each pcb has one
    place and none is lost, the mutex has the owner the control points say. \<open>Kernel_Degree\<close> adds to the
    kernel how many pcbs the CPU has (\<open>n\<close>) and how many exits memory owes a confirmation (\<open>e\<close>): the CPU
    returns a pcb only when \<open>n\<close> is positive, memory confirms only when \<open>e\<close> is, also before the pcb is
    queued, since sending a request and queueing the pcb are two steps, as in the source. It proves the
    bound on processes in memory. \<open>Kernel_Order\<close> shows first in, first out, \<open>Kernel_Props\<close> holds the
    other properties. \<open>listener\<close> is the thread that calls \<open>packet_handler\<close> again and again.
  \<^item> \<open>Double\<close>: the rounding of the \<open>double\<close> operations in the burst estimate, with its error bound.
  \<^item> \<open>Hand_Off\<close>: in \<open>Kernel\<close> an operation of a queue is one step. The threads \<open>io_listener\<close> and \<open>to_ready\<close>
    choose between two queues after a token, and there the two halves of a put show: the element is in
    the list before the semaphore is posted. This theory takes put and take apart, for any number of
    putting threads, and shows that such a thread waits at most for a put that is under way.
  \<^item> \<open>Console\<close>, \<open>Console_Props\<close> (\<^verbatim>\<open>console/src/*.c\<close>): parsing, sending, exit code. The string functions of the
    commons library are parameters; \<open>split_doc\<close> and \<open>trim_doc\<close> state their documented behaviour, and
    \<open>simple_split\<close> and \<open>simple_trim\<close> show that it can be met.
  \<^item> \<open>Delivery\<close>: what one program puts on a socket is what the handler of the next one gets, however the
    bytes are cut (\<open>delivered\<close>).
  \<^item> \<open>System\<close>: kernel, memory and CPU with the sockets between them, and consoles that send processes.
    Memory serves the kernel; it reads the CPU's socket only for the handshake, and the CPU does not
    read memory's answers, so what the CPU asks for stays in \<open>to_memory\<close>.
    \<open>sys_start\<close> is the state the mains produce from any configuration; \<open>sys_step\<close> is one step of one
    program: a thread of the kernel, the execution thread, or a handler on the next packet another
    program has written. \<open>System_Inv\<close> shows that, with FIFO, every state of the system is one that
    \<open>Kernel_Degree\<close> allows the kernel: the CPU's \<open>work\<close> and memory's \<open>replies\<close> bound what they send.
    \<open>System_Life\<close> strings the stages of a process together from console to console, \<open>System_Srt\<close>
    those of the run in which an interrupt meets an EXIT, and \<open>System_Wait\<close> shows that an instruction
    that needs memory never ends.
  \<^item> This theory: the properties that span programs.

  \<^bold>\<open>Parameters.\<close> The sorting function of the commons lists (\<open>sorts\<close>: it permutes and orders, shown for
    insertion sort), \<open>string_split\<close> and \<open>string_trim\<close>, the values of configuration files, the results of
    system calls, the current time, the addresses \<open>malloc\<close> returns as far as they show.

  \<^bold>\<open>Faults.\<close> Where the source runs into undefined behaviour, the model says so instead of repairing it.
  Several properties state such a fault for the inputs that reach it: they document how the code
  behaves today.

  \<^bold>\<open>Not modelled.\<close> Log calls and delays (they change no state; a \<open>usleep\<close> is recorded where its argument
  is of interest); \<open>time_to_ms\<close> and the clock, since the time is an argument of the steps that read it;
  the threads themselves: a thread is a control point in the state of its program, and the accept loops
  are \<open>server_listen\<close> again and again; the freeing of packets and configurations; the test skeletons,
  build files and configuration files. A \<open>double\<close> is a real, rounded after each operation, without
  overflow. Steps between two blocking calls are atomic, except in the queue, whose locks are modelled
  one by one, in \<open>Hand_Off\<close>, for the requests of the kernel to memory, where sending and queueing are
  two steps, and for the log call of \<open>receive_process\<close> after its put. Handlers of different sockets do
  not interleave inside one program.
\<close>

section \<open>Console and kernel\<close>

text \<open>
  C17. The packet of the console, however cut on the socket, makes the kernel allocate a fresh
  pcb with the sent instructions and size, the next pid, program counter 0 and the console's
  socket, and queue it as NEW.
\<close>

theorem process_enters_the_kernel:
  assumes "wf_process p" and "length (process_bytes p) < 2 ^ 32"
  shows "\<exists>q s' pcb. delivered (console_packet p) q
    \<and> call_handler (kernel_handlers junk now sock) q s = Inr (True, s')
    \<and> heap s' (next_addr s) = Some pcb \<and> instructions pcb = proc_instructions p
    \<and> pcb_size pcb = proc_size p \<and> client_socket pcb = sock \<and> program_counter pcb = 0
    \<and> pid pcb = of_int (last_pid s + 1) \<and> last_pid s' = last_pid s + 1
    \<and> lib_queue (new_q s') = lib_queue (new_q s) @ [next_addr s] \<and> any_for_ready s' = any_for_ready s + 1"
  using delivered_process [OF assms] receive_process_eq [OF assms, of junk sock s]
  by (intro exI [of _ "process_packet p"]) (simp add: call_kernel new_pcb_def)

theorem process_enters_the_kernel_witness:
  "\<exists>q s'. delivered (console_packet small_process) q
    \<and> call_handler (kernel_handlers blank_pcb 0 9) q (kernel_init ''SRT'' 10 0 2 100) = Inr (True, s')
    \<and> lib_queue (new_q s') = [0] \<and> last_pid s' = 1"
  using process_enters_the_kernel [OF small_process_ok, of blank_pcb 0 9 "kernel_init ''SRT'' 10 0 2 100"]
  by (fastforce simp: kernel_init_def pQueue_create_def)

section \<open>The handshake of CPU and memory\<close>

lemma sint_of_int_self:
  "- (2 ^ 31) \<le> x \<Longrightarrow> x < 2 ^ 31 \<Longrightarrow> sint (of_int x :: u32) = x"
  by (subst int_word_sint) (simp add: mod_pos_pos_trivial)

lemma handshake_skips:
  "memory_code MEM_HANDSHAKE \<notin> set hs \<Longrightarrow>
     cpu_handshake_listener sock (hs @ memory_code MEM_HANDSHAKE # rest) s = Some (snd (cpu_handshake sock s))"
  by (induction hs) (auto simp: cpu_handshake_def Let_def)

theorem handshake_agrees:
  assumes "- (2 ^ 31) \<le> pageSize (config s)" and "pageSize (config s) < 2 ^ 31"
    and "- (2 ^ 31) \<le> entriesPerTable (config s)" and "entriesPerTable (config s) < 2 ^ 31"
    and "memory_code MEM_HANDSHAKE \<notin> set hs"
  shows "\<exists>m q. cpu_handshake_listener sock (hs @ memory_code MEM_HANDSHAKE # rest) s
        = Some (s\<lparr>sent := sent s @ [(sock, m)]\<rparr>)
    \<and> delivered m q
    \<and> memory_handshake q c
        = Inr (c\<lparr>cpu_pageSize := pageSize (config s), cpu_entriesPerTable := entriesPerTable (config s)\<rparr>)"
proof -
  let ?ws = "[of_int (pageSize (config s)), of_int (entriesPerTable (config s))] :: u32 list"
  let ?h = "cpu_code TABLE_INFO_TO_CPU"
  let ?m = "fold (\<lambda>v p. add_u32 p v) ?ws (create_packet ?h INITIAL_STREAM_SIZE)"
  have "cpu_handshake_listener sock (hs @ memory_code MEM_HANDSHAKE # rest) s
      = Some (s\<lparr>sent := sent s @ [(sock, ?m)]\<rparr>)"
    using handshake_skips [OF assms(5)] by (simp add: cpu_handshake_def send_packet_def Let_def)
  moreover have "delivered ?m (word_packet ?h ?ws)" by (rule delivered_words) simp
  moreover have "words_left (word_packet ?h ?ws) ?ws" by (rule words_left_packet) simp
  from take_words(2) [OF this, of "\<lambda>ps ept. Inr (c\<lparr>cpu_pageSize := sint ps, cpu_entriesPerTable := sint ept\<rparr>)"]
  have "memory_handshake (word_packet ?h ?ws) c
      = Inr (c\<lparr>cpu_pageSize := pageSize (config s), cpu_entriesPerTable := entriesPerTable (config s)\<rparr>)"
    unfolding memory_handshake_def
    using assms(1-4) by (simp add: sint_of_int_self)
  ultimately show ?thesis by blast
qed

theorem handshake_agrees_witness:
  "\<exists>m q c'. cpu_handshake_listener 7 [9, 1] small_memory = Some (small_memory\<lparr>sent := [(7, m)]\<rparr>)
    \<and> delivered m q \<and> memory_handshake q (loaded (idle_program [])) = Inr c' \<and> cpu_pageSize c' = 4"
proof -
  have c: "config small_memory = small_config" "sent small_memory = []"
    by (simp_all add: small_memory_def memory_init_def small_config_def)
  show ?thesis
    using handshake_agrees [of small_memory "[9]" 7 "[]" "loaded (idle_program [])"]
    unfolding c by (fastforce simp: small_config_def simp del: cpu_handshake_listener.simps)
qed

section \<open>Kernel and memory\<close>

text \<open>
  The request of \<open>new_to_ready\<close>, the answer of memory, and the handler that stores it in the pcb:
  the pcb names the tables and frames just built.
\<close>

text \<open>
  C10. The PROCESS_NEW request of new_to_ready makes memory build the tables of the process, and
  its answer makes the kernel store exactly the indices of those tables and frames in the
  waiting pcb and wake the scheduler.
\<close>

theorem tables_reach_the_pcb:
  assumes "kernel_reachable srt level s" and "sorts srt"
    and "to_ready_at s = TR_WaitTable a" and "pcb_table_ready s = 0" and "heap s a = Some old"
    and "bitmap_fits m" and "pid old \<noteq> 0" and "pages_required m (pcb_size old) = Inr pages"
    and "ceil_div pages (entriesPerTable (config m)) = Inr n"
  shows "\<exists>q m' answer r s'. delivered (memory_request PROCESS_NEW [pid old, pcb_size old]) q
    \<and> call_handler (memory_handlers adr sock) q m = Inr (True, m')
    \<and> level1_tables m' = level1_tables m
        @ [map int [length (level2_tables m)..<length (level2_tables m) + nat n]]
    \<and> sent m' = sent m @ [(sock, answer)] \<and> delivered answer r
    \<and> call_handler (kernel_handlers junk now ksock) r s = Inr (False, s')
    \<and> heap s' a = Some (old\<lparr>page_table := of_nat (length (level1_tables m)),
         process_frames_index := of_nat (length (processes_frames m))\<rparr>)
    \<and> pcb_table_ready s' = 1"
proof -
  let ?q = "request PROCESS_NEW [pid old, pcb_size old]"
  let ?ws = "[pid old, of_nat (length (level1_tables m)), of_nat (length (processes_frames m))]"
  let ?r = "words_packet PROCESS_MEMORY_READY ?ws"
  let ?m = "m\<lparr>memory_access_counter := memory_access_counter m + 1\<rparr>"
  have q: "delivered (memory_request PROCESS_NEW [pid old, pcb_size old]) ?q"
    unfolding memory_request_def request_def by (rule delivered_words) simp
  have ok: "bitmap_fits ?m" "pages_required ?m (pcb_size old) = Inr pages"
    using assms(6,8) by (simp_all add: bitmap_fits_def pages_required_def)
  have call: "call_handler (memory_handlers adr sock) ?q m = process_new sock ?q ?m"
    by (simp add: call_handler_def memory_handlers_def request_def counted_def)
  have n: "ceil_div pages (entriesPerTable (config ?m)) = Inr n" using assms(9) by simp
  obtain m' answer where m': "process_new sock ?q ?m = Inr (True, m')"
      "level1_tables m' = level1_tables m
        @ [map int [length (level2_tables m)..<length (level2_tables m) + nat n]]"
      "sent m' = sent m @ [(sock, fold (\<lambda>v p. add_u32 p v) ?ws
         (create_packet (kernel_code PROCESS_MEMORY_READY) INITIAL_STREAM_SIZE))]"
    using process_new_eq [OF ok(1) assms(7) ok(2) n, of sock] by (simp add: Let_def)
  have r: "delivered (fold (\<lambda>v p. add_u32 p v) ?ws
      (create_packet (kernel_code PROCESS_MEMORY_READY) INITIAL_STREAM_SIZE)) ?r"
    unfolding words_packet_def by (rule delivered_words) simp
  have "kernel_inv s" using kernel_reachable_inv assms(1,2) by blast
  from table_index_success_eq [OF this assms(3-5)]
  have "call_handler (kernel_handlers junk now ksock) ?r s = Inr (False, s\<lparr>
      heap := (heap s)(a \<mapsto> old\<lparr>page_table := of_nat (length (level1_tables m)),
         process_frames_index := of_nat (length (processes_frames m))\<rparr>),
      memory_init_q := popped_to [] (memory_init_q s), pcb_table_ready := 1\<rparr>)"
    by (simp add: call_kernel)
  with q r m' call show ?thesis by (intro exI [of _ ?q] exI [of _ m'] exI [of _ ?r] exI) auto
qed

section \<open>CPU and memory\<close>

text \<open>The request for the frame goes out empty, and memory reads past its end.\<close>

text \<open>
  C34. The second request of the mmu is sent empty, because its values are added to the packet
  sent before, so memory's handler reads past its end.
\<close>

theorem frame_request_faults_memory:
  assumes "0 < waiting_second_table_number c"
  shows "\<exists>c' m q. exec_step (c, AwaitTable2 la purpose) = Inr (Some (c', AwaitFrame la purpose))
    \<and> to_memory c' = to_memory c @ [m] \<and> delivered m q
    \<and> call_handler (memory_handlers adr sock) q s = Inl OutOfBounds"
proof -
  let ?m = "create_packet (memory_code LVL2_TABLE) INITIAL_STREAM_SIZE"
  let ?q = "word_packet (memory_code LVL2_TABLE) []"
  have "delivered ?m ?q"
    using delivered_words [of "[]" "memory_code LVL2_TABLE" INITIAL_STREAM_SIZE] by simp
  moreover have "take_u32 ?q = Inl OutOfBounds"
    by (rule take_u32_empty) (simp add: word_packet_def received_def)
  then have "call_handler (memory_handlers adr sock) ?q s = Inl OutOfBounds"
    by (simp add: call_handler_def memory_handlers_def counted_def access_lvl2_table_def)
  ultimately show ?thesis
    using assms by (auto simp: exec_step_def mmu_second_def send_memory_def Let_def)
qed

theorem tables_reach_the_pcb_witness:
  "\<exists>s a q m' answer r s' old. kernel_reachable insertion_sort 2 s
    \<and> call_handler (memory_handlers \<lparr>swap_block = [], frame_record = 0\<rparr> 3) q small_counted = Inr (True, m')
    \<and> sent m' = [(3, answer)] \<and> delivered answer r
    \<and> call_handler (kernel_handlers blank_pcb 0 0) r s = Inr (False, s') \<and> heap s' a = Some old \<and> pcb_table_ready s' = 1"
proof -
  have "\<exists>s. run insertion_sort (take 5 (admit 1)) (kernel_init ''FIFO'' 10 0 2 100, 0, 0) = Some (s, 0, 0)
      \<and> to_ready_at s = TR_WaitTable 0 \<and> pcb_table_ready s = 0
      \<and> heap s 0 = Some (blank_pcb\<lparr>instructions := proc_instructions small_process, pcb_size := proc_size small_process,
         pid := 1, client_socket := 9, program_counter := 0, burst_estimation := 10, left_burst_estimation := 10\<rparr>)"
    unfolding admit_def kernel_init_def choose_scheduler_def
    by (simp add: run_simps)
  then obtain s where s: "conf_reachable insertion_sort 2 (s, 0, 0)" "to_ready_at s = TR_WaitTable 0"
      "pcb_table_ready s = 0" "heap s 0 = Some (blank_pcb\<lparr>instructions := proc_instructions small_process, pcb_size := proc_size small_process,
         pid := 1, client_socket := 9, program_counter := 0, burst_estimation := 10, left_burst_estimation := 10\<rparr>)"
    using run_reachable [OF conf_reachable_init] by blast
  have "kernel_reachable insertion_sort 2 s" using conf_kernel_reachable [OF s(1)] by simp
  from tables_reach_the_pcb [OF this sorts_insertion_sort s(2-4) small_ok(2) _ _ small_pages(2), of "\<lparr>swap_block = [], frame_record = 0\<rparr>" 3 blank_pcb 0 0]
  show ?thesis using small_pages(1) small_memory_simps(8) \<open>kernel_reachable insertion_sort 2 s\<close>
    by (fastforce simp: small_process_def)
qed

theorem frame_request_faults_memory_witness:
  "\<exists>c' m q. exec_step ((loaded (idle_program []))\<lparr>waiting_second_table_number := 1\<rparr>, AwaitTable2 6 ForRead)
      = Inr (Some (c', AwaitFrame 6 ForRead))
    \<and> delivered m q \<and> call_handler (memory_handlers \<lparr>swap_block = [], frame_record = 0\<rparr> 3) q small_memory = Inl OutOfBounds"
  using frame_request_faults_memory [of "(loaded (idle_program []))\<lparr>waiting_second_table_number := 1\<rparr>" 6 ForRead
      "\<lparr>swap_block = [], frame_record = 0\<rparr>" 3 small_memory]
  by auto

section \<open>A burst, from dispatch to dispatch\<close>

text \<open>
  C7. A pcb the kernel dispatches crosses the dispatch socket unchanged however the bytes are
  cut, the CPU runs its NO_OPs and, at the EXIT or I/O that follows, sends it back once with the
  program counter advanced (and the I/O time set); the kernel reads that pcb, and on EXIT queues
  it for exit_process and frees the CPU.
\<close>

theorem burst_across_the_wire:
  assumes "wf_pcb p" and "length (pcb_bytes p) < 2 ^ 32"
    and "kernel_client_socket c \<noteq> -1" and "\<not> tlb_held (tlb c)" and "\<not> new_interruption c" and "pcb_loaded c = 0"
    and "program_counter p = of_nat k" and "k + n < length (instructions p)" and "k + n < 2 ^ 32"
    and "\<forall>i < n. is_noop (instructions p ! (k + i))"
    and "burst_end (instructions p ! (k + n)) (p\<lparr>program_counter := of_nat (k + n) + 1\<rparr>) = Some (h, q)"
  shows "\<exists>pk c1 c2 m mk. delivered (pcb_packet p) pk \<and> call_handler cpu_handlers pk c = Inr (True, c1)
    \<and> exec_run (2 * n + 2) (c1, AwaitPcb) = Some (c2, AwaitIdle False)
    \<and> to_kernel c2 = to_kernel c @ [m] \<and> delivered m mk
    \<and> header mk = kernel_code h \<and> take_pcb mk = Inr q
    \<and> (h = EXIT_CALL \<longrightarrow> (\<exists>s'. call_handler (kernel_handlers junk now sock) mk s = Inr (True, s')
         \<and> heap s' (next_addr s) = Some q \<and> lib_queue (exit_q s') = lib_queue (exit_q s) @ [next_addr s]
         \<and> to_exit s' = to_exit s + 1 \<and> cpu_free s' = cpu_free s + 1))"
proof -
  let ?c1 = "c\<lparr>pcb := p, pcb_loaded := 1\<rparr>"
  have q: "instructions q = instructions p" using burst_end_instructions [OF assms(11)] by simp
  then have wq: "wf_pcb q" "length (pcb_bytes q) < 2 ^ 32"
    using same_program [OF q] assms(1,2) by simp_all
  have a: "call_handler cpu_handlers (received (cpu_code PCB_TO_CPU) (pcb_bytes p)) c = Inr (True, ?c1)"
    using pcb_arrives [OF assms(1,2)] assms(6) by simp
  obtain c2 where run: "exec_run (2 * n + 2) (?c1, AwaitPcb) = Some (c2, AwaitIdle False)"
      and c2: "to_kernel c2 = to_kernel c @ [pcb_message h q]"
    using burst_run [OF assms(3-5,7-11)] by blast
  have t: "take_pcb (pcb_call h q) = Inr q" using take_pcb_call [OF wq] .
  have "\<exists>s'. call_handler (kernel_handlers junk now sock) (pcb_call EXIT_CALL q) s = Inr (True, s')
      \<and> heap s' (next_addr s) = Some q \<and> lib_queue (exit_q s') = lib_queue (exit_q s) @ [next_addr s]
      \<and> to_exit s' = to_exit s + 1 \<and> cpu_free s' = cpu_free s + 1"
    using take_pcb_call [OF wq, of EXIT_CALL] by (simp add: call_kernel exit_op_def alloc_pcb_def)
  with delivered_pcb [OF assms(1,2)] delivered_pcb(2) [OF wq] a run c2 t show ?thesis
    by (intro exI [of _ "received (cpu_code PCB_TO_CPU) (pcb_bytes p)"] exI [of _ ?c1] exI [of _ c2]
        exI [of _ "pcb_message h q"] exI [of _ "pcb_call h q"]) auto
qed

theorem burst_across_the_wire_witness:
  "let p = idle_program [noop, \<lparr>ins_id = ''EXIT'', params = []\<rparr>]
   in \<exists>pk c1 c2 m mk. delivered (pcb_packet p) pk \<and> call_handler cpu_handlers pk (loaded (idle_program [])) = Inr (True, c1)
    \<and> exec_run 4 (c1, AwaitPcb) = Some (c2, AwaitIdle False)
    \<and> to_kernel c2 = [m] \<and> delivered m mk \<and> take_pcb mk = Inr (p\<lparr>program_counter := 2\<rparr>)"
proof -
  let ?p = "idle_program [noop, \<lparr>ins_id = ''EXIT'', params = []\<rparr>]"
  have w: "wf_pcb ?p" "length (pcb_bytes ?p) < 2 ^ 32"
    by (simp_all add: idle_program_def noop_def wf_pcb_def wf_instruction_def c_string_def pcb_bytes_def enc_LIST_def)
  have c: "\<not> tlb_held (tlb (loaded (idle_program [])))"
    using loaded_simps(1) by (simp add: running_def del: loaded_simps)
  show ?thesis
    using burst_across_the_wire [OF w _ c, of 0 1 EXIT_CALL "?p\<lparr>program_counter := 2\<rparr>" blank_pcb 0 0]
    by (fastforce simp: idle_program_def noop_def is_noop_def burst_end_def Let_def)
qed

section \<open>The four programs together\<close>

text \<open>
  C3. From the start of all four programs with a FIFO kernel there is a run in which a console's
  process of NO_OPs and an EXIT is admitted, gets its tables from memory, runs on the CPU,
  leaves memory again, and its console alone is told that it ended: every packet crosses the
  sockets as bytes, the multiprogramming slot and the CPU are free at the end, and memory has
  its frames back and no swap file of it.
\<close>

theorem system_runs_a_process:
  assumes "sys_start cs (Suc l) cfg S0" and "cs \<noteq> ks" and "0 \<le> framesInMemory cfg"
    and "sortingAlgorithm (ker S0) = FIFO" and "kernel_client_socket (fst (proc S0)) \<noteq> -1"
    and "wf_process p" and "length (process_bytes p) + 40 < 2 ^ 32" and "sock \<noteq> 0"
    and "noops_then_exit n (proc_instructions p)"
    and "pages_required (mem S0) (proc_size p) = Inr pages"
    and "ceil_div pages (entriesPerTable (config (mem S0))) = Inr tables"
  shows "\<exists>S. (sys_step srt addr ks)\<^sup>*\<^sup>* S0 S
    \<and> console_out (ker S) = [(sock, console_code PROCESS_OK)]
    \<and> sem_multiprogram (ker S) = Suc l \<and> cpu_free (ker S) = 1
    \<and> snd (proc S) = AwaitPcb \<and> work (proc S) = 0
    \<and> frames_bitmap (mem S) = frames_bitmap (mem S0) \<and> swap_files (mem S) 1 = None \<and> held (mem S) = []"
  using assms by (rule system_life)

theorem system_runs_a_process_witness:
  "\<exists>S0 S. sys_start 7 2 small_config S0 \<and> (sys_step insertion_sort \<lparr>swap_block = [], frame_record = 0\<rparr> 8)\<^sup>*\<^sup>* S0 S
    \<and> console_out (ker S) = [(9, 0)] \<and> frames_bitmap (mem S) = [False, False, False, False]"
proof -
  obtain S0 x where S0: "sys_start 7 2 small_config S0" "ker S0 = kernel_init ''FIFO'' 10 0 2 100"
      "kernel_client_socket (fst (proc S0)) \<noteq> -1" "mem S0 = small_memory\<lparr>sent := x\<rparr>"
    using small_start by blast
  have start: "sys_start 7 (Suc 1) small_config S0" using S0(1) by (simp add: numeral_2_eq_2)
  have fifo: "sortingAlgorithm (ker S0) = FIFO" by (simp add: S0(2) kernel_init_def choose_scheduler_def)
  have pages: "pages_required (mem S0) (proc_size (exit_process_of 8)) = Inr 2"
      "ceil_div 2 (entriesPerTable (config (mem S0))) = Inr 1" "frames_bitmap (mem S0) = [False, False, False, False]"
    using small_pages small_memory_simps by (simp_all add: S0(4) small_counted_def pages_required_def exit_process_of_def)
  have "(7::int) \<noteq> 8" "0 \<le> framesInMemory small_config" "(9::u32) \<noteq> 0" by (simp_all add: small_config_def)
  from system_runs_a_process [OF start this(1,2) fifo S0(3) exit_process_ok(1,2) this(3) exit_process_ok(3) pages(1,2),
      of insertion_sort "\<lparr>swap_block = [], frame_record = 0\<rparr>"]
  show ?thesis using S0(1) pages(3) by auto
qed

text \<open>
  C1. Every interleaving of the steps of kernel, CPU and memory over their sockets, started by
  the mains with a FIFO kernel, is one the kernel's protocol of pcbs and confirmations allows,
  so the free multiprogramming slots and the processes in memory, those whose pcb is at the CPU
  or under way included, never exceed the configured level, and the CPU has at most one of them.
\<close>

theorem system_keeps_the_degree:
  assumes "sys_reachable srt addr ks cs level cfg S" and "sorts srt" and "cs \<noteq> ks"
    and "sortingAlgorithm (ker S) = FIFO"
  shows "sem_multiprogram (ker S) + Kernel_Degree.in_memory (ker S, at_cpu S, exits_due ks S) \<le> level
    \<and> cpu_free (ker S) + at_cpu S \<le> 1"
proof -
  obtain n e where r: "conf_reachable srt level (ker S, n, e)" and n: "at_cpu S \<le> n" and e: "exits_due ks S \<le> e"
    using sys_reachable_protocol [OF assms] by (auto simp: protocol_ok_def)
  show ?thesis using conf_reachable_ok [OF r assms(2)] conf_reachable_tokens [OF r assms(2)] n e
    by (simp add: degree_ok_def Kernel_Degree.in_memory_def)
qed

theorem system_keeps_the_degree_witness:
  "\<exists>S. sys_reachable insertion_sort \<lparr>swap_block = [], frame_record = 0\<rparr> 8 7 2 small_config S
    \<and> sem_multiprogram (ker S) = 1 \<and> to_ready_at (ker S) = TR_WaitTable 0
    \<and> sem_multiprogram (ker S) + Kernel_Degree.in_memory (ker S, at_cpu S, exits_due 8 S) \<le> 2"
proof -
  let ?addr = "\<lparr>swap_block = [], frame_record = 0\<rparr>"
  obtain S0 where S0: "sys_start 7 2 small_config S0" "ker S0 = kernel_init ''FIFO'' 10 0 2 100"
    using small_start by blast
  have "\<exists>k1 k2. call_handler (kernel_handlers blank_pcb 0 9) (process_packet small_process) (ker S0) = Inr (True, k1)
      \<and> run insertion_sort (replicate 4 Run_to_ready) (k1, 0, 0) = Some (k2, 0, 0)
      \<and> sem_multiprogram k2 = 1 \<and> to_ready_at k2 = TR_WaitTable 0 \<and> sortingAlgorithm k2 = FIFO"
    unfolding S0(2) kernel_init_def choose_scheduler_def by (simp add: run_simps numeral_eq_Suc)
  then obtain k1 k2 where k: "call_handler (kernel_handlers blank_pcb 0 9) (process_packet small_process) (ker S0) = Inr (True, k1)"
      "run insertion_sort (replicate 4 Run_to_ready) (k1, 0, 0) = Some (k2, 0, 0)"
      "sem_multiprogram k2 = 1" "to_ready_at k2 = TR_WaitTable 0" "sortingAlgorithm k2 = FIFO"
    by blast
  have "sys_step insertion_sort ?addr 8 S0 (S0\<lparr>ker := k1\<rparr>)"
    by (rule sys_step.console [OF delivered_process [OF small_process_ok] k(1)])
  moreover have "(sys_step insertion_sort ?addr 8)\<^sup>*\<^sup>* (S0\<lparr>ker := k1\<rparr>) (S0\<lparr>ker := k2\<rparr>)"
    using sys_local [of insertion_sort "replicate 4 Run_to_ready" "S0\<lparr>ker := k1\<rparr>" 0 0 k2 0 0] k(2)
    by (simp add: list_all_iff)
  ultimately have "(sys_step insertion_sort ?addr 8)\<^sup>*\<^sup>* S0 (S0\<lparr>ker := k2\<rparr>)"
    by (rule converse_rtranclp_into_rtranclp)
  from sys_steps_reachable [OF this sys_reachable.start [OF S0(1)]]
  have r: "sys_reachable insertion_sort ?addr 8 7 2 small_config (S0\<lparr>ker := k2\<rparr>)" .
  from system_keeps_the_degree [OF r sorts_insertion_sort] k(3-5) r show ?thesis
    by (intro exI [of _ "S0\<lparr>ker := k2\<rparr>"]) simp
qed

end
